(* ===== verification/Keeplin_Prelude.thy ===== *)
theory Keeplin_Prelude
  imports Main "HOL-Library.AList" "HOL-Library.Word"
begin

text \<open>
  Shared vocabulary of the keeplin-srv development: identifiers, timestamps and version
  vectors, the sequencing of fallible computations (Rust's \<open>?\<close> operator) and the model of
  a PostgreSQL table with a primary key as an association list. The laws a table promises
  its clients are the locale \<open>pk_table\<close>, interpreted on the association lists below.
\<close>

named_theorems res_simps \<open>sequencing of fallible computations\<close>
named_theorems tbl_simps \<open>lookups after writes on primary-key tables\<close>

subsection \<open>Identifiers, time, version vectors\<close>

text \<open>
  A \<open>Uuid\<close> is read as the unsigned number of its 128 bits: the code only compares and
  orders identifiers, and the nil identifier is \<open>0\<close>. A \<open>DateTime<Utc>\<close> is a number of
  microseconds. Strings are UTF-8 byte strings, so \<open>length\<close> is Rust's \<open>str::len\<close>.
\<close>

type_synonym uuid = nat
type_synonym timestamp = int
type_synonym i32 = "32 word"
type_synonym version_vector = "string \<Rightarrow> nat option"

definition vv_get :: "version_vector \<Rightarrow> string \<Rightarrow> nat" where
  "vv_get vv k = (case vv k of None \<Rightarrow> 0 | Some n \<Rightarrow> n)"

definition vv_le :: "version_vector \<Rightarrow> version_vector \<Rightarrow> bool" where
  "vv_le a b \<longleftrightarrow> (\<forall>k. vv_get a k \<le> vv_get b k)"

definition vv_concurrent :: "version_vector \<Rightarrow> version_vector \<Rightarrow> bool" where
  "vv_concurrent a b \<longleftrightarrow> \<not> vv_le a b \<and> \<not> vv_le b a"

lemma vv_get_simps [simp]:
  "vv_get Map.empty k = 0"
  "vv_get (vv(k \<mapsto> n)) k' = (if k' = k then n else vv_get vv k')"
  by (simp_all add: vv_get_def)

lemma vv_le_refl [simp, intro]: "vv_le a a"
  by (simp add: vv_le_def)

lemma vv_le_trans [trans]: "vv_le a b \<Longrightarrow> vv_le b c \<Longrightarrow> vv_le a c"
  by (auto simp: vv_le_def intro: order_trans)

lemma vv_le_empty [simp]: "vv_le Map.empty b"
  by (simp add: vv_le_def)

subsection \<open>Fallible computations\<close>

text \<open>\<open>res_then r f\<close> is \<open>f(r?)\<close>: the first error is the result.\<close>

definition res_then :: "'e + 'a \<Rightarrow> ('a \<Rightarrow> 'e + 'b) \<Rightarrow> 'e + 'b" where
  "res_then r f = (case r of Inl e \<Rightarrow> Inl e | Inr x \<Rightarrow> f x)"

definition ok_or :: "'a option \<Rightarrow> 'e \<Rightarrow> 'e + 'a" where
  "ok_or x e = (case x of None \<Rightarrow> Inl e | Some y \<Rightarrow> Inr y)"

fun res_map :: "('a \<Rightarrow> 'e + 'b) \<Rightarrow> 'a list \<Rightarrow> 'e + 'b list" where
  "res_map f [] = Inr []"
| "res_map f (x # xs) = res_then (f x) (\<lambda>y. res_then (res_map f xs) (\<lambda>ys. Inr (y # ys)))"

lemma res_then_simps [simp]:
  "res_then (Inl e) f = Inl e"
  "res_then (Inr x) f = f x"
  by (simp_all add: res_then_def)

lemma res_then_Inr_iff [res_simps]:
  "res_then r f = Inr y \<longleftrightarrow> (\<exists>x. r = Inr x \<and> f x = Inr y)"
  by (cases r) simp_all

lemma res_then_Inl_iff [res_simps]:
  "res_then r f = Inl e \<longleftrightarrow> r = Inl e \<or> (\<exists>x. r = Inr x \<and> f x = Inl e)"
  by (cases r) simp_all

lemma ok_or_simps [simp]:
  "ok_or None e = Inl e"
  "ok_or (Some x) e = Inr x"
  by (simp_all add: ok_or_def)

lemma ok_or_Inr_iff [res_simps]: "ok_or x e = Inr y \<longleftrightarrow> x = Some y"
  by (cases x) simp_all

lemma ok_or_Inl_iff [res_simps]: "ok_or x e = Inl d \<longleftrightarrow> x = None \<and> d = e"
  by (cases x) auto

lemma res_map_Inr_length: "res_map f xs = Inr ys \<Longrightarrow> length ys = length xs"
  by (induction xs arbitrary: ys) (auto simp: res_then_Inr_iff)

lemma res_map_Inr_iff:
  "res_map f xs = Inr ys \<longleftrightarrow> list_all2 (\<lambda>x y. f x = Inr y) xs ys"
  by (induction xs arbitrary: ys) (auto simp: res_then_Inr_iff list_all2_Cons1)

lemma res_map_source: "res_map f xs = Inr ys \<Longrightarrow> y \<in> set ys \<Longrightarrow> \<exists>x\<in>set xs. f x = Inr y"
  by (induction xs arbitrary: ys) (auto simp: res_then_Inr_iff)

lemma res_map_all_Inr: "(\<And>x. x \<in> set xs \<Longrightarrow> f x = Inr (g x)) \<Longrightarrow> res_map f xs = Inr (map g xs)"
  by (induction xs) simp_all

lemma res_map_Inl: "x \<in> set xs \<Longrightarrow> f x = Inl e \<Longrightarrow> \<exists>e'. res_map f xs = Inl e'"
proof (induction xs)
  case (Cons y ys)
  then show ?case by (cases "f y"; cases "res_map f ys") auto
qed simp

subsection \<open>Tables with a primary key\<close>

text \<open>
  A table is the list of its rows, each with its primary key; \<open>tbl_ok\<close> is the uniqueness
  of the key. \<open>tbl_put\<close> inserts a row or replaces the row with that key, \<open>tbl_upd\<close> is
  \<open>UPDATE \<dots> WHERE pk = k\<close>, the \<open>\<dots>_where\<close> operations take an arbitrary condition.
\<close>

type_synonym ('k, 'v) table = "('k \<times> 'v) list"

definition tbl_get :: "('k, 'v) table \<Rightarrow> 'k \<Rightarrow> 'v option" where
  "tbl_get t k = map_of t k"

definition tbl_put :: "'k \<Rightarrow> 'v \<Rightarrow> ('k, 'v) table \<Rightarrow> ('k, 'v) table" where
  "tbl_put k v t = AList.update k v t"

definition tbl_del :: "'k \<Rightarrow> ('k, 'v) table \<Rightarrow> ('k, 'v) table" where
  "tbl_del k t = filter (\<lambda>r. fst r \<noteq> k) t"

definition tbl_upd :: "'k \<Rightarrow> ('v \<Rightarrow> 'v) \<Rightarrow> ('k, 'v) table \<Rightarrow> ('k, 'v) table" where
  "tbl_upd k f t = map (\<lambda>r. if fst r = k then (fst r, f (snd r)) else r) t"

definition tbl_upd_where ::
    "('k \<Rightarrow> 'v \<Rightarrow> bool) \<Rightarrow> ('v \<Rightarrow> 'v) \<Rightarrow> ('k, 'v) table \<Rightarrow> ('k, 'v) table" where
  "tbl_upd_where P f t = map (\<lambda>r. if P (fst r) (snd r) then (fst r, f (snd r)) else r) t"

definition tbl_del_where :: "('k \<Rightarrow> 'v \<Rightarrow> bool) \<Rightarrow> ('k, 'v) table \<Rightarrow> ('k, 'v) table" where
  "tbl_del_where P t = filter (\<lambda>r. \<not> P (fst r) (snd r)) t"

definition tbl_select :: "('k \<Rightarrow> 'v \<Rightarrow> bool) \<Rightarrow> ('k, 'v) table \<Rightarrow> 'v list" where
  "tbl_select P t = map snd (filter (\<lambda>r. P (fst r) (snd r)) t)"

definition tbl_count :: "('k \<Rightarrow> 'v \<Rightarrow> bool) \<Rightarrow> ('k, 'v) table \<Rightarrow> nat" where
  "tbl_count P t = length (filter (\<lambda>r. P (fst r) (snd r)) t)"

definition tbl_ok :: "('k, 'v) table \<Rightarrow> bool" where
  "tbl_ok t \<longleftrightarrow> distinct (map fst t)"

lemmas tbl_defs = tbl_get_def tbl_put_def tbl_del_def tbl_upd_def tbl_upd_where_def
  tbl_del_where_def tbl_select_def tbl_count_def tbl_ok_def

lemma tbl_get_Nil [simp]: "tbl_get [] k = None"
  by (simp add: tbl_get_def)

lemma tbl_get_put [simp, tbl_simps]:
  "tbl_get (tbl_put k v t) k' = (if k' = k then Some v else tbl_get t k')"
  by (simp add: tbl_get_def tbl_put_def update_conv')

lemma tbl_get_del [simp, tbl_simps]:
  "tbl_get (tbl_del k t) k' = (if k' = k then None else tbl_get t k')"
  by (induction t) (auto simp: tbl_get_def tbl_del_def)

lemma tbl_get_upd [simp, tbl_simps]:
  "tbl_get (tbl_upd k f t) k' = (if k' = k then map_option f (tbl_get t k) else tbl_get t k')"
  by (induction t) (auto simp: tbl_get_def tbl_upd_def)

lemma tbl_get_upd_where [tbl_simps]:
  "tbl_get (tbl_upd_where P f t) k = map_option (\<lambda>v. if P k v then f v else v) (tbl_get t k)"
  by (induction t) (auto simp: tbl_get_def tbl_upd_where_def)

lemma tbl_get_del_where [tbl_simps]:
  assumes "tbl_ok t"
  shows "tbl_get (tbl_del_where P t) k =
    (case tbl_get t k of None \<Rightarrow> None | Some v \<Rightarrow> if P k v then None else Some v)"
  using assms
proof (induction t)
  case (Cons r t)
  then show ?case
    by (cases r; cases "map_of t k") (force simp: tbl_defs dest: map_of_SomeD)+
qed (simp add: tbl_defs)

lemma tbl_ok_Nil [simp]: "tbl_ok []"
  by (simp add: tbl_ok_def)

lemma tbl_ok_put [simp, intro]: "tbl_ok t \<Longrightarrow> tbl_ok (tbl_put k v t)"
  by (simp add: tbl_ok_def tbl_put_def distinct_update)

lemma tbl_ok_del [simp, intro]: "tbl_ok t \<Longrightarrow> tbl_ok (tbl_del k t)"
  by (simp add: tbl_ok_def tbl_del_def distinct_map_filter)

lemma tbl_ok_upd [simp]: "tbl_ok (tbl_upd k f t) = tbl_ok t"
  by (simp add: tbl_ok_def tbl_upd_def comp_def if_distrib cong: if_cong)

lemma tbl_ok_upd_where [simp]: "tbl_ok (tbl_upd_where P f t) = tbl_ok t"
  by (simp add: tbl_ok_def tbl_upd_where_def comp_def if_distrib cong: if_cong)

lemma tbl_ok_del_where [simp, intro]: "tbl_ok t \<Longrightarrow> tbl_ok (tbl_del_where P t)"
  by (simp add: tbl_ok_def tbl_del_where_def distinct_map_filter)

lemma tbl_get_Some_in: "tbl_get t k = Some v \<Longrightarrow> (k, v) \<in> set t"
  by (simp add: tbl_get_def map_of_SomeD)

lemma tbl_get_in_iff: "tbl_ok t \<Longrightarrow> tbl_get t k = Some v \<longleftrightarrow> (k, v) \<in> set t"
  by (simp add: tbl_get_def tbl_ok_def map_of_eq_Some_iff)

lemma tbl_select_set:
  "tbl_ok t \<Longrightarrow> v \<in> set (tbl_select P t) \<longleftrightarrow> (\<exists>k. tbl_get t k = Some v \<and> P k v)"
  by (force simp: tbl_select_def tbl_get_in_iff)

lemma tbl_put_new: "tbl_get t k = None \<Longrightarrow> tbl_put k v t = t @ [(k, v)]"
  by (induction t) (auto simp: tbl_get_def tbl_put_def split: if_splits)

lemma tbl_count_put_new [tbl_simps]:
  "tbl_get t k = None \<Longrightarrow> tbl_count P (tbl_put k v t) = tbl_count P t + (if P k v then 1 else 0)"
  by (simp add: tbl_put_new tbl_count_def)

lemma tbl_count_put_old:
  "tbl_ok t \<Longrightarrow> tbl_get t k = Some w \<Longrightarrow>
   tbl_count P (tbl_put k v t) + (if P k w then 1 else 0) = tbl_count P t + (if P k v then 1 else 0)"
proof (induction t)
  case (Cons r t)
  then show ?case
    by (cases r) (auto simp: tbl_defs split: if_splits)
qed simp

lemma tbl_upd_absent: "tbl_get t k = None \<Longrightarrow> tbl_upd k f t = t"
  by (induction t) (auto simp: tbl_defs split: if_splits)

lemma tbl_upd_put: "tbl_ok t \<Longrightarrow> tbl_get t k = Some v \<Longrightarrow> tbl_upd k f t = tbl_put k (f v) t"
proof (induction t)
  case (Cons r t)
  show ?case
  proof (cases "fst r = k")
    case True
    with Cons.prems(1) have "tbl_get t k = None"
      by (auto simp: tbl_defs map_of_eq_None_iff)
    with True Cons.prems show ?thesis
      by (cases r) (simp add: tbl_defs tbl_upd_absent [unfolded tbl_defs])
  next
    case False
    with Cons show ?thesis by (cases r) (simp add: tbl_defs)
  qed
qed (simp add: tbl_defs)

lemma tbl_count_mono: "(\<And>k v. P k v \<Longrightarrow> Q k v) \<Longrightarrow> tbl_count P t \<le> tbl_count Q t"
  by (induction t) (auto simp: tbl_count_def)

subsection \<open>The interface of a table\<close>

text \<open>
  What the store's clients use of a table: a lookup sees the last write, writes keep the
  primary key unique, and an insertion of a new key adds at most one row to any count.
\<close>

locale pk_table =
  fixes get :: "'t \<Rightarrow> 'k \<Rightarrow> 'v option"
    and put :: "'k \<Rightarrow> 'v \<Rightarrow> 't \<Rightarrow> 't"
    and del :: "'k \<Rightarrow> 't \<Rightarrow> 't"
    and count :: "('k \<Rightarrow> 'v \<Rightarrow> bool) \<Rightarrow> 't \<Rightarrow> nat"
    and ok :: "'t \<Rightarrow> bool"
  assumes get_put: "get (put k v t) k' = (if k' = k then Some v else get t k')"
    and get_del: "get (del k t) k' = (if k' = k then None else get t k')"
    and ok_put: "ok t \<Longrightarrow> ok (put k v t)"
    and ok_del: "ok t \<Longrightarrow> ok (del k t)"
    and count_new: "get t k = None \<Longrightarrow> count P (put k v t) = count P t + (if P k v then 1 else 0)"
    and count_old: "ok t \<Longrightarrow> get t k = Some w \<Longrightarrow>
      count P (put k v t) + (if P k w then 1 else 0) = count P t + (if P k v then 1 else 0)"
begin

lemma get_put_put: "k \<noteq> l \<Longrightarrow> get (put k v (put l w t)) = get (put l w (put k v t))"
  by (auto simp: get_put)

lemma get_del_put: "get t k = None \<Longrightarrow> get (del k (put k v t)) = get t"
  by (auto simp: get_put get_del)

lemma count_put_le:
  assumes "ok t"
  shows "count P (put k v t) \<le> Suc (count P t)"
proof (cases "get t k")
  case None
  then show ?thesis by (simp add: count_new)
next
  case (Some w)
  from count_old [OF assms this, of P v] show ?thesis by (auto split: if_splits)
qed

lemma count_put_keep:
  assumes "ok t" and "get t k = Some w" and "P k v \<Longrightarrow> P k w"
  shows "count P (put k v t) \<le> count P t"
  using count_old [OF assms(1,2), of P v] assms(3) by (auto split: if_splits)

end

interpretation alist: pk_table tbl_get tbl_put tbl_del tbl_count tbl_ok
  by unfold_locales (simp_all add: tbl_count_put_new tbl_count_put_old)

lemmas tbl_count_put_le = alist.count_put_le
lemmas tbl_count_put_keep = alist.count_put_keep

subsection \<open>Strictly sorted lists\<close>

lemma strict_filter_take:
  fixes f :: "'a \<Rightarrow> 'k::linorder"
  assumes "sorted_wrt (<) (map f xs)" and "take n xs \<noteq> []"
  shows "filter (\<lambda>x. f x \<le> f (last (take n xs))) xs = take n xs"
    and "filter (\<lambda>x. f (last (take n xs)) < f x) xs = drop n xs"
proof -
  let ?l = "last (take n xs)"
  have s: "sorted_wrt (<) (map f (take n xs @ drop n xs))" using assms(1) by simp
  have lo: "f x \<le> f ?l" if "x \<in> set (take n xs)" for x
  proof -
    have "sorted_wrt (<) (map f (butlast (take n xs) @ [?l]))" using s assms(2)
      by (simp add: sorted_wrt_append del: append_take_drop_id)
    moreover have "x \<in> set (butlast (take n xs)) \<or> x = ?l"
      using that assms(2) by (metis append_butlast_last_id in_set_conv_decomp_first rotate1.simps(2) set_ConsD set_rotate1)
    ultimately show ?thesis by (auto simp: sorted_wrt_append)
  qed
  have hi: "f ?l < f x" if "x \<in> set (drop n xs)" for x
    using s that assms(2) last_in_set [OF assms(2)] by (auto simp: sorted_wrt_append simp del: append_take_drop_id)
  have "filter P xs = filter P (take n xs) @ filter P (drop n xs)" for P
    by (metis append_take_drop_id filter_append)
  with lo hi show "filter (\<lambda>x. f x \<le> f ?l) xs = take n xs" "filter (\<lambda>x. f ?l < f x) xs = drop n xs"
    by (simp_all add: filter_True filter_False not_le not_less)
qed

lemma sorted_wrt_map_filter: "sorted_wrt (<) (map f xs) \<Longrightarrow> sorted_wrt (<) (map f (filter P xs))"
  by (simp add: sorted_wrt_map sorted_wrt_filter)

end
