(* ===== verification/Text_Ops.thy ===== *)
theory Text_Ops
  imports Keeplin_Prelude
begin

text \<open>
  The string operations of Rust's standard library that the server uses, on UTF-8 byte
  strings: \<open>str::trim\<close> (Unicode white space), \<open>strip_prefix\<close>, \<open>split\<close> and \<open>split_once\<close>
  on a one-byte separator, and \<open>join\<close>.
\<close>

definition ws_seqs :: "string list" where
  "ws_seqs = map (map (char_of :: nat \<Rightarrow> char))
     ([[9], [10], [11], [12], [13], [32], [194, 133], [194, 160], [225, 154, 128]] @
      map (\<lambda>n. [226, 128, n]) [128..<139] @
      [[226, 128, 168], [226, 128, 169], [226, 128, 175], [226, 129, 159], [227, 128, 128]])"

definition is_prefix :: "string \<Rightarrow> string \<Rightarrow> bool" where
  "is_prefix p s \<longleftrightarrow> take (length p) s = p"

definition strip_prefix :: "string \<Rightarrow> string \<Rightarrow> string option" where
  "strip_prefix p s = (if is_prefix p s then Some (drop (length p) s) else None)"

lemma ws_seqs_nonempty: "w \<in> set ws_seqs \<Longrightarrow> w \<noteq> []"
  by (auto simp: ws_seqs_def)

lemma is_prefix_length: "is_prefix p s \<Longrightarrow> length p \<le> length s"
  unfolding is_prefix_def by (metis length_take min.cobounded1)

function strip_seqs :: "string list \<Rightarrow> string \<Rightarrow> string" where
  "strip_seqs ws s =
     (case find (\<lambda>w. w \<noteq> [] \<and> is_prefix w s) ws of
        None \<Rightarrow> s
      | Some w \<Rightarrow> strip_seqs ws (drop (length w) s))"
  by pat_completeness auto
termination
  by (relation "measure (\<lambda>(ws, s). length s)")
    (auto simp: find_Some_iff dest!: is_prefix_length intro!: diff_less)

declare strip_seqs.simps [simp del]

definition trim_start :: "string \<Rightarrow> string" where
  "trim_start s = strip_seqs ws_seqs s"

definition trim_end :: "string \<Rightarrow> string" where
  "trim_end s = rev (strip_seqs (map rev ws_seqs) (rev s))"

definition trim :: "string \<Rightarrow> string" where
  "trim s = trim_end (trim_start s)"

text \<open>A string that starts and ends with a printable ASCII byte is its own trimming.\<close>

definition is_graph :: "char \<Rightarrow> bool" where
  "is_graph c \<longleftrightarrow> (let n = (of_char c :: nat) in 33 \<le> n \<and> n \<le> 126)"

lemma ws_seqs_bytes: "\<forall>w\<in>set ws_seqs. \<forall>c\<in>set [hd w, last w]. \<not> is_graph c"
  by (simp add: ws_seqs_def is_graph_def upt_rec Let_def)

lemma strip_seqs_keep:
  assumes "\<And>w. w \<in> set ws \<Longrightarrow> w \<noteq> [] \<Longrightarrow> hd w \<noteq> hd s"
  shows "strip_seqs ws s = s"
proof -
  have "\<not> (w \<noteq> [] \<and> is_prefix w s)" if "w \<in> set ws" for w
    using assms [OF that] by (cases w; cases s) (auto simp: is_prefix_def)
  then have "find (\<lambda>w. w \<noteq> [] \<and> is_prefix w s) ws = None" by (auto simp: find_None_iff)
  then show ?thesis by (simp add: strip_seqs.simps)
qed

lemma trim_graph:
  assumes "s \<noteq> []" and "is_graph (hd s)" and "is_graph (last s)"
  shows "trim s = s"
proof -
  have "trim_start s = s"
    unfolding trim_start_def using ws_seqs_bytes assms(2) by (intro strip_seqs_keep) auto
  moreover have "strip_seqs (map rev ws_seqs) (rev s) = rev s"
    using ws_seqs_bytes assms by (intro strip_seqs_keep) (auto simp: hd_rev)
  ultimately show ?thesis by (simp add: trim_def trim_end_def)
qed

fun split_on :: "char \<Rightarrow> string \<Rightarrow> string list" where
  "split_on c [] = [[]]"
| "split_on c (x # xs) =
     (if x = c then [] # split_on c xs
      else case split_on c xs of [] \<Rightarrow> [[x]] | y # ys \<Rightarrow> (x # y) # ys)"

fun split_once :: "char \<Rightarrow> string \<Rightarrow> (string \<times> string) option" where
  "split_once c [] = None"
| "split_once c (x # xs) =
     (if x = c then Some ([], xs)
      else map_option (\<lambda>(a, b). (x # a, b)) (split_once c xs))"

fun join_with :: "string \<Rightarrow> string list \<Rightarrow> string" where
  "join_with sep [] = []"
| "join_with sep [x] = x"
| "join_with sep (x # y # ys) = x @ sep @ join_with sep (y # ys)"

lemma strip_prefix_append [simp]: "strip_prefix p (p @ s) = Some s"
  by (simp add: strip_prefix_def is_prefix_def)

lemma is_prefix_append [simp]: "is_prefix p (p @ s)"
  by (simp add: is_prefix_def)

lemma strip_prefix_Some_iff: "strip_prefix p s = Some r \<longleftrightarrow> s = p @ r"
  by (auto simp: strip_prefix_def is_prefix_def) (metis append_take_drop_id)

lemma split_on_nonempty [simp]: "split_on c s \<noteq> []"
  by (induction s) (auto split: list.splits)

lemma join_split: "join_with [c] (split_on c s) = s"
proof (induction s)
  case (Cons x xs)
  obtain y ys where "split_on c xs = y # ys" by (metis neq_Nil_conv split_on_nonempty)
  with Cons show ?case by (cases ys) auto
qed simp

lemma split_on_no_sep: "p \<in> set (split_on c s) \<Longrightarrow> c \<notin> set p"
proof (induction s arbitrary: p)
  case (Cons x xs)
  then show ?case by (cases "split_on c xs") (auto split: if_splits)
qed simp

lemma split_on_none: "c \<notin> set s \<Longrightarrow> split_on c s = [s]"
  by (induction s) auto

lemma split_on_append_sep: "c \<notin> set a \<Longrightarrow> split_on c (a @ c # s) = a # split_on c s"
  by (induction a) auto

lemma split_join:
  "xs \<noteq> [] \<Longrightarrow> \<forall>x\<in>set xs. c \<notin> set x \<Longrightarrow> split_on c (join_with [c] xs) = xs"
  by (induction "[c]" xs rule: join_with.induct) (auto simp: split_on_none split_on_append_sep)

lemma split_once_append: "c \<notin> set a \<Longrightarrow> split_once c (a @ c # s) = Some (a, s)"
  by (induction a) auto

lemma split_once_Some_iff: "split_once c s = Some (a, b) \<longleftrightarrow> s = a @ c # b \<and> c \<notin> set a"
proof (induction s arbitrary: a)
  case (Cons x xs)
  then show ?case by (cases a) (auto split: prod.splits)
qed simp

lemma length_join:
  "length (join_with [c] xs) = sum_list (map length xs) + (length xs - 1)"
  by (induction "[c]" xs rule: join_with.induct) auto

end
