(* ===== verification/App_Error.thy ===== *)
theory App_Error
  imports Keeplin_Prelude
begin

text \<open>
  \<open>error.rs\<close>: the error type every fallible operation returns, the HTTP status and the
  message a client sees. The database driver's error is kept as far as the code inspects
  it: a missing row, an SQLSTATE code, or anything else. How the driver prints an error is
  a parameter.
\<close>

datatype sqlx_error = RowNotFound | DbError string | OtherSqlx string

definition is_unique_violation :: "sqlx_error \<Rightarrow> bool" where
  "is_unique_violation e \<longleftrightarrow> e = DbError ''23505''"

record move_blocked_count =
  mb_notebook_id :: uuid
  mb_count :: nat

datatype app_error =
    Database sqlx_error
  | MissingToken
  | InvalidToken
  | NotFound
  | Forbidden
  | MoveBlocked "uuid list" "move_blocked_count list"
  | Conflict
  | BadRequest string
  | QuotaExceeded string
  | PayloadTooLarge string
  | TooManyAttempts
  | ServiceUnavailable
  | NotImplemented string
  | Internal string

type_synonym 'a result = "app_error + 'a"

fun app_error_to_string :: "(sqlx_error \<Rightarrow> string) \<Rightarrow> app_error \<Rightarrow> string" where
  "app_error_to_string sh (Database e) = ''database error: '' @ sh e"
| "app_error_to_string sh MissingToken = ''missing token''"
| "app_error_to_string sh InvalidToken = ''invalid token''"
| "app_error_to_string sh NotFound = ''not found''"
| "app_error_to_string sh Forbidden = ''forbidden''"
| "app_error_to_string sh (MoveBlocked ns cs) = ''move would drop controlled access''"
| "app_error_to_string sh Conflict = ''conflict''"
| "app_error_to_string sh (BadRequest m) = ''bad request: '' @ m"
| "app_error_to_string sh (QuotaExceeded m) = ''quota exceeded: '' @ m"
| "app_error_to_string sh (PayloadTooLarge m) = ''payload too large: '' @ m"
| "app_error_to_string sh TooManyAttempts = ''too many attempts; try again later''"
| "app_error_to_string sh ServiceUnavailable = ''service temporarily unavailable''"
| "app_error_to_string sh (NotImplemented m) = ''not implemented: '' @ m"
| "app_error_to_string sh (Internal m) = ''internal error: '' @ m"

fun status :: "app_error \<Rightarrow> nat" where
  "status (Database RowNotFound) = 404"
| "status (Database _) = 500"
| "status MissingToken = 401"
| "status InvalidToken = 401"
| "status NotFound = 404"
| "status Forbidden = 403"
| "status (MoveBlocked _ _) = 403"
| "status Conflict = 409"
| "status (BadRequest _) = 400"
| "status (QuotaExceeded _) = 507"
| "status (PayloadTooLarge _) = 413"
| "status TooManyAttempts = 429"
| "status ServiceUnavailable = 503"
| "status (NotImplemented _) = 501"
| "status (Internal _) = 500"

fun client_message :: "(sqlx_error \<Rightarrow> string) \<Rightarrow> app_error \<Rightarrow> string" where
  "client_message sh (Database _) = ''internal error''"
| "client_message sh (Internal _) = ''internal error''"
| "client_message sh (QuotaExceeded m) = m"
| "client_message sh e = app_error_to_string sh e"

record error_response =
  resp_status :: nat
  resp_error :: string
  resp_named_principals :: "uuid list option"
  resp_counted_principals :: "move_blocked_count list option"

definition into_response :: "(sqlx_error \<Rightarrow> string) \<Rightarrow> app_error \<Rightarrow> error_response" where
  "into_response sh e =
     (case e of
        MoveBlocked named counted \<Rightarrow>
          \<lparr>resp_status = status e, resp_error = client_message sh e,
           resp_named_principals = Some named, resp_counted_principals = Some counted\<rparr>
      | _ \<Rightarrow>
          \<lparr>resp_status = status e, resp_error = client_message sh e,
           resp_named_principals = None, resp_counted_principals = None\<rparr>)"

definition is_serialization_failure :: "app_error \<Rightarrow> bool" where
  "is_serialization_failure e \<longleftrightarrow> e = Database (DbError ''40001'')"

lemma client_message_db: "client_message sh (Database d) = client_message sh' (Internal m)"
  by simp

lemma into_response_status [simp]: "resp_status (into_response sh e) = status e"
  by (cases e) (simp_all add: into_response_def)

lemma into_response_error [simp]: "resp_error (into_response sh e) = client_message sh e"
  by (cases e) (simp_all add: into_response_def)

end
