(* ===== verification/Capabilities.thy ===== *)
theory Capabilities
  imports App_Error
begin

text \<open>
  \<open>permissions.rs\<close> (capability bitsets and resolved accesses) and the permission scheme of
  \<open>config.rs\<close>. The bitset is the code's \<open>i32\<close>; its abstract meaning is the set of
  capabilities it holds, and normalisation is the closure of that set under "a higher
  capability implies the lower ones".
\<close>

unbundle bit_operations_syntax

subsection \<open>The bitset\<close>

definition READ :: i32 where "READ = 1"
definition WRITE :: i32 where "WRITE = 2"
definition SHARE_READ :: i32 where "SHARE_READ = 4"
definition SHARE_WRITE :: i32 where "SHARE_WRITE = 8"
definition MANAGE :: i32 where "MANAGE = 16"
definition CAP_ALL :: i32 where "CAP_ALL = READ OR WRITE OR SHARE_READ OR SHARE_WRITE OR MANAGE"

datatype capabilities = Capabilities i32

fun bits :: "capabilities \<Rightarrow> i32" where
  "bits (Capabilities b) = b"

definition normalized :: "capabilities \<Rightarrow> capabilities" where
  "normalized c =
     (let b = bits c;
          b = (if b AND MANAGE \<noteq> 0 then b OR CAP_ALL else b);
          b = (if b AND SHARE_WRITE \<noteq> 0 then b OR (SHARE_READ OR WRITE) else b);
          b = (if b AND (SHARE_READ OR WRITE) \<noteq> 0 then b OR READ else b)
      in Capabilities b)"

definition from_bits :: "i32 \<Rightarrow> capabilities" where
  "from_bits b = normalized (Capabilities (b AND CAP_ALL))"

definition empty_caps :: capabilities where
  "empty_caps = Capabilities 0"

definition all_caps :: capabilities where
  "all_caps = Capabilities CAP_ALL"

definition contains_bit :: "capabilities \<Rightarrow> i32 \<Rightarrow> bool" where
  "contains_bit c b \<longleftrightarrow> bits c AND b = b"

definition can_read :: "capabilities \<Rightarrow> bool" where
  "can_read c = contains_bit c READ"
definition can_write :: "capabilities \<Rightarrow> bool" where
  "can_write c = contains_bit c WRITE"
definition can_share_read :: "capabilities \<Rightarrow> bool" where
  "can_share_read c = contains_bit c SHARE_READ"
definition can_share_write :: "capabilities \<Rightarrow> bool" where
  "can_share_write c = contains_bit c SHARE_WRITE"
definition can_manage :: "capabilities \<Rightarrow> bool" where
  "can_manage c = contains_bit c MANAGE"

subsection \<open>Resolved accesses\<close>

record access =
  acc_caps :: capabilities
  is_owner :: bool

definition access_owner :: access where
  "access_owner = \<lparr>acc_caps = all_caps, is_owner = True\<rparr>"

definition access_granted :: "capabilities \<Rightarrow> access" where
  "access_granted c = \<lparr>acc_caps = c, is_owner = False\<rparr>"

definition acc_can_read :: "access \<Rightarrow> bool" where
  "acc_can_read a = can_read (acc_caps a)"
definition acc_can_write :: "access \<Rightarrow> bool" where
  "acc_can_write a = can_write (acc_caps a)"
definition acc_can_share_write :: "access \<Rightarrow> bool" where
  "acc_can_share_write a = can_share_write (acc_caps a)"
definition can_delete :: "access \<Rightarrow> bool" where
  "can_delete a = is_owner a"
definition can_transfer_ownership :: "access \<Rightarrow> bool" where
  "can_transfer_ownership a = is_owner a"

subsection \<open>Permission schemes\<close>

datatype permission_scheme = Strict | EjectionAllowed

definition scheme_from_name :: "string \<Rightarrow> string + permission_scheme" where
  "scheme_from_name name =
     (if name = ''strict'' then Inr Strict
      else if name = ''ejection_allowed'' then Inr EjectionAllowed
      else Inl (''unrecognized PERMISSION_SCHEME: '' @ name))"

definition notebook_inheritance :: "permission_scheme \<Rightarrow> i32" where
  "notebook_inheritance s = (READ OR WRITE)"

definition foreign_note_ejection :: "permission_scheme \<Rightarrow> bool" where
  "foreign_note_ejection s = (case s of Strict \<Rightarrow> False | EjectionAllowed \<Rightarrow> True)"

definition move_out_guard :: "permission_scheme \<Rightarrow> bool" where
  "move_out_guard s = True"

subsection \<open>The set of capabilities a bitset stands for\<close>

datatype cap = Read | Write | ShareRead | ShareWrite | Manage

fun cap_bit :: "cap \<Rightarrow> nat" where
  "cap_bit Read = 0"
| "cap_bit Write = 1"
| "cap_bit ShareRead = 2"
| "cap_bit ShareWrite = 3"
| "cap_bit Manage = 4"

definition cap_set :: "i32 \<Rightarrow> cap set" where
  "cap_set b = {c. bit b (cap_bit c)}"

fun implied :: "cap \<Rightarrow> cap set" where
  "implied Read = {Read}"
| "implied Write = {Write, Read}"
| "implied ShareRead = {ShareRead, Read}"
| "implied ShareWrite = {ShareWrite, ShareRead, Write, Read}"
| "implied Manage = {Manage, ShareWrite, ShareRead, Write, Read}"

definition cap_closure :: "cap set \<Rightarrow> cap set" where
  "cap_closure S = (\<Union>c\<in>S. implied c)"

lemmas cap_consts = READ_def WRITE_def SHARE_READ_def SHARE_WRITE_def MANAGE_def

lemma CAP_ALL_31: "CAP_ALL = 31"
  by (simp add: CAP_ALL_def cap_consts)

lemma and_bit_nonzero:
  fixes b :: i32
  shows "b AND 2 \<noteq> 0 \<longleftrightarrow> bit b 1" "b AND 4 \<noteq> 0 \<longleftrightarrow> bit b 2"
    "b AND 8 \<noteq> 0 \<longleftrightarrow> bit b 3" "b AND 16 \<noteq> 0 \<longleftrightarrow> bit b 4" "b AND 1 \<noteq> 0 \<longleftrightarrow> bit b 0"
  using bit_iff_and_push_bit_not_eq_0 [of b 1] bit_iff_and_push_bit_not_eq_0 [of b 2]
    bit_iff_and_push_bit_not_eq_0 [of b 3] bit_iff_and_push_bit_not_eq_0 [of b 4]
    bit_iff_and_push_bit_not_eq_0 [of b 0]
  by (simp_all add: push_bit_eq_mult)

lemma and_6_nonzero:
  fixes b :: i32
  shows "b AND 6 \<noteq> 0 \<longleftrightarrow> bit b 1 \<or> bit b 2"
proof -
  have "b AND 6 = (b AND 2) OR (b AND 4)"
    by (simp flip: bit.conj_disj_distrib)
  then show ?thesis
    by (metis and_bit_nonzero(1,2) or_eq_0_iff)
qed

lemma bit_31: "bit (31 :: i32) n \<longleftrightarrow> n < 5"
  using bit_mask_iff [where 'a = "32 word", of 5 n] by (auto simp: mask_numeral)

lemma bit_6: "bit (6 :: i32) n \<longleftrightarrow> n = 1 \<or> n = 2"
proof -
  have "(6 :: i32) = 2 ^ 1 OR 2 ^ 2" by simp
  then show ?thesis by (auto simp only: bit_or_iff bit_exp_iff) auto
qed

lemma bits_from_bits_iff:
  "bit (bits (from_bits b)) n \<longleftrightarrow>
     n < 5 \<and> (bit b n \<or> bit b 4 \<or>
       (n \<le> 2 \<and> bit b 3) \<or> (n = 0 \<and> (bit b 1 \<or> bit b 2)))"
proof -
  have n2: "n \<le> 2 \<longleftrightarrow> n = 0 \<or> n = 1 \<or> n = 2" by auto
  show ?thesis
    unfolding from_bits_def normalized_def bits.simps Let_def CAP_ALL_31 cap_consts
    by (auto simp: and_bit_nonzero and_6_nonzero bit_and_iff bit_or_iff bit_31 bit_6 bit_1_iff n2
      simp del: bit_numeral_word_iff One_nat_def)
qed

text \<open>A capability word never has a bit above \<open>MANAGE\<close>; such words are determined by their set.\<close>

definition caps_ok :: "i32 \<Rightarrow> bool" where
  "caps_ok b \<longleftrightarrow> b AND CAP_ALL = b"

lemma i32_eq_iff: "a = b \<longleftrightarrow> (\<forall>n. bit a n = bit b n)" for a b :: i32
  by (auto intro: bit_word_eqI)

lemma caps_ok_iff: "caps_ok b \<longleftrightarrow> (\<forall>n. bit b n \<longrightarrow> n < 5)"
  unfolding caps_ok_def CAP_ALL_31 i32_eq_iff
  by (auto simp: bit_and_iff bit_31 simp del: bit_numeral_word_iff)

lemma caps_ok_simps [simp]:
  "caps_ok (bits (from_bits b))" "caps_ok 0" "caps_ok CAP_ALL"
  "caps_ok a \<Longrightarrow> caps_ok b \<Longrightarrow> caps_ok (a OR b)"
  "caps_ok a \<Longrightarrow> caps_ok (a AND b)" "caps_ok b \<Longrightarrow> caps_ok (a AND b)"
  by (auto simp: caps_ok_iff bits_from_bits_iff bit_or_iff bit_and_iff CAP_ALL_31 bit_31
      simp del: bit_numeral_word_iff)

lemma lt5_cap: "n < 5 \<longleftrightarrow> (\<exists>c. n = cap_bit c)"
proof
  assume "n < 5"
  then have "n \<in> {0, 1, 2, 3, 4}" by auto
  then show "\<exists>c. n = cap_bit c"
    using cap_bit.simps [symmetric] by blast
next
  assume "\<exists>c. n = cap_bit c"
  then obtain c where "n = cap_bit c" ..
  then show "n < 5" by (cases c) simp_all
qed

lemma cap_set_inject: "caps_ok a \<Longrightarrow> caps_ok b \<Longrightarrow> cap_set a = cap_set b \<longleftrightarrow> a = b"
  unfolding i32_eq_iff caps_ok_iff lt5_cap by (auto simp: cap_set_def set_eq_iff)

lemma cap_set_simps [simp]:
  "cap_set 0 = {}"
  "cap_set (a OR b) = cap_set a \<union> cap_set b"
  "cap_set (a AND b) = cap_set a \<inter> cap_set b"
  by (auto simp: cap_set_def bit_or_iff bit_and_iff)

lemma cap_set_CAP_ALL [simp]: "cap_set CAP_ALL = UNIV"
  by (auto simp: cap_set_def CAP_ALL_31 bit_31 lt5_cap simp del: bit_numeral_word_iff)

lemma cap_set_READ_WRITE [simp]: "cap_set (READ OR WRITE) = {Read, Write}"
proof -
  have "bit (3 :: i32) (cap_bit c) \<longleftrightarrow> c = Read \<or> c = Write" for c
    by (cases c) simp_all
  then show ?thesis by (auto simp: cap_set_def cap_consts simp del: bit_numeral_word_iff)
qed

lemma mem_cap_closure:
  "Read \<in> cap_closure S \<longleftrightarrow>
     Read \<in> S \<or> Write \<in> S \<or> ShareRead \<in> S \<or> ShareWrite \<in> S \<or> Manage \<in> S"
  "Write \<in> cap_closure S \<longleftrightarrow> Write \<in> S \<or> ShareWrite \<in> S \<or> Manage \<in> S"
  "ShareRead \<in> cap_closure S \<longleftrightarrow> ShareRead \<in> S \<or> ShareWrite \<in> S \<or> Manage \<in> S"
  "ShareWrite \<in> cap_closure S \<longleftrightarrow> ShareWrite \<in> S \<or> Manage \<in> S"
  "Manage \<in> cap_closure S \<longleftrightarrow> Manage \<in> S"
proof -
  have r: "Read \<in> implied c \<longleftrightarrow> c \<in> {Read, Write, ShareRead, ShareWrite, Manage}" for c
    by (cases c) simp_all
  have w: "Write \<in> implied c \<longleftrightarrow> c \<in> {Write, ShareWrite, Manage}" for c by (cases c) simp_all
  have s: "ShareRead \<in> implied c \<longleftrightarrow> c \<in> {ShareRead, ShareWrite, Manage}" for c by (cases c) simp_all
  have t: "ShareWrite \<in> implied c \<longleftrightarrow> c \<in> {ShareWrite, Manage}" for c by (cases c) simp_all
  have m: "Manage \<in> implied c \<longleftrightarrow> c \<in> {Manage}" for c by (cases c) simp_all
  show "Read \<in> cap_closure S \<longleftrightarrow>
     Read \<in> S \<or> Write \<in> S \<or> ShareRead \<in> S \<or> ShareWrite \<in> S \<or> Manage \<in> S"
    by (auto simp: cap_closure_def r)
  show "Write \<in> cap_closure S \<longleftrightarrow> Write \<in> S \<or> ShareWrite \<in> S \<or> Manage \<in> S"
    by (auto simp: cap_closure_def w)
  show "ShareRead \<in> cap_closure S \<longleftrightarrow> ShareRead \<in> S \<or> ShareWrite \<in> S \<or> Manage \<in> S"
    by (auto simp: cap_closure_def s)
  show "ShareWrite \<in> cap_closure S \<longleftrightarrow> ShareWrite \<in> S \<or> Manage \<in> S"
    by (auto simp: cap_closure_def t)
  show "Manage \<in> cap_closure S \<longleftrightarrow> Manage \<in> S"
    by (auto simp: cap_closure_def m)
qed

lemma cap_set_from_bits [simp]: "cap_set (bits (from_bits b)) = cap_closure (cap_set b)"
proof (rule set_eqI)
  fix c
  show "c \<in> cap_set (bits (from_bits b)) \<longleftrightarrow> c \<in> cap_closure (cap_set b)"
    by (cases c) (auto simp: mem_cap_closure cap_set_def bits_from_bits_iff)
qed

lemma cap_closure_idem [simp]: "cap_closure (cap_closure S) = cap_closure S"
proof (rule set_eqI)
  fix c
  show "c \<in> cap_closure (cap_closure S) \<longleftrightarrow> c \<in> cap_closure S"
    by (cases c) (auto simp: mem_cap_closure)
qed

lemma cap_closure_mono: "S \<subseteq> T \<Longrightarrow> cap_closure S \<subseteq> cap_closure T"
  by (auto simp: cap_closure_def)

lemma cap_closure_extensive: "S \<subseteq> cap_closure S"
proof
  fix c assume "c \<in> S"
  then show "c \<in> cap_closure S" by (cases c) (auto simp: mem_cap_closure)
qed

lemma cap_closure_Un [simp]: "cap_closure (S \<union> T) = cap_closure S \<union> cap_closure T"
  by (auto simp: cap_closure_def)

lemma cap_closure_empty [simp]: "cap_closure {} = {}" "cap_closure UNIV = UNIV"
  using cap_closure_extensive by (auto simp: cap_closure_def)

lemma cap_closure_eq_empty [simp]: "cap_closure S = {} \<longleftrightarrow> S = {}"
  using cap_closure_extensive [of S] by auto

lemma contains_single: "b AND 2 ^ n = (2 ^ n :: i32) \<longleftrightarrow> n < 32 \<longrightarrow> bit b n"
  unfolding i32_eq_iff by (auto simp: bit_and_iff bit_exp_iff)

lemma can_iff [simp]:
  "can_read c \<longleftrightarrow> Read \<in> cap_set (bits c)"
  "can_write c \<longleftrightarrow> Write \<in> cap_set (bits c)"
  "can_share_read c \<longleftrightarrow> ShareRead \<in> cap_set (bits c)"
  "can_share_write c \<longleftrightarrow> ShareWrite \<in> cap_set (bits c)"
  "can_manage c \<longleftrightarrow> Manage \<in> cap_set (bits c)"
  using contains_single [of "bits c" 0] contains_single [of "bits c" 1]
    contains_single [of "bits c" 2] contains_single [of "bits c" 3] contains_single [of "bits c" 4]
  by (simp_all add: can_read_def can_write_def can_share_read_def can_share_write_def
      can_manage_def contains_bit_def cap_consts cap_set_def)

lemma request_subset_iff:
  "caps_ok a \<Longrightarrow> a AND b = a \<longleftrightarrow> cap_set a \<subseteq> cap_set b"
  by (subst cap_set_inject [symmetric]) (auto simp: caps_ok_iff bit_and_iff)

lemma bits_zero_iff: "caps_ok a \<Longrightarrow> a = 0 \<longleftrightarrow> cap_set a = {}"
  using cap_set_inject [of a 0] by simp

lemma access_simps [simp]:
  "acc_caps access_owner = all_caps" "is_owner access_owner"
  "acc_caps (access_granted c) = c" "\<not> is_owner (access_granted c)"
  by (simp_all add: access_owner_def access_granted_def)

lemma all_caps_bits [simp]: "bits all_caps = CAP_ALL" "bits empty_caps = 0"
  by (simp_all add: all_caps_def empty_caps_def)

lemmas acc_can_defs = acc_can_read_def acc_can_write_def acc_can_share_write_def can_delete_def
  can_transfer_ownership_def

end
