(* ===== verification/Server_Config.thy ===== *)
theory Server_Config
  imports Text_Ops Capabilities
begin

text \<open>
  \<open>config.rs\<close>: the configuration read from the environment. A variable is its value or
  \<open>None\<close> (unset, or not Unicode). A panic at start-up is the left of the sum. Numbers are
  parsed as Rust's \<open>FromStr\<close> does: an optional sign, at least one digit, no overflow of the
  target width.
\<close>

record config =
  port :: nat
  database_url :: string
  jwt_secret :: string
  token_ttl_days :: int
  retention_days :: nat
  lines_gc_days :: nat
  resource_purge_days :: nat
  db_max_connections :: nat
  db_acquire_timeout_secs :: nat
  db_idle_timeout_secs :: nat
  db_max_lifetime_secs :: nat
  rate_limit_per_min :: nat
  shutdown_grace_secs :: nat
  log_json :: bool
  max_upload_bytes :: nat
  max_note_body_bytes :: nat
  max_user_storage_bytes :: int
  max_notes_per_user :: int
  registration_enabled :: bool
  at_rest_key :: "string option"
  mail_webhook_url :: "string option"
  mail_webhook_token :: "string option"
  email_token_ttl_secs :: nat
  email_verification_required :: bool
  login_max_failures :: int
  login_lockout_secs :: nat
  history_since_access :: bool
  cfg_permission_scheme :: permission_scheme

type_synonym env = "string \<Rightarrow> string option"

subsection \<open>Parsing\<close>

definition digit_of :: "char \<Rightarrow> nat option" where
  "digit_of c = (let n = (of_char c :: nat) in if 48 \<le> n \<and> n \<le> 57 then Some (n - 48) else None)"

fun parse_digits :: "nat \<Rightarrow> string \<Rightarrow> nat option" where
  "parse_digits acc [] = Some acc"
| "parse_digits acc (c # cs) =
     (case digit_of c of None \<Rightarrow> None | Some n \<Rightarrow> parse_digits (10 * acc + n) cs)"

definition parse_nat :: "string \<Rightarrow> nat option" where
  "parse_nat s = (if s = [] then None else parse_digits 0 s)"

definition parse_uint :: "nat \<Rightarrow> string \<Rightarrow> nat option" where
  "parse_uint w s =
     (case parse_nat (case s of CHR ''+'' # r \<Rightarrow> r | _ \<Rightarrow> s) of
        Some n \<Rightarrow> if n < 2 ^ w then Some n else None
      | None \<Rightarrow> None)"

definition parse_sint :: "nat \<Rightarrow> string \<Rightarrow> int option" where
  "parse_sint w s =
     (case s of
        CHR ''-'' # r \<Rightarrow>
          (case parse_nat r of
             Some n \<Rightarrow> if n \<le> 2 ^ (w - 1) then Some (- int n) else None
           | None \<Rightarrow> None)
      | _ \<Rightarrow>
          (case parse_nat (case s of CHR ''+'' # r \<Rightarrow> r | _ \<Rightarrow> s) of
             Some n \<Rightarrow> if n < 2 ^ (w - 1) then Some (int n) else None
           | None \<Rightarrow> None))"

definition parse_bool :: "string \<Rightarrow> bool option" where
  "parse_bool s = (if s = ''true'' then Some True else if s = ''false'' then Some False else None)"

definition env_parse :: "env \<Rightarrow> (string \<Rightarrow> 'a option) \<Rightarrow> string \<Rightarrow> 'a \<Rightarrow> 'a" where
  "env_parse env parse key dflt =
     (case env key of
        None \<Rightarrow> dflt
      | Some s \<Rightarrow> (case parse s of None \<Rightarrow> dflt | Some v \<Rightarrow> v))"

definition ascii_lower :: "char \<Rightarrow> char" where
  "ascii_lower c = (let n = (of_char c :: nat) in if 65 \<le> n \<and> n \<le> 90 then char_of (n + 32) else c)"

definition eq_ignore_ascii_case :: "string \<Rightarrow> string \<Rightarrow> bool" where
  "eq_ignore_ascii_case a b \<longleftrightarrow> map ascii_lower a = map ascii_lower b"

subsection \<open>The token secret\<close>

definition DEV_JWT_SECRET :: string where
  "DEV_JWT_SECRET = ''dev-secret-change-in-production''"

definition MIN_JWT_SECRET_LEN :: nat where
  "MIN_JWT_SECRET_LEN = 16"

definition jwt_panic :: string where
  "jwt_panic = ''JWT_SECRET must be set to a strong random secret of at least 16 characters (not empty'' @
     '' and not the dev placeholder). Without it, device tokens can be forged. Set JWT_SECRET, or set'' @
     '' KEEPLIN_DEV_INSECURE=1 for local development only.''"

definition dev_insecure :: "env \<Rightarrow> bool" where
  "dev_insecure env =
     (case env ''KEEPLIN_DEV_INSECURE'' of
        Some v \<Rightarrow> v = ''1'' \<or> eq_ignore_ascii_case v ''true''
      | None \<Rightarrow> False)"

definition is_weak_secret :: "string \<Rightarrow> bool" where
  "is_weak_secret s \<longleftrightarrow> trim s = [] \<or> s = DEV_JWT_SECRET \<or> length s < MIN_JWT_SECRET_LEN"

definition resolve_jwt_secret :: "env \<Rightarrow> string + string" where
  "resolve_jwt_secret env =
     (let raw = env ''JWT_SECRET''
      in case raw of
           Some s \<Rightarrow>
             if \<not> is_weak_secret s then Inr s
             else if dev_insecure env then Inr (if trim s \<noteq> [] then s else DEV_JWT_SECRET)
             else Inl jwt_panic
         | None \<Rightarrow>
             if dev_insecure env then Inr DEV_JWT_SECRET
             else Inl jwt_panic)"

definition non_blank :: "env \<Rightarrow> string \<Rightarrow> string option" where
  "non_blank env key =
     (case env key of Some v \<Rightarrow> if trim v \<noteq> [] then Some v else None | None \<Rightarrow> None)"

definition from_env :: "env \<Rightarrow> string + config" where
  "from_env env =
     res_then (ok_or (env ''DATABASE_URL'') ''DATABASE_URL must be set'') (\<lambda>url.
     res_then (resolve_jwt_secret env) (\<lambda>secret.
     res_then (scheme_from_name (case env ''PERMISSION_SCHEME'' of None \<Rightarrow> ''strict'' | Some v \<Rightarrow> v)) (\<lambda>scheme.
       Inr \<lparr>port = env_parse env (parse_uint 16) ''PORT'' 3000,
            database_url = url,
            jwt_secret = secret,
            token_ttl_days = env_parse env (parse_sint 64) ''TOKEN_TTL_DAYS'' 365,
            retention_days = env_parse env (parse_uint 64) ''CHANGES_RETENTION_DAYS'' 0,
            lines_gc_days = env_parse env (parse_uint 64) ''LINES_GC_DAYS'' 30,
            resource_purge_days = env_parse env (parse_uint 64) ''RESOURCE_PURGE_DAYS'' 0,
            db_max_connections = env_parse env (parse_uint 32) ''DB_MAX_CONNECTIONS'' 10,
            db_acquire_timeout_secs = env_parse env (parse_uint 64) ''DB_ACQUIRE_TIMEOUT_SECS'' 10,
            db_idle_timeout_secs = env_parse env (parse_uint 64) ''DB_IDLE_TIMEOUT_SECS'' 600,
            db_max_lifetime_secs = env_parse env (parse_uint 64) ''DB_MAX_LIFETIME_SECS'' 1800,
            rate_limit_per_min = env_parse env (parse_uint 32) ''RATE_LIMIT_PER_MIN'' 0,
            shutdown_grace_secs = env_parse env (parse_uint 64) ''SHUTDOWN_GRACE_SECS'' 20,
            log_json = env_parse env parse_bool ''LOG_JSON'' False,
            max_upload_bytes = env_parse env (parse_uint 64) ''MAX_UPLOAD_BYTES'' (100 * 1024 * 1024),
            max_note_body_bytes = env_parse env (parse_uint 64) ''MAX_NOTE_BODY_BYTES'' (25 * 1024 * 1024),
            max_user_storage_bytes = env_parse env (parse_sint 64) ''MAX_USER_STORAGE_BYTES'' 0,
            max_notes_per_user = env_parse env (parse_sint 64) ''MAX_NOTES_PER_USER'' 0,
            registration_enabled = env_parse env parse_bool ''REGISTRATION_ENABLED'' True,
            at_rest_key = non_blank env ''AT_REST_KEY'',
            mail_webhook_url = non_blank env ''MAIL_WEBHOOK_URL'',
            mail_webhook_token = non_blank env ''MAIL_WEBHOOK_TOKEN'',
            email_token_ttl_secs = env_parse env (parse_uint 64) ''EMAIL_TOKEN_TTL_SECS'' 3600,
            email_verification_required = env_parse env parse_bool ''EMAIL_VERIFICATION_REQUIRED'' False,
            login_max_failures = env_parse env (parse_sint 32) ''LOGIN_MAX_FAILURES'' 10,
            login_lockout_secs = env_parse env (parse_uint 64) ''LOGIN_LOCKOUT_SECS'' 300,
            history_since_access =
              (case env ''HISTORY_VISIBILITY'' of Some v \<Rightarrow> eq_ignore_ascii_case v ''access'' | None \<Rightarrow> False),
            cfg_permission_scheme = scheme\<rparr>)))"

lemma resolve_jwt_secret_Inr:
  assumes "resolve_jwt_secret env = Inr s"
  shows "\<not> is_weak_secret s \<or> (dev_insecure env \<and> trim s \<noteq> [] \<or> s = DEV_JWT_SECRET \<and> dev_insecure env)"
  using assms by (auto simp: resolve_jwt_secret_def Let_def split: option.splits if_splits)

lemma parse_uint_bound: "parse_uint w s = Some n \<Longrightarrow> n < 2 ^ w"
  by (auto simp: parse_uint_def split: option.splits if_splits)

lemma env_parse_bound:
  assumes "\<And>s v. parse s = Some v \<Longrightarrow> P v" and "P dflt"
  shows "P (env_parse env parse key dflt)"
  using assms by (auto simp: env_parse_def split: option.splits)

subsection \<open>Properties\<close>

text \<open>
  C39: the server never starts with a forgeable token secret outside the explicit insecure
  development mode: if the configuration loads and \<open>KEEPLIN_DEV_INSECURE\<close> is not on, the
  secret is at least sixteen bytes long, not blank and not the published placeholder.
\<close>

theorem from_env_secret_strong:
  assumes "from_env env = Inr c" and "\<not> dev_insecure env"
  shows "16 \<le> length (jwt_secret c) \<and> trim (jwt_secret c) \<noteq> [] \<and> jwt_secret c \<noteq> DEV_JWT_SECRET"
  using assms resolve_jwt_secret_Inr [of env "jwt_secret c"]
  by (auto simp: from_env_def res_simps is_weak_secret_def MIN_JWT_SECRET_LEN_def not_less)

definition demo_env :: env where
  "demo_env = [''DATABASE_URL'' \<mapsto> ''db'', ''JWT_SECRET'' \<mapsto> ''0123456789abcdefX'', ''PORT'' \<mapsto> ''70000'']"

lemma demo_secret: "\<not> is_weak_secret ''0123456789abcdefX''"
  by (simp add: is_weak_secret_def DEV_JWT_SECRET_def MIN_JWT_SECRET_LEN_def trim_graph is_graph_def)

lemma demo_env_loads: "\<exists>c. from_env demo_env = Inr c \<and> jwt_secret c = ''0123456789abcdefX'' \<and> port c = 3000"
proof -
  have "resolve_jwt_secret demo_env = Inr ''0123456789abcdefX''"
    by (simp add: resolve_jwt_secret_def demo_env_def demo_secret)
  moreover have "env_parse demo_env (parse_uint 16) ''PORT'' 3000 = 3000"
    by (simp add: env_parse_def demo_env_def parse_uint_def parse_nat_def digit_of_def Let_def)
  moreover have "demo_env ''DATABASE_URL'' = Some ''db''" "demo_env ''PERMISSION_SCHEME'' = None"
    by (simp_all add: demo_env_def)
  ultimately show ?thesis
    by (simp add: from_env_def scheme_from_name_def)
qed

theorem from_env_secret_strong_witness:
  "\<exists>c. from_env demo_env = Inr c \<and> \<not> dev_insecure demo_env \<and> 16 \<le> length (jwt_secret c)"
proof -
  from demo_env_loads obtain c where c: "from_env demo_env = Inr c" by blast
  have "\<not> dev_insecure demo_env" by (simp add: dev_insecure_def demo_env_def)
  with from_env_secret_strong [OF c this] c show ?thesis by blast
qed

end
