(* ===== verification/Crypto.thy ===== *)
theory Crypto
  imports Text_Ops App_Error
begin

text \<open>
  \<open>crypto.rs\<close>: at-rest encryption of note titles and line contents. The AEAD cipher, the
  base64 codec and the UTF-8 check are third-party or standard code; they are the fields of
  \<open>crypto_lib\<close>, and \<open>crypto_lib_ok\<close> collects what their documentation promises. The random
  nonce a call draws is an argument.
\<close>

record crypto_lib =
  b64_encode :: "string \<Rightarrow> string"
  b64_decode :: "string \<Rightarrow> string option"
  aead_encrypt :: "string \<Rightarrow> string \<Rightarrow> string \<Rightarrow> string option"
  aead_decrypt :: "string \<Rightarrow> string \<Rightarrow> string \<Rightarrow> string option"
  utf8_ok :: "string \<Rightarrow> bool"

datatype cipher = Cipher (cipher_key: "string option")

definition ENC_PREFIX :: string where
  "ENC_PREFIX = ''enc:v1:''"

text \<open>The decimal rendering of a number that Rust's \<open>{}\<close> gives.\<close>

fun show_nat :: "nat \<Rightarrow> string" where
  "show_nat n = (if n < 10 then [char_of (48 + n)] else show_nat (n div 10) @ [char_of (48 + n mod 10)])"

declare show_nat.simps [simp del]

definition from_key :: "crypto_lib \<Rightarrow> string option \<Rightarrow> string + cipher" where
  "from_key lib key =
     (case map_option trim key of
        None \<Rightarrow> Inr (Cipher None)
      | Some k \<Rightarrow>
          if k = [] then Inr (Cipher None)
          else case b64_decode lib k of
            None \<Rightarrow> Inl ''AT_REST_KEY must be valid base64''
          | Some bytes \<Rightarrow>
              if length bytes \<noteq> 32
              then Inl (''AT_REST_KEY must decode to 32 bytes (got '' @ show_nat (length bytes) @ '')'')
              else Inr (Cipher (Some bytes)))"

definition cipher_enabled :: "cipher \<Rightarrow> bool" where
  "cipher_enabled c \<longleftrightarrow> cipher_key c \<noteq> None"

definition encrypt :: "crypto_lib \<Rightarrow> cipher \<Rightarrow> string \<Rightarrow> string \<Rightarrow> string result" where
  "encrypt lib c nonce plaintext =
     (case cipher_key c of
        None \<Rightarrow> Inr plaintext
      | Some key \<Rightarrow>
          (case aead_encrypt lib key nonce plaintext of
             None \<Rightarrow> Inl (Internal ''at-rest encryption failed'')
           | Some ct \<Rightarrow> Inr (ENC_PREFIX @ b64_encode lib (nonce @ ct))))"

definition decrypt :: "crypto_lib \<Rightarrow> cipher \<Rightarrow> string \<Rightarrow> string result" where
  "decrypt lib c stored =
     (case strip_prefix ENC_PREFIX stored of
        None \<Rightarrow> Inr stored
      | Some rest \<Rightarrow>
          res_then (ok_or (cipher_key c) (Internal ''encrypted value but AT_REST_KEY is unset''))
            (\<lambda>key. res_then (ok_or (b64_decode lib rest)
                (Internal ''at-rest ciphertext is not valid base64''))
              (\<lambda>blob. if length blob < 12 then Inl (Internal ''at-rest ciphertext too short'')
                else res_then (ok_or (aead_decrypt lib key (take 12 blob) (drop 12 blob))
                    (Internal ''at-rest decryption failed (wrong key?)''))
                  (\<lambda>pt. if utf8_ok lib pt then Inr pt
                    else Inl (Internal ''at-rest plaintext not utf-8'')))))"

definition crypto_lib_ok :: "crypto_lib \<Rightarrow> bool" where
  "crypto_lib_ok lib \<longleftrightarrow>
     (\<forall>s. b64_decode lib (b64_encode lib s) = Some s) \<and>
     (\<forall>k n p ct. aead_encrypt lib k n p = Some ct \<longrightarrow> aead_decrypt lib k n ct = Some p)"

lemma encrypt_disabled [simp]: "encrypt lib (Cipher None) nonce p = Inr p"
  by (simp add: encrypt_def)

lemma encrypt_enabled_tagged:
  "encrypt lib (Cipher (Some k)) nonce p = Inr s \<Longrightarrow> is_prefix ENC_PREFIX s"
  by (auto simp: encrypt_def split: option.splits)

lemma decrypt_untagged: "\<not> is_prefix ENC_PREFIX s \<Longrightarrow> decrypt lib c s = Inr s"
  by (simp add: decrypt_def strip_prefix_def)

lemma decrypt_disabled_tagged:
  "is_prefix ENC_PREFIX s \<Longrightarrow>
   decrypt lib (Cipher None) s = Inl (Internal ''encrypted value but AT_REST_KEY is unset'')"
  by (simp add: decrypt_def strip_prefix_def)

lemma decrypt_encrypt_enabled:
  assumes "crypto_lib_ok lib" and "length nonce = 12" and "utf8_ok lib p"
    and "encrypt lib (Cipher (Some k)) nonce p = Inr s"
  shows "decrypt lib (Cipher (Some k)) s = Inr p"
  using assms by (auto simp: encrypt_def decrypt_def crypto_lib_ok_def split: option.splits)

text \<open>
  Reading back a stored value gives the value that was written: with a key always, without
  one exactly for the values that do not look like a ciphertext.
\<close>

lemma decrypt_encrypt:
  assumes "crypto_lib_ok lib" and "length nonce = 12" and "utf8_ok lib p"
    and "cipher_enabled c \<or> \<not> is_prefix ENC_PREFIX p" and "encrypt lib c nonce p = Inr s"
  shows "decrypt lib c s = Inr p"
proof (cases "cipher_key c")
  case None
  with assms have "\<not> is_prefix ENC_PREFIX p" and "s = p"
    by (auto simp: cipher_enabled_def encrypt_def)
  then show ?thesis by (simp add: decrypt_untagged)
next
  case (Some k)
  then have "c = Cipher (Some k)" by (cases c) simp
  with assms show ?thesis by (simp add: decrypt_encrypt_enabled)
qed

subsection \<open>A concrete library\<close>

text \<open>
  A transparent codec that satisfies \<open>crypto_lib_ok\<close>: it shows that the documented laws
  can hold together, and lets closed instances be evaluated.
\<close>

definition plain_lib :: crypto_lib where
  "plain_lib = \<lparr>b64_encode = (\<lambda>s. s), b64_decode = (\<lambda>s. Some s),
     aead_encrypt = (\<lambda>k n p. Some (p @ k)),
     aead_decrypt = (\<lambda>k n c. if drop (length c - length k) c = k
        then Some (take (length c - length k) c) else None),
     utf8_ok = (\<lambda>_. True)\<rparr>"

lemma plain_lib_ok: "crypto_lib_ok plain_lib"
  by (auto simp: crypto_lib_ok_def plain_lib_def)

end
