(* ===== verification/Database.thy ===== *)
theory Database
  imports Crypto
begin

text \<open>
  The rows of the PostgreSQL schema as \<open>store.rs\<close> reads and writes them, and the database
  as one record of tables. Each table is keyed by its primary key (\<open>migrations/*.sql\<close>).
  A foreign-key or uniqueness violation is the SQLSTATE the server reports. The handle
  \<open>store\<close> keeps the at-rest cipher; the connection pool has no counterpart, an operation
  takes the database it runs on and returns the new one.
\<close>

subsection \<open>JSON values\<close>

datatype json =
    JNull
  | JBool bool
  | JNum int
  | JStr string
  | JArr "json list"
  | JObj "(string \<times> json) list"

text \<open>\<open>value[key]\<close>: \<open>Null\<close> where there is no such member.\<close>

definition json_at :: "json \<Rightarrow> string \<Rightarrow> json" where
  "json_at v k = (case v of JObj ms \<Rightarrow> (case map_of ms k of None \<Rightarrow> JNull | Some x \<Rightarrow> x) | _ \<Rightarrow> JNull)"

definition json_get :: "json \<Rightarrow> string \<Rightarrow> json option" where
  "json_get v k = (case v of JObj ms \<Rightarrow> map_of ms k | _ \<Rightarrow> None)"

fun json_str :: "json \<Rightarrow> string option" where
  "json_str (JStr s) = Some s"
| "json_str _ = None"

fun json_arr :: "json \<Rightarrow> json list option" where
  "json_arr (JArr xs) = Some xs"
| "json_arr _ = None"

subsection \<open>Rows\<close>

record user =
  u_id :: uuid
  u_email :: string
  u_password_hash :: string
  u_display_name :: string
  u_created_at :: timestamp
  u_email_verified_at :: "timestamp option"

record user_device =
  d_id :: uuid
  d_user_id :: uuid
  d_device_name :: string
  d_created_at :: timestamp
  d_last_seen_at :: "timestamp option"

record note_row =
  n_id :: uuid
  n_title :: string
  n_owner_id :: uuid
  n_notebook_id :: "uuid option"
  n_is_todo :: bool
  n_todo_due :: "timestamp option"
  n_todo_completed :: "timestamp option"
  n_created_at :: timestamp
  n_updated_at :: timestamp
  n_deleted_at :: "timestamp option"

record note_patch =
  p_title :: "string option"
  p_notebook_id :: "uuid option option"
  p_is_todo :: "bool option"
  p_todo_due :: "timestamp option option"
  p_todo_completed :: "timestamp option option"

record note_share =
  s_note_id :: uuid
  s_user_id :: uuid
  s_capabilities :: i32
  s_created_at :: timestamp

record notebook_share =
  nbs_notebook_id :: uuid
  nbs_user_id :: uuid
  nbs_capabilities :: i32
  nbs_created_at :: timestamp

record line =
  l_id :: uuid
  l_note_id :: uuid
  l_content :: string
  l_created_at :: timestamp
  l_updated_at :: timestamp
  l_deleted_at :: "timestamp option"
  l_vv :: version_vector
  l_last_writer :: string

record note_order =
  o_note_id :: uuid
  o_order :: "uuid list"
  o_updated_at :: timestamp
  o_vv :: version_vector
  o_last_writer :: string

record notebook =
  nb_id :: uuid
  nb_user_id :: uuid
  nb_title :: string
  nb_alias :: "string option"
  nb_created_at :: timestamp
  nb_updated_at :: timestamp
  nb_deleted_at :: "timestamp option"
  nb_vv :: version_vector
  nb_last_writer :: string

record tag =
  t_id :: uuid
  t_user_id :: uuid
  t_title :: string
  t_created_at :: timestamp
  t_updated_at :: timestamp
  t_deleted_at :: "timestamp option"
  t_vv :: version_vector
  t_last_writer :: string
  t_system :: bool

record note_tag =
  nt_updated_at :: timestamp
  nt_deleted_at :: "timestamp option"
  nt_vv :: version_vector
  nt_last_writer :: string

record resource_meta =
  r_id :: uuid
  r_user_id :: uuid
  r_note_id :: uuid
  r_title :: string
  r_mime_type :: string
  r_file_name :: string
  r_size :: int
  r_created_at :: timestamp
  r_deleted_at :: "timestamp option"
  r_vv :: version_vector
  r_last_writer :: string
  r_duration_ms :: "int option"
  r_width :: "int option"
  r_height :: "int option"

record change_row =
  c_seq :: nat
  c_user_id :: uuid
  c_origin_device_id :: uuid
  c_batch_id :: uuid
  c_batch_index :: nat
  c_sync_device_id :: string
  c_payload :: json
  c_received_at :: timestamp

datatype job_state = Pending | Retry | DeadLetter

record projection_job =
  j_state :: job_state
  j_attempts :: nat
  j_available_at :: timestamp
  j_leased_by :: "uuid option"
  j_leased_until :: "timestamp option"
  j_last_error :: "string option"
  j_created_at :: timestamp
  j_updated_at :: timestamp

record login_attempt =
  la_failed_count :: int
  la_last_failed_at :: timestamp
  la_locked_until :: "timestamp option"

record email_token =
  et_user_id :: uuid
  et_kind :: string
  et_token_hash :: string
  et_expires_at :: timestamp
  et_used_at :: "timestamp option"

type_synonym job_key = "uuid \<times> uuid \<times> nat"

record db =
  users :: "(uuid, user) table"
  user_devices :: "(uuid, user_device) table"
  notes_tbl :: "(uuid, note_row) table"
  lines :: "(uuid, line) table"
  note_line_order :: "(uuid, note_order) table"
  note_shares :: "(uuid \<times> uuid, note_share) table"
  notebooks :: "(uuid, notebook) table"
  notebook_shares :: "(uuid \<times> uuid, notebook_share) table"
  tags :: "(uuid, tag) table"
  note_tags :: "(uuid \<times> uuid \<times> uuid, note_tag) table"
  resources :: "(uuid, resource_meta) table"
  resource_blobs :: "(uuid, string) table"
  changes :: "(nat, change_row) table"
  changes_next :: nat
  device_cursors :: "(uuid, nat) table"
  projection_jobs :: "(job_key, projection_job) table"
  login_attempts :: "(string, login_attempt) table"
  email_tokens :: "(uuid, email_token) table"

definition empty_db :: db where
  "empty_db = \<lparr>users = [], user_devices = [], notes_tbl = [], lines = [], note_line_order = [],
     note_shares = [], notebooks = [], notebook_shares = [], tags = [], note_tags = [],
     resources = [], resource_blobs = [], changes = [], changes_next = 1, device_cursors = [],
     projection_jobs = [], login_attempts = [], email_tokens = []\<rparr>"

text \<open>SQLSTATE codes of the constraints of the schema.\<close>

abbreviation foreign_key_violation :: app_error where
  "foreign_key_violation \<equiv> Database (DbError ''23503'')"

abbreviation unique_violation :: app_error where
  "unique_violation \<equiv> Database (DbError ''23505'')"

record store =
  st_lib :: crypto_lib
  st_cipher :: cipher

definition store_encrypt :: "store \<Rightarrow> string \<Rightarrow> string \<Rightarrow> string result" where
  "store_encrypt st nonce s = encrypt (st_lib st) (st_cipher st) nonce s"

definition store_decrypt :: "store \<Rightarrow> string \<Rightarrow> string result" where
  "store_decrypt st s = decrypt (st_lib st) (st_cipher st) s"

subsection \<open>The parts of keeplin-core the server calls\<close>

text \<open>
  \<open>keeplin_core::storage::note_log::resolve\<close> and the limits of \<open>keeplin_core::format\<close> are
  defined in another repository; they, and the rendering of a \<open>Uuid\<close> as text, are the
  fields of \<open>core\<close>.
\<close>

datatype winner = Local | Incoming

record core =
  resolve :: "version_vector \<Rightarrow> timestamp \<Rightarrow> string \<Rightarrow> version_vector \<Rightarrow> timestamp \<Rightarrow> string \<Rightarrow> winner"
  max_line_bytes :: nat
  max_lines_per_note :: nat
  max_notes_per_notebook :: nat
  code_line_too_long :: string
  code_too_many_lines :: string
  uuid_str :: "uuid \<Rightarrow> string"

text \<open>
  What the documentation says of \<open>resolve\<close> (\<open>README.md\<close>, Resolution): an operation the local
  vector dominates is ignored, an operation that dominates the local vector wins, and
  concurrent ones are decided by the later \<open>(updated_at, last_writer)\<close>.
\<close>

fun str_less :: "string \<Rightarrow> string \<Rightarrow> bool" where
  "str_less [] [] = False"
| "str_less [] (y # ys) = True"
| "str_less (x # xs) [] = False"
| "str_less (x # xs) (y # ys) =
     ((of_char x :: nat) < of_char y \<or> (x = y \<and> str_less xs ys))"

definition later :: "timestamp \<Rightarrow> string \<Rightarrow> timestamp \<Rightarrow> string \<Rightarrow> bool" where
  "later ts w ts' w' \<longleftrightarrow> ts < ts' \<or> (ts = ts' \<and> str_less w w')"

definition resolver_ok :: "core \<Rightarrow> bool" where
  "resolver_ok co \<longleftrightarrow>
     (\<forall>lv lt lw iv it iw.
        (vv_le iv lv \<and> \<not> vv_le lv iv \<longrightarrow> resolve co lv lt lw iv it iw = Local) \<and>
        (vv_le lv iv \<and> \<not> vv_le iv lv \<longrightarrow> resolve co lv lt lw iv it iw = Incoming) \<and>
        (vv_concurrent lv iv \<longrightarrow>
           resolve co lv lt lw iv it iw = (if later lt lw it iw then Incoming else Local)))"

lemma str_less_irrefl [simp]: "\<not> str_less s s"
  by (induction s) auto

lemma str_less_total: "s \<noteq> t \<Longrightarrow> str_less s t \<or> str_less t s"
proof (induction s t rule: str_less.induct)
  case (4 x xs y ys)
  have "x \<noteq> y \<Longrightarrow> (of_char x :: nat) < of_char y \<or> (of_char y :: nat) < of_char x"
    by (metis of_char_eq_iff linorder_neqE_nat)
  with 4 show ?case by auto
qed auto

lemma str_less_asym: "str_less s t \<Longrightarrow> \<not> str_less t s"
  by (induction s t rule: str_less.induct) auto

lemma str_less_trans: "str_less r s \<Longrightarrow> str_less s t \<Longrightarrow> str_less r t"
proof (induction r s arbitrary: t rule: str_less.induct)
  case (2 y ys)
  then show ?case by (cases t) auto
next
  case (4 x xs y ys)
  then show ?case by (cases t) auto
qed auto

lemma later_trans: "later t1 w1 t2 w2 \<Longrightarrow> later t2 w2 t3 w3 \<Longrightarrow> later t1 w1 t3 w3"
  by (auto simp: later_def dest: str_less_trans)

lemma later_total: "(ts, w) \<noteq> (ts', w') \<Longrightarrow> later ts w ts' w' \<or> later ts' w' ts w"
  by (cases "w = w'") (auto simp: later_def dest: str_less_total)

lemma later_asym: "later ts w ts' w' \<Longrightarrow> \<not> later ts' w' ts w"
  by (auto simp: later_def dest: str_less_asym)

subsection \<open>A reference resolver\<close>

text \<open>
  A resolver that satisfies the documented laws, for closed instances: the limits are the
  documented ones scaled down, and an identifier is rendered in unary.
\<close>

definition ref_resolve ::
    "version_vector \<Rightarrow> timestamp \<Rightarrow> string \<Rightarrow> version_vector \<Rightarrow> timestamp \<Rightarrow> string \<Rightarrow> winner" where
  "ref_resolve lv lt lw iv it iw =
     (if vv_le iv lv then Local
      else if vv_le lv iv then Incoming
      else if later lt lw it iw then Incoming else Local)"

definition ref_core :: core where
  "ref_core = \<lparr>resolve = ref_resolve, max_line_bytes = 8, max_lines_per_note = 2,
     max_notes_per_notebook = 2, code_line_too_long = ''too_long'',
     code_too_many_lines = ''too_many_lines'', uuid_str = (\<lambda>u. replicate u CHR ''u'')\<rparr>"

lemma ref_core_ok: "resolver_ok ref_core"
  by (auto simp: resolver_ok_def ref_core_def ref_resolve_def vv_concurrent_def)

lemma vv_le_upd:
  "vv_le (a(k \<mapsto> n)) b \<longleftrightarrow> n \<le> vv_get b k \<and> (\<forall>j. j \<noteq> k \<longrightarrow> vv_get a j \<le> vv_get b j)"
  by (auto simp: vv_le_def)

lemma vv_le_single: "vv_le [k \<mapsto> n] b \<longleftrightarrow> n \<le> vv_get b k"
  by (simp add: vv_le_upd)

definition plain_store :: store where
  "plain_store = \<lparr>st_lib = plain_lib, st_cipher = Cipher None\<rparr>"

lemma plain_store_simps [simp]:
  "store_encrypt plain_store nonce s = Inr s"
  "\<not> is_prefix ENC_PREFIX s \<Longrightarrow> store_decrypt plain_store s = Inr s"
  by (simp_all add: store_encrypt_def store_decrypt_def plain_store_def decrypt_untagged)

end
