(* ===== verification/Store_Notes.thy ===== *)
theory Store_Notes
  imports Database Capabilities
begin

text \<open>
  \<open>store.rs\<close>, the queries on notes, shares, notebooks' owners, lines and the order of
  lines. Titles and contents are stored through the at-rest cipher, so the table holds the
  stored form and an operation returns the plaintext.
\<close>

subsection \<open>Notes\<close>

definition create_note_on ::
    "store \<Rightarrow> string \<Rightarrow> timestamp \<Rightarrow> uuid \<Rightarrow> uuid option \<Rightarrow> string \<Rightarrow> uuid \<Rightarrow> db \<Rightarrow> (note_row \<times> db) result" where
  "create_note_on st nonce now fresh row_id title owner_id d =
     res_then (store_encrypt st nonce title) (\<lambda>encrypted_title.
       let nid = (case row_id of Some i \<Rightarrow> i | None \<Rightarrow> fresh);
           row = \<lparr>n_id = nid, n_title = encrypted_title, n_owner_id = owner_id,
                  n_notebook_id = None, n_is_todo = False, n_todo_due = None,
                  n_todo_completed = None, n_created_at = now, n_updated_at = now,
                  n_deleted_at = None\<rparr>
       in if tbl_get (notes_tbl d) nid \<noteq> None then Inl Conflict
          else if tbl_get (users d) owner_id = None then Inl foreign_key_violation
          else Inr (row\<lparr>n_title := title\<rparr>, d\<lparr>notes_tbl := tbl_put nid row (notes_tbl d)\<rparr>))"

definition initialize_note_order_on ::
    "core \<Rightarrow> timestamp \<Rightarrow> uuid \<Rightarrow> uuid \<Rightarrow> db \<Rightarrow> db result" where
  "initialize_note_order_on co now note_id owner_id d =
     (if tbl_get (note_line_order d) note_id \<noteq> None then Inl unique_violation
      else if tbl_get (notes_tbl d) note_id = None then Inl foreign_key_violation
      else Inr (d\<lparr>note_line_order := tbl_put note_id
             \<lparr>o_note_id = note_id, o_order = [], o_updated_at = now, o_vv = Map.empty,
              o_last_writer = uuid_str co owner_id\<rparr> (note_line_order d)\<rparr>))"

definition create_note_tx ::
    "core \<Rightarrow> store \<Rightarrow> string \<Rightarrow> timestamp \<Rightarrow> uuid \<Rightarrow> uuid option \<Rightarrow> string \<Rightarrow> uuid \<Rightarrow> db \<Rightarrow> (note_row \<times> db) result" where
  "create_note_tx co st nonce now fresh row_id title owner_id d =
     res_then (create_note_on st nonce now fresh row_id title owner_id d) (\<lambda>(note, d1).
       res_then (initialize_note_order_on co now (n_id note) owner_id d1) (\<lambda>d2.
         Inr (note, d2)))"

definition decrypt_note_title :: "store \<Rightarrow> note_row option \<Rightarrow> note_row option result" where
  "decrypt_note_title st note =
     (case note of
        Some n \<Rightarrow> res_then (store_decrypt st (n_title n)) (\<lambda>t. Inr (Some (n\<lparr>n_title := t\<rparr>)))
      | None \<Rightarrow> Inr None)"

definition live_note :: "db \<Rightarrow> uuid \<Rightarrow> note_row option" where
  "live_note d row_id =
     (case tbl_get (notes_tbl d) row_id of
        Some n \<Rightarrow> if n_deleted_at n = None then Some n else None
      | None \<Rightarrow> None)"

definition get_note_on :: "store \<Rightarrow> uuid \<Rightarrow> db \<Rightarrow> note_row option result" where
  "get_note_on st row_id d = decrypt_note_title st (live_note d row_id)"

definition coalesce :: "'a option \<Rightarrow> 'a \<Rightarrow> 'a" where
  "coalesce x y = (case x of None \<Rightarrow> y | Some z \<Rightarrow> z)"

definition patch_note :: "timestamp \<Rightarrow> string option \<Rightarrow> note_patch \<Rightarrow> note_row \<Rightarrow> note_row" where
  "patch_note now enc_title p n =
     n\<lparr>n_title := coalesce enc_title (n_title n),
       n_notebook_id := coalesce (p_notebook_id p) (n_notebook_id n),
       n_is_todo := coalesce (p_is_todo p) (n_is_todo n),
       n_todo_due := coalesce (p_todo_due p) (n_todo_due n),
       n_todo_completed := coalesce (p_todo_completed p) (n_todo_completed n),
       n_updated_at := now\<rparr>"

definition update_note_meta_on ::
    "store \<Rightarrow> string \<Rightarrow> timestamp \<Rightarrow> uuid \<Rightarrow> note_patch \<Rightarrow> db \<Rightarrow> (note_row option \<times> db) result" where
  "update_note_meta_on st nonce now row_id patch d =
     res_then (case p_title patch of
         None \<Rightarrow> Inr None
       | Some t \<Rightarrow> res_then (store_encrypt st nonce t) (\<lambda>e. Inr (Some e)))
     (\<lambda>enc_title.
       case live_note d row_id of
         None \<Rightarrow> Inr (None, d)
       | Some n \<Rightarrow>
           let row = patch_note now enc_title patch n
           in res_then (decrypt_note_title st (Some row)) (\<lambda>out.
                Inr (out, d\<lparr>notes_tbl := tbl_put row_id row (notes_tbl d)\<rparr>)))"

definition cascade_resources_note_deleted :: "uuid \<Rightarrow> timestamp \<Rightarrow> db \<Rightarrow> db" where
  "cascade_resources_note_deleted note_id deleted_at d =
     d\<lparr>resources := tbl_upd_where (\<lambda>_ r. r_note_id r = note_id \<and> r_deleted_at r = None)
        (\<lambda>r. r\<lparr>r_deleted_at := Some deleted_at\<rparr>) (resources d)\<rparr>"

definition cascade_resources_note_restored :: "uuid \<Rightarrow> timestamp \<Rightarrow> db \<Rightarrow> db" where
  "cascade_resources_note_restored note_id deleted_at d =
     d\<lparr>resources := tbl_upd_where (\<lambda>_ r. r_note_id r = note_id \<and> r_deleted_at r = Some deleted_at)
        (\<lambda>r. r\<lparr>r_deleted_at := None\<rparr>) (resources d)\<rparr>"

definition soft_delete_note_on :: "store \<Rightarrow> timestamp \<Rightarrow> uuid \<Rightarrow> db \<Rightarrow> (note_row option \<times> db) result" where
  "soft_delete_note_on st now row_id d =
     (case live_note d row_id of
        None \<Rightarrow> Inr (None, d)
      | Some n \<Rightarrow>
          let row = n\<lparr>n_deleted_at := Some now, n_updated_at := now\<rparr>;
              d1 = d\<lparr>notes_tbl := tbl_put row_id row (notes_tbl d)\<rparr>;
              d2 = cascade_resources_note_deleted row_id now d1
          in res_then (decrypt_note_title st (Some row)) (\<lambda>out. Inr (out, d2)))"

definition set_note_owner_on ::
    "store \<Rightarrow> timestamp \<Rightarrow> uuid \<Rightarrow> uuid \<Rightarrow> db \<Rightarrow> (note_row option \<times> db) result" where
  "set_note_owner_on st now row_id new_owner d =
     (case live_note d row_id of
        None \<Rightarrow> Inr (None, d)
      | Some n \<Rightarrow>
          if tbl_get (users d) new_owner = None then Inl foreign_key_violation
          else let row = n\<lparr>n_owner_id := new_owner, n_updated_at := now\<rparr>
            in res_then (decrypt_note_title st (Some row)) (\<lambda>out.
                 Inr (out, d\<lparr>notes_tbl := tbl_put row_id row (notes_tbl d)\<rparr>)))"

definition count_live_notes_for_user_on :: "uuid \<Rightarrow> db \<Rightarrow> nat" where
  "count_live_notes_for_user_on user_id d =
     tbl_count (\<lambda>_ n. n_owner_id n = user_id \<and> n_deleted_at n = None) (notes_tbl d)"

definition count_live_notes_in_notebook_on :: "uuid \<Rightarrow> db \<Rightarrow> nat" where
  "count_live_notes_in_notebook_on notebook_id d =
     tbl_count (\<lambda>_ n. n_notebook_id n = Some notebook_id \<and> n_deleted_at n = None) (notes_tbl d)"

subsection \<open>Shares of notes and notebooks\<close>

definition create_or_update_share_on ::
    "timestamp \<Rightarrow> uuid \<Rightarrow> uuid \<Rightarrow> i32 \<Rightarrow> db \<Rightarrow> (note_share \<times> db) result" where
  "create_or_update_share_on now note_id user_id capabilities d =
     (case tbl_get (note_shares d) (note_id, user_id) of
        Some s \<Rightarrow>
          let s' = s\<lparr>s_capabilities := capabilities\<rparr>
          in Inr (s', d\<lparr>note_shares := tbl_put (note_id, user_id) s' (note_shares d)\<rparr>)
      | None \<Rightarrow>
          if tbl_get (notes_tbl d) note_id = None \<or> tbl_get (users d) user_id = None
          then Inl foreign_key_violation
          else let s' = \<lparr>s_note_id = note_id, s_user_id = user_id,
                         s_capabilities = capabilities, s_created_at = now\<rparr>
            in Inr (s', d\<lparr>note_shares := tbl_put (note_id, user_id) s' (note_shares d)\<rparr>))"

definition get_share_on :: "uuid \<Rightarrow> uuid \<Rightarrow> db \<Rightarrow> note_share option" where
  "get_share_on note_id user_id d = tbl_get (note_shares d) (note_id, user_id)"

definition list_shares_of :: "uuid \<Rightarrow> db \<Rightarrow> note_share list" where
  "list_shares_of note_id d =
     sort_key s_created_at (tbl_select (\<lambda>_ s. s_note_id s = note_id) (note_shares d))"

definition delete_share_on :: "uuid \<Rightarrow> uuid \<Rightarrow> db \<Rightarrow> bool \<times> db" where
  "delete_share_on note_id user_id d =
     (tbl_get (note_shares d) (note_id, user_id) \<noteq> None,
      d\<lparr>note_shares := tbl_del (note_id, user_id) (note_shares d)\<rparr>)"

definition live_notebook :: "db \<Rightarrow> uuid \<Rightarrow> notebook option" where
  "live_notebook d row_id =
     (case tbl_get (notebooks d) row_id of
        Some nb \<Rightarrow> if nb_deleted_at nb = None then Some nb else None
      | None \<Rightarrow> None)"

definition notebook_owner_on :: "uuid \<Rightarrow> db \<Rightarrow> uuid option" where
  "notebook_owner_on notebook_id d = map_option nb_user_id (live_notebook d notebook_id)"

definition set_notebook_owner_on ::
    "timestamp \<Rightarrow> uuid \<Rightarrow> uuid \<Rightarrow> db \<Rightarrow> (uuid option \<times> db) result" where
  "set_notebook_owner_on now notebook_id new_owner d =
     (case live_notebook d notebook_id of
        None \<Rightarrow> Inr (None, d)
      | Some nb \<Rightarrow>
          if tbl_get (users d) new_owner = None then Inl foreign_key_violation
          else Inr (Some notebook_id, d\<lparr>notebooks := tbl_put notebook_id
                 (nb\<lparr>nb_user_id := new_owner, nb_updated_at := now\<rparr>) (notebooks d)\<rparr>))"

definition get_notebook_share_on :: "uuid \<Rightarrow> uuid \<Rightarrow> db \<Rightarrow> notebook_share option" where
  "get_notebook_share_on notebook_id user_id d =
     (case live_notebook d notebook_id of
        None \<Rightarrow> None
      | Some _ \<Rightarrow> tbl_get (notebook_shares d) (notebook_id, user_id))"

definition list_notebook_shares_of :: "uuid \<Rightarrow> db \<Rightarrow> notebook_share list" where
  "list_notebook_shares_of notebook_id d =
     sort_key nbs_created_at
       (tbl_select (\<lambda>_ s. nbs_notebook_id s = notebook_id) (notebook_shares d))"

definition create_or_update_notebook_share_on ::
    "timestamp \<Rightarrow> uuid \<Rightarrow> uuid \<Rightarrow> i32 \<Rightarrow> db \<Rightarrow> (notebook_share \<times> db) result" where
  "create_or_update_notebook_share_on now notebook_id user_id capabilities d =
     (case tbl_get (notebook_shares d) (notebook_id, user_id) of
        Some s \<Rightarrow>
          let s' = s\<lparr>nbs_capabilities := capabilities\<rparr>
          in Inr (s', d\<lparr>notebook_shares := tbl_put (notebook_id, user_id) s' (notebook_shares d)\<rparr>)
      | None \<Rightarrow>
          if tbl_get (notebooks d) notebook_id = None \<or> tbl_get (users d) user_id = None
          then Inl foreign_key_violation
          else let s' = \<lparr>nbs_notebook_id = notebook_id, nbs_user_id = user_id,
                         nbs_capabilities = capabilities, nbs_created_at = now\<rparr>
            in Inr (s', d\<lparr>notebook_shares := tbl_put (notebook_id, user_id) s' (notebook_shares d)\<rparr>))"

definition delete_notebook_share_on :: "uuid \<Rightarrow> uuid \<Rightarrow> db \<Rightarrow> bool \<times> db" where
  "delete_notebook_share_on notebook_id user_id d =
     (tbl_get (notebook_shares d) (notebook_id, user_id) \<noteq> None,
      d\<lparr>notebook_shares := tbl_del (notebook_id, user_id) (notebook_shares d)\<rparr>)"

definition inherited_note_principals_on :: "uuid \<Rightarrow> db \<Rightarrow> (uuid \<times> i32) list" where
  "inherited_note_principals_on notebook_id d =
     (case live_notebook d notebook_id of
        None \<Rightarrow> []
      | Some nb \<Rightarrow>
          remdups (map (\<lambda>s. (nbs_user_id s, nbs_capabilities s))
              (tbl_select (\<lambda>_ s. nbs_notebook_id s = notebook_id) (notebook_shares d))
            @ [(nb_user_id nb, CAP_ALL)]))"

subsection \<open>Lines and their order\<close>

definition decrypt_line :: "store \<Rightarrow> line \<Rightarrow> line result" where
  "decrypt_line st l = res_then (store_decrypt st (l_content l)) (\<lambda>c. Inr (l\<lparr>l_content := c\<rparr>))"

definition get_line_on :: "store \<Rightarrow> uuid \<Rightarrow> db \<Rightarrow> line option result" where
  "get_line_on st row_id d =
     (case tbl_get (lines d) row_id of
        None \<Rightarrow> Inr None
      | Some l \<Rightarrow> res_then (decrypt_line st l) (\<lambda>l'. Inr (Some l')))"

definition list_lines :: "store \<Rightarrow> uuid \<Rightarrow> db \<Rightarrow> line list result" where
  "list_lines st note_id d =
     res_map (decrypt_line st) (tbl_select (\<lambda>_ l. l_note_id l = note_id) (lines d))"

definition insert_line_on ::
    "store \<Rightarrow> string \<Rightarrow> timestamp \<Rightarrow> uuid \<Rightarrow> uuid \<Rightarrow> string \<Rightarrow> version_vector \<Rightarrow> string \<Rightarrow>
     timestamp \<Rightarrow> db \<Rightarrow> (line \<times> db) result" where
  "insert_line_on st nonce now row_id note_id content vv last_writer updated_at d =
     res_then (store_encrypt st nonce content) (\<lambda>enc.
       let row = \<lparr>l_id = row_id, l_note_id = note_id, l_content = enc, l_created_at = now,
                  l_updated_at = updated_at, l_deleted_at = None, l_vv = vv,
                  l_last_writer = last_writer\<rparr>
       in if tbl_get (lines d) row_id \<noteq> None then Inl unique_violation
          else if tbl_get (notes_tbl d) note_id = None then Inl foreign_key_violation
          else Inr (row\<lparr>l_content := content\<rparr>, d\<lparr>lines := tbl_put row_id row (lines d)\<rparr>))"

definition update_line_on ::
    "store \<Rightarrow> string \<Rightarrow> uuid \<Rightarrow> string \<Rightarrow> version_vector \<Rightarrow> string \<Rightarrow> timestamp \<Rightarrow> db \<Rightarrow>
     (line option \<times> db) result" where
  "update_line_on st nonce row_id content vv last_writer updated_at d =
     res_then (store_encrypt st nonce content) (\<lambda>enc.
       case tbl_get (lines d) row_id of
         None \<Rightarrow> Inr (None, d)
       | Some l \<Rightarrow>
           let row = l\<lparr>l_content := enc, l_vv := vv, l_last_writer := last_writer,
                       l_updated_at := updated_at, l_deleted_at := None\<rparr>
           in Inr (Some (row\<lparr>l_content := content\<rparr>), d\<lparr>lines := tbl_put row_id row (lines d)\<rparr>))"

definition soft_delete_line_on ::
    "store \<Rightarrow> uuid \<Rightarrow> timestamp \<Rightarrow> version_vector \<Rightarrow> string \<Rightarrow> timestamp \<Rightarrow> db \<Rightarrow>
     (line option \<times> db) result" where
  "soft_delete_line_on st row_id deleted_at vv last_writer updated_at d =
     (case tbl_get (lines d) row_id of
        None \<Rightarrow> Inr (None, d)
      | Some l \<Rightarrow>
          let row = l\<lparr>l_deleted_at := Some deleted_at, l_vv := vv, l_last_writer := last_writer,
                      l_updated_at := updated_at\<rparr>
          in res_then (decrypt_line st row) (\<lambda>out.
               Inr (Some out, d\<lparr>lines := tbl_put row_id row (lines d)\<rparr>)))"

definition get_note_order_on :: "uuid \<Rightarrow> db \<Rightarrow> note_order option" where
  "get_note_order_on note_id d = tbl_get (note_line_order d) note_id"

definition set_note_order_on ::
    "uuid \<Rightarrow> uuid list \<Rightarrow> version_vector \<Rightarrow> string \<Rightarrow> timestamp \<Rightarrow> db \<Rightarrow> db" where
  "set_note_order_on note_id order vv last_writer updated_at d =
     d\<lparr>note_line_order := tbl_upd note_id
        (\<lambda>o1. o1\<lparr>o_order := order, o_vv := vv, o_last_writer := last_writer,
                 o_updated_at := updated_at\<rparr>) (note_line_order d)\<rparr>"

definition count_live_lines_on :: "uuid \<Rightarrow> db \<Rightarrow> nat" where
  "count_live_lines_on note_id d =
     tbl_count (\<lambda>_ l. l_note_id l = note_id \<and> l_deleted_at l = None) (lines d)"

end
