(* ===== verification/Access_Control.thy ===== *)
theory Access_Control
  imports Store_Notes
begin

text \<open>
  \<open>permissions.rs\<close>, the resolution of a user's access to a note or a notebook from the
  direct share, the notebook's share or ownership and the permission scheme, and its
  abstract specification as a set of capabilities.
\<close>

unbundle bit_operations_syntax

definition is_note_owner :: "note_row \<Rightarrow> uuid \<Rightarrow> bool" where
  "is_note_owner n user_id \<longleftrightarrow> n_owner_id n = user_id"

definition resolve_note_access_on ::
    "permission_scheme \<Rightarrow> note_row \<Rightarrow> uuid \<Rightarrow> db \<Rightarrow> access result" where
  "resolve_note_access_on scheme n user_id d =
     (if is_note_owner n user_id then Inr access_owner
      else
        let direct = (case get_share_on (n_id n) user_id d of
               Some share \<Rightarrow> from_bits (s_capabilities share)
             | None \<Rightarrow> empty_caps);
            inherited = (case n_notebook_id n of
               Some notebook_id \<Rightarrow>
                 let notebook_bits =
                   (if notebook_owner_on notebook_id d = Some user_id then CAP_ALL
                    else case get_notebook_share_on notebook_id user_id d of
                      Some share \<Rightarrow> nbs_capabilities share
                    | None \<Rightarrow> 0)
                 in from_bits (bits (from_bits notebook_bits) AND notebook_inheritance scheme)
             | None \<Rightarrow> empty_caps);
            effective = from_bits (bits direct OR bits inherited)
        in if bits effective = 0 then Inl Forbidden else Inr (access_granted effective))"

definition resolve_notebook_access_on :: "uuid \<Rightarrow> uuid \<Rightarrow> db \<Rightarrow> access result" where
  "resolve_notebook_access_on notebook_id user_id d =
     res_then (ok_or (notebook_owner_on notebook_id d) NotFound) (\<lambda>owner.
       if owner = user_id then Inr access_owner
       else case get_notebook_share_on notebook_id user_id d of
         Some share \<Rightarrow> Inr (access_granted (from_bits (nbs_capabilities share)))
       | None \<Rightarrow> Inl Forbidden)"

subsection \<open>Specification\<close>

definition notebook_caps :: "uuid \<Rightarrow> uuid \<Rightarrow> db \<Rightarrow> cap set" where
  "notebook_caps notebook_id user_id d =
     (if notebook_owner_on notebook_id d = Some user_id then UNIV
      else case get_notebook_share_on notebook_id user_id d of
        Some s \<Rightarrow> cap_closure (cap_set (nbs_capabilities s))
      | None \<Rightarrow> {})"

definition direct_caps :: "uuid \<Rightarrow> uuid \<Rightarrow> db \<Rightarrow> cap set" where
  "direct_caps note_id user_id d =
     (case get_share_on note_id user_id d of
        Some s \<Rightarrow> cap_closure (cap_set (s_capabilities s))
      | None \<Rightarrow> {})"

definition inherited_caps :: "uuid option \<Rightarrow> uuid \<Rightarrow> db \<Rightarrow> cap set" where
  "inherited_caps notebook user_id d =
     (case notebook of None \<Rightarrow> {} | Some nb \<Rightarrow> notebook_caps nb user_id d \<inter> {Read, Write})"

definition note_caps :: "note_row \<Rightarrow> uuid \<Rightarrow> db \<Rightarrow> cap set" where
  "note_caps n user_id d =
     (if n_owner_id n = user_id then UNIV
      else direct_caps (n_id n) user_id d \<union> inherited_caps (n_notebook_id n) user_id d)"

definition access_caps :: "access result \<Rightarrow> cap set" where
  "access_caps r = (case r of Inl _ \<Rightarrow> {} | Inr a \<Rightarrow> cap_set (bits (acc_caps a)))"

lemma closure_read_write:
  "cap_closure (cap_closure S \<inter> {Read, Write}) = cap_closure S \<inter> {Read, Write}"
proof (rule set_eqI)
  fix c
  show "c \<in> cap_closure (cap_closure S \<inter> {Read, Write}) \<longleftrightarrow> c \<in> cap_closure S \<inter> {Read, Write}"
    by (cases c) (auto simp: mem_cap_closure)
qed

lemma notebook_inheritance_caps [simp]: "cap_set (notebook_inheritance s) = {Read, Write}"
  by (simp add: notebook_inheritance_def del: cap_set_simps)

lemma inherited_bits_caps:
  "cap_set (bits (from_bits (bits (from_bits b) AND notebook_inheritance s))) =
     cap_closure (cap_set b) \<inter> {Read, Write}"
  by (simp add: closure_read_write)

lemma notebook_caps_bits:
  "notebook_caps nb u d = cap_closure (cap_set
     (if notebook_owner_on nb d = Some u then CAP_ALL
      else case get_notebook_share_on nb u d of Some s \<Rightarrow> nbs_capabilities s | None \<Rightarrow> 0))"
  by (simp add: notebook_caps_def split: option.splits)

lemma closed_caps [simp]:
  "cap_closure (notebook_caps nb u d) = notebook_caps nb u d"
  "cap_closure (direct_caps nid u d) = direct_caps nid u d"
  "cap_closure (inherited_caps nbo u d) = inherited_caps nbo u d"
  by (simp_all add: notebook_caps_bits direct_caps_def inherited_caps_def closure_read_write
      split: option.splits)

lemma resolve_note_access_shape:
  obtains c where "resolve_note_access_on scheme n u d =
      (if n_owner_id n = u then Inr access_owner
       else if note_caps n u d = {} then Inl Forbidden else Inr (access_granted c))"
    and "n_owner_id n \<noteq> u \<Longrightarrow> cap_set (bits c) = note_caps n u d"
proof -
  define direct where "direct = (case get_share_on (n_id n) u d of
      Some share \<Rightarrow> from_bits (s_capabilities share) | None \<Rightarrow> empty_caps)"
  define inh where "inh = (case n_notebook_id n of
      Some nb \<Rightarrow> from_bits (bits (from_bits
          (if notebook_owner_on nb d = Some u then CAP_ALL
           else case get_notebook_share_on nb u d of Some s \<Rightarrow> nbs_capabilities s | None \<Rightarrow> 0))
          AND notebook_inheritance scheme)
    | None \<Rightarrow> empty_caps)"
  let ?c = "from_bits (bits direct OR bits inh)"
  have d: "cap_set (bits direct) = direct_caps (n_id n) u d"
    by (simp add: direct_def direct_caps_def split: option.splits)
  have i: "cap_set (bits inh) = inherited_caps (n_notebook_id n) u d"
    by (simp add: inh_def inherited_caps_def notebook_caps_bits inherited_bits_caps
        del: cap_set_from_bits split: option.splits)
  have r: "resolve_note_access_on scheme n u d =
      (if n_owner_id n = u then Inr access_owner
       else if bits ?c = 0 then Inl Forbidden else Inr (access_granted ?c))"
    unfolding resolve_note_access_on_def is_note_owner_def direct_def inh_def Let_def ..
  have c: "n_owner_id n \<noteq> u \<Longrightarrow> cap_set (bits ?c) = note_caps n u d"
    by (simp add: note_caps_def d i)
  show thesis
    by (rule that [of ?c]) (use r c in \<open>simp_all add: bits_zero_iff del: cap_set_from_bits\<close>)
qed

lemma resolve_note_access_caps:
  "access_caps (resolve_note_access_on scheme n u d) = note_caps n u d"
  by (rule resolve_note_access_shape [of scheme n u d]) (auto simp: access_caps_def note_caps_def)

lemma resolve_note_access_owner:
  "resolve_note_access_on scheme n u d = Inr a \<Longrightarrow> is_owner a \<longleftrightarrow> n_owner_id n = u"
  by (rule resolve_note_access_shape [of scheme n u d]) (auto split: if_splits)

lemma resolve_note_access_error:
  "resolve_note_access_on scheme n u d = Inl e \<longleftrightarrow> e = Forbidden \<and> note_caps n u d = {}"
  by (rule resolve_note_access_shape [of scheme n u d]) (auto simp: note_caps_def split: if_splits)

lemma resolve_note_access_Inr:
  assumes "resolve_note_access_on scheme n u d = Inr a"
  shows "cap_set (bits (acc_caps a)) = note_caps n u d"
  using resolve_note_access_caps [of scheme n u d] assms by (simp add: access_caps_def)

lemma resolve_notebook_access_Inr:
  assumes "resolve_notebook_access_on nb u d = Inr a"
  shows "cap_set (bits (acc_caps a)) = notebook_caps nb u d"
    and "is_owner a \<longleftrightarrow> notebook_owner_on nb d = Some u"
  using assms
  by (auto simp: resolve_notebook_access_on_def notebook_caps_def res_simps
      split: if_splits option.splits)

text \<open>A notebook confers reading and writing on its notes, never the right to share or manage.\<close>

lemma inherited_caps_bound: "inherited_caps nbo u d \<subseteq> {Read, Write}"
  by (auto simp: inherited_caps_def split: option.splits)

end
