(* ===== verification/App_State.thy ===== *)
theory App_State
  imports Server_Config Access_Control
begin

text \<open>
  \<open>state.rs\<close> as far as the handlers use it: the configuration, the store's cipher and the
  linked \<open>keeplin_core\<close>; \<open>app_lower\<close> is \<open>str::to_lowercase\<close>, whose Unicode case table is a
  parameter. The registries of live connections and the rate limiter are the
  states of their own theories. \<open>auth.rs\<close> attaches an \<open>authed_user\<close> to every request.
\<close>

record app_state =
  app_core :: core
  app_store :: store
  app_config :: config
  app_lower :: "string \<Rightarrow> string"

record authed_user =
  au_user_id :: uuid
  au_device_id :: uuid
  au_email :: string

abbreviation app_scheme :: "app_state \<Rightarrow> permission_scheme" where
  "app_scheme app \<equiv> cfg_permission_scheme (app_config app)"

subsection \<open>Values that the at-rest cipher stores and reads back\<close>

definition stores :: "store \<Rightarrow> string \<Rightarrow> string \<Rightarrow> bool" where
  "stores st nonce c \<longleftrightarrow> (\<exists>s. store_encrypt st nonce c = Inr s \<and> store_decrypt st s = Inr c)"

text \<open>
  What a value and a nonce must satisfy: the AEAD accepts the value, the nonce has its
  twelve bytes, the value is UTF-8 and, without a key, does not look like a ciphertext.
\<close>

definition storable :: "store \<Rightarrow> string \<Rightarrow> string \<Rightarrow> bool" where
  "storable st nonce c \<longleftrightarrow> length nonce = 12 \<and> utf8_ok (st_lib st) c \<and>
     (case cipher_key (st_cipher st) of
        None \<Rightarrow> \<not> is_prefix ENC_PREFIX c
      | Some k \<Rightarrow> aead_encrypt (st_lib st) k nonce c \<noteq> None)"

lemma storable_stores:
  assumes "crypto_lib_ok (st_lib st)" and "storable st nonce c"
  shows "stores st nonce c"
proof -
  from assms(2) obtain s where "encrypt (st_lib st) (st_cipher st) nonce c = Inr s"
    by (auto simp: storable_def encrypt_def split: option.splits)
  with assms decrypt_encrypt [of "st_lib st" nonce c "st_cipher st" s] show ?thesis
    by (auto simp: stores_def store_encrypt_def store_decrypt_def storable_def cipher_enabled_def
        split: option.splits)
qed

lemma storesE:
  assumes "stores st nonce c"
  obtains s where "store_encrypt st nonce c = Inr s" "store_decrypt st s = Inr c"
  using assms by (auto simp: stores_def)

subsection \<open>A default instance\<close>

definition demo_config :: config where
  "demo_config = \<lparr>port = 3000, database_url = [], jwt_secret = ''0123456789abcdefX'',
     token_ttl_days = 365, retention_days = 0, lines_gc_days = 30, resource_purge_days = 0,
     db_max_connections = 10, db_acquire_timeout_secs = 10, db_idle_timeout_secs = 600,
     db_max_lifetime_secs = 1800, rate_limit_per_min = 0, shutdown_grace_secs = 20, log_json = False,
     max_upload_bytes = 100, max_note_body_bytes = 100, max_user_storage_bytes = 0,
     max_notes_per_user = 5, registration_enabled = True, at_rest_key = None,
     mail_webhook_url = None, mail_webhook_token = None, email_token_ttl_secs = 3600,
     email_verification_required = False, login_max_failures = 10, login_lockout_secs = 300,
     history_since_access = False, cfg_permission_scheme = Strict\<rparr>"

definition demo_app :: app_state where
  "demo_app = \<lparr>app_core = ref_core, app_store = plain_store, app_config = demo_config,
     app_lower = map ascii_lower\<rparr>"

lemma demo_app_simps [simp]:
  "app_core demo_app = ref_core" "app_store demo_app = plain_store" "app_config demo_app = demo_config"
  "app_lower demo_app = map ascii_lower"
  by (simp_all add: demo_app_def)

lemma plain_storable [simp]:
  "storable plain_store nonce c \<longleftrightarrow> length nonce = 12 \<and> \<not> is_prefix ENC_PREFIX c"
  by (simp add: storable_def plain_store_def plain_lib_def)

lemma plain_store_lib [simp]: "crypto_lib_ok (st_lib plain_store)"
  by (simp add: plain_store_def plain_lib_ok)

end
