(* ===== verification/Transactions.thy ===== *)
theory Transactions
  imports App_State
begin

text \<open>
  \<open>http.rs\<close>, \<open>serializable\<close>: a handler's write runs in a serializable transaction that is
  retried, at most three times, when PostgreSQL reports a serialization failure. What the
  rest of the system does meanwhile is the \<open>world\<close>: the transactions of others that commit
  before each attempt, and the driver errors of beginning, of a statement and of the commit.
  The checkpoints and injected failures of debug builds are not part of the model.
\<close>

record world =
  interfere :: "nat \<Rightarrow> db \<Rightarrow> db"
  begin_err :: "nat \<Rightarrow> sqlx_error option"
  stmt_err :: "nat \<Rightarrow> sqlx_error option"
  commit_err :: "nat \<Rightarrow> sqlx_error option"

definition SERIALIZABLE_MAX_ATTEMPTS :: nat where
  "SERIALIZABLE_MAX_ATTEMPTS = 3"

text \<open>
  One pass of the loop is attempt \<open>k\<close>; \<open>fuel\<close> counts the attempts that are left after it. A
  rolled back attempt leaves the database as the others left it.
\<close>

fun serializable_from ::
    "nat \<Rightarrow> nat \<Rightarrow> world \<Rightarrow> (db \<Rightarrow> ('a \<times> db) result) \<Rightarrow> db \<Rightarrow> 'a result \<times> db" where
  "serializable_from fuel k w operation d =
     (let d0 = interfere w k d;
          again = (case fuel of
              0 \<Rightarrow> (Inl ServiceUnavailable, d0)
            | Suc f \<Rightarrow> serializable_from f (Suc k) w operation d0)
      in case begin_err w k of
           Some e \<Rightarrow> (Inl (Database e), d0)
         | None \<Rightarrow>
             (case (case stmt_err w k of Some e \<Rightarrow> Inl (Database e) | None \<Rightarrow> operation d0) of
                Inr (v, d1) \<Rightarrow>
                  (case commit_err w k of
                     None \<Rightarrow> (Inr v, d1)
                   | Some e \<Rightarrow> if e = DbError ''40001'' then again else (Inl (Database e), d0))
              | Inl e \<Rightarrow> if is_serialization_failure e then again else (Inl e, d0)))"

declare serializable_from.simps [simp del]

definition serializable :: "world \<Rightarrow> (db \<Rightarrow> ('a \<times> db) result) \<Rightarrow> db \<Rightarrow> 'a result \<times> db" where
  "serializable w operation d = serializable_from (SERIALIZABLE_MAX_ATTEMPTS - 1) 0 w operation d"

text \<open>The database attempt \<open>k\<close> of a transaction runs on.\<close>

fun seen_from :: "nat \<Rightarrow> nat \<Rightarrow> world \<Rightarrow> db \<Rightarrow> db" where
  "seen_from 0 k w d = interfere w k d"
| "seen_from (Suc n) k w d = seen_from n (Suc k) w (interfere w k d)"

definition seen :: "world \<Rightarrow> nat \<Rightarrow> db \<Rightarrow> db" where
  "seen w n d = seen_from n 0 w d"

definition quiet :: world where
  "quiet = \<lparr>interfere = (\<lambda>_ d. d), begin_err = (\<lambda>_. None), stmt_err = (\<lambda>_. None), commit_err = (\<lambda>_. None)\<rparr>"

lemma serializable_once:
  obtains (refused) e where "serializable_from fuel k w operation d = (Inl e, interfere w k d)"
  | (committed) v d1 where "operation (interfere w k d) = Inr (v, d1)"
      "serializable_from fuel k w operation d = (Inr v, d1)"
  | (again) f where "fuel = Suc f"
      "serializable_from fuel k w operation d = serializable_from f (Suc k) w operation (interfere w k d)"
proof -
  have "(\<exists>e. serializable_from fuel k w operation d = (Inl e, interfere w k d))
    \<or> (\<exists>v d1. operation (interfere w k d) = Inr (v, d1) \<and> serializable_from fuel k w operation d = (Inr v, d1))
    \<or> (\<exists>f. fuel = Suc f \<and>
        serializable_from fuel k w operation d = serializable_from f (Suc k) w operation (interfere w k d))"
    by (simp add: serializable_from.simps [of fuel k w operation d] Let_def
        split: nat.split option.split sum.split prod.split)
  then show thesis using refused committed again by blast
qed

lemma serializable_from_cases:
  assumes "serializable_from fuel k w operation d = (r, d')"
  shows "\<exists>n\<le>fuel. (\<exists>v. r = Inr v \<and> operation (seen_from n k w d) = Inr (v, d'))
    \<or> (\<exists>e. r = Inl e \<and> d' = seen_from n k w d)"
  using assms
proof (induction fuel arbitrary: k d)
  case 0
  then show ?case by (cases rule: serializable_once [of 0 k w operation d]) auto
next
  case (Suc fuel)
  show ?case
  proof (cases rule: serializable_once [of "Suc fuel" k w operation d])
    case (again f)
    with Suc.prems have "serializable_from fuel (Suc k) w operation (interfere w k d) = (r, d')" by simp
    from Suc.IH [OF this] show ?thesis by (metis Suc_le_mono seen_from.simps(2))
  qed (use Suc.prems in \<open>auto intro: exI [of _ 0]\<close>)
qed

lemma attempts_le: "n \<le> SERIALIZABLE_MAX_ATTEMPTS - 1 \<longleftrightarrow> n < 3"
  by (auto simp: SERIALIZABLE_MAX_ATTEMPTS_def)

lemma serializable_Inr:
  assumes "serializable w operation d = (Inr v, d')"
  obtains n where "n < 3" "operation (seen w n d) = Inr (v, d')"
  using serializable_from_cases [OF assms [unfolded serializable_def]]
  unfolding attempts_le by (auto simp: seen_def)

lemma serializable_Inl:
  assumes "serializable w operation d = (Inl e, d')"
  obtains n where "n < 3" "d' = seen w n d"
  using serializable_from_cases [OF assms [unfolded serializable_def]]
  unfolding attempts_le by (auto simp: seen_def)

lemma quiet_simps [simp]:
  "interfere quiet k d = d" "begin_err quiet k = None" "stmt_err quiet k = None" "commit_err quiet k = None"
  by (simp_all add: quiet_def)

lemma serializable_quiet [simp]:
  "serializable quiet operation d =
     (case operation d of
        Inr (v, d') \<Rightarrow> (Inr v, d')
      | Inl e \<Rightarrow> (Inl (if is_serialization_failure e then ServiceUnavailable else e), d))"
proof -
  have "serializable_from fuel k quiet operation d = (case operation d of
        Inr (v, d') \<Rightarrow> (Inr v, d')
      | Inl e \<Rightarrow> (Inl (if is_serialization_failure e then ServiceUnavailable else e), d))" for fuel k
  proof (induction fuel arbitrary: k)
    case 0
    show ?case by (simp add: serializable_from.simps [of 0] split: sum.split)
  next
    case (Suc fuel)
    show ?case by (simp add: serializable_from.simps [of "Suc fuel"] Suc split: sum.split)
  qed
  then show ?thesis by (simp add: serializable_def)
qed

lemma seen_quiet [simp]: "seen quiet n d = d"
proof -
  have "seen_from n k quiet d = d" for k by (induction n arbitrary: k) simp_all
  then show ?thesis by (simp add: seen_def)
qed

subsection \<open>Properties\<close>


text \<open>
  C38: three serialization failures in a row, at the statement or at the commit, are an
  answer of \<open>ServiceUnavailable\<close> (503) and no effect.
\<close>

theorem serializable_exhausted:
  assumes "\<And>k. k < 3 \<Longrightarrow> begin_err w k = None"
    and "\<And>k. k < 3 \<Longrightarrow> stmt_err w k = Some (DbError ''40001'')
      \<or> (stmt_err w k = None \<and> commit_err w k = Some (DbError ''40001'')
          \<and> (\<exists>v d'. operation (seen w k d) = Inr (v, d')))"
  shows "serializable w operation d = (Inl ServiceUnavailable, seen w 2 d)"
proof -
  have s: "seen w 0 d = interfere w 0 d" "seen w 1 d = interfere w 1 (interfere w 0 d)"
    "seen w 2 d = interfere w 2 (interfere w 1 (interfere w 0 d))"
    by (simp_all add: seen_def numeral_2_eq_2)
  have again: "serializable_from fuel k w operation x =
      (case fuel of 0 \<Rightarrow> (Inl ServiceUnavailable, interfere w k x)
        | Suc f \<Rightarrow> serializable_from f (Suc k) w operation (interfere w k x))"
    if "k < 3" and "seen w k d = interfere w k x" for fuel k x
    using assms [OF that(1)] that(2)
    by (subst serializable_from.simps) (auto simp: Let_def is_serialization_failure_def)
  show ?thesis
    using s unfolding serializable_def SERIALIZABLE_MAX_ATTEMPTS_def
    by (simp add: again numeral_2_eq_2)
qed

definition stormy :: world where
  "stormy = quiet\<lparr>commit_err := (\<lambda>_. Some (DbError ''40001''))\<rparr>"

theorem serializable_exhausted_witness:
  "serializable stormy (\<lambda>d. Inr ((), d)) empty_db = (Inl ServiceUnavailable, seen stormy 2 empty_db)"
  by (rule serializable_exhausted) (simp_all add: stormy_def quiet_def)

end
