(* ===== verification/Store_Accounts.thy ===== *)
theory Store_Accounts
  imports App_State
begin

text \<open>
  \<open>store.rs\<close>, the queries on users, devices, failed logins and e-mail tokens. Times are
  microseconds; \<open>now\<close> is the time of the statement. The hash of an e-mail token is SHA-256,
  a parameter.
\<close>

abbreviation seconds :: "nat \<Rightarrow> timestamp" where
  "seconds n \<equiv> int n * 1000000"

subsection \<open>Users\<close>

definition get_user_by_email_on :: "string \<Rightarrow> db \<Rightarrow> user option" where
  "get_user_by_email_on email d = map_option snd (find (\<lambda>r. u_email (snd r) = email) (users d))"

definition get_user_by_id_on :: "uuid \<Rightarrow> db \<Rightarrow> user option" where
  "get_user_by_id_on user_id d = tbl_get (users d) user_id"

definition create_user ::
    "timestamp \<Rightarrow> uuid \<Rightarrow> string \<Rightarrow> string \<Rightarrow> string \<Rightarrow> db \<Rightarrow> (user \<times> db) result" where
  "create_user now fresh email password_hash display_name d =
     (if tbl_get (users d) fresh \<noteq> None \<or> get_user_by_email_on email d \<noteq> None then Inl Conflict
      else let u = \<lparr>u_id = fresh, u_email = email, u_password_hash = password_hash,
                    u_display_name = display_name, u_created_at = now, u_email_verified_at = None\<rparr>
        in Inr (u, d\<lparr>users := tbl_put fresh u (users d)\<rparr>))"

definition update_password :: "uuid \<Rightarrow> string \<Rightarrow> db \<Rightarrow> db" where
  "update_password user_id password_hash d =
     d\<lparr>users := tbl_upd user_id (\<lambda>u. u\<lparr>u_password_hash := password_hash\<rparr>) (users d)\<rparr>"

definition mark_email_verified :: "timestamp \<Rightarrow> uuid \<Rightarrow> db \<Rightarrow> db" where
  "mark_email_verified now user_id d =
     d\<lparr>users := tbl_upd user_id
        (\<lambda>u. u\<lparr>u_email_verified_at := Some (coalesce (u_email_verified_at u) now)\<rparr>) (users d)\<rparr>"

text \<open>
  Deleting a user runs the \<open>ON DELETE CASCADE\<close> rules of the schema. The one \<open>RESTRICT\<close> rule
  is that of \<open>projection_jobs\<close> on \<open>changes\<close>: a change with a job cannot go.
\<close>

definition delete_user_on :: "uuid \<Rightarrow> db \<Rightarrow> (bool \<times> db) result" where
  "delete_user_on user_id d =
     (if tbl_get (users d) user_id = None then Inr (False, d)
      else if \<exists>j\<in>set (projection_jobs d). fst (fst j) = user_id then Inl foreign_key_violation
      else
        let own_note = (\<lambda>nid. \<exists>r\<in>set (notes_tbl d). fst r = nid \<and> n_owner_id (snd r) = user_id);
            own_nb = (\<lambda>nb. \<exists>r\<in>set (notebooks d). fst r = nb \<and> nb_user_id (snd r) = user_id);
            own_dev = (\<lambda>dv. \<exists>r\<in>set (user_devices d). fst r = dv \<and> d_user_id (snd r) = user_id);
            own_res = (\<lambda>rs. \<exists>r\<in>set (resources d). fst r = rs \<and> r_user_id (snd r) = user_id)
        in Inr (True, d\<lparr>users := tbl_del user_id (users d),
             user_devices := tbl_del_where (\<lambda>_ r. d_user_id r = user_id) (user_devices d),
             device_cursors := tbl_del_where (\<lambda>k _. own_dev k) (device_cursors d),
             notes_tbl := tbl_del_where (\<lambda>_ r. n_owner_id r = user_id) (notes_tbl d),
             lines := tbl_del_where (\<lambda>_ l. own_note (l_note_id l)) (lines d),
             note_line_order := tbl_del_where (\<lambda>k _. own_note k) (note_line_order d),
             note_shares := tbl_del_where (\<lambda>k _. own_note (fst k) \<or> snd k = user_id) (note_shares d),
             notebooks := tbl_del_where (\<lambda>_ r. nb_user_id r = user_id) (notebooks d),
             notebook_shares := tbl_del_where (\<lambda>k _. own_nb (fst k) \<or> snd k = user_id) (notebook_shares d),
             tags := tbl_del_where (\<lambda>_ r. t_user_id r = user_id) (tags d),
             note_tags := tbl_del_where (\<lambda>k _. fst k = user_id) (note_tags d),
             resources := tbl_del_where (\<lambda>_ r. r_user_id r = user_id) (resources d),
             resource_blobs := tbl_del_where (\<lambda>k _. own_res k) (resource_blobs d),
             changes := tbl_del_where (\<lambda>_ c. c_user_id c = user_id) (changes d),
             email_tokens := tbl_del_where (\<lambda>_ t. et_user_id t = user_id) (email_tokens d)\<rparr>))"

subsection \<open>Failed logins\<close>

definition login_locked :: "timestamp \<Rightarrow> string \<Rightarrow> db \<Rightarrow> bool" where
  "login_locked now email d =
     (case tbl_get (login_attempts d) email of
        None \<Rightarrow> False
      | Some a \<Rightarrow> (case la_locked_until a of None \<Rightarrow> False | Some t \<Rightarrow> t > now))"

definition record_login_failure :: "timestamp \<Rightarrow> string \<Rightarrow> int \<Rightarrow> nat \<Rightarrow> db \<Rightarrow> db" where
  "record_login_failure now email max_failures lockout_secs d =
     (let count = (case tbl_get (login_attempts d) email of
            None \<Rightarrow> 1
          | Some a \<Rightarrow> if la_last_failed_at a < now - seconds lockout_secs then 1 else la_failed_count a + 1);
          row = \<lparr>la_failed_count = count, la_last_failed_at = now,
                 la_locked_until = (if count \<ge> max_failures then Some (now + seconds lockout_secs) else None)\<rparr>
      in d\<lparr>login_attempts := tbl_put email row (login_attempts d)\<rparr>)"

definition clear_login_failures :: "string \<Rightarrow> db \<Rightarrow> db" where
  "clear_login_failures email d = d\<lparr>login_attempts := tbl_del email (login_attempts d)\<rparr>"

definition prune_login_attempts :: "timestamp \<Rightarrow> db \<Rightarrow> nat \<times> db" where
  "prune_login_attempts older_than d =
     (tbl_count (\<lambda>_ a. la_last_failed_at a < older_than) (login_attempts d),
      d\<lparr>login_attempts := tbl_del_where (\<lambda>_ a. la_last_failed_at a < older_than) (login_attempts d)\<rparr>)"

subsection \<open>E-mail tokens\<close>

datatype mail_kind = VerifyEmail | PasswordReset | AccessRevoked

fun mail_kind_str :: "mail_kind \<Rightarrow> string" where
  "mail_kind_str VerifyEmail = ''verify_email''"
| "mail_kind_str PasswordReset = ''password_reset''"
| "mail_kind_str AccessRevoked = ''access_revoked''"

definition MAX_LIVE_EMAIL_TOKENS :: nat where
  "MAX_LIVE_EMAIL_TOKENS = 5"

definition live_token :: "timestamp \<Rightarrow> email_token \<Rightarrow> bool" where
  "live_token now t \<longleftrightarrow> et_used_at t = None \<and> et_expires_at t > now"

definition create_email_token ::
    "(string \<Rightarrow> string) \<Rightarrow> timestamp \<Rightarrow> uuid \<Rightarrow> string \<Rightarrow> uuid \<Rightarrow> mail_kind \<Rightarrow> nat \<Rightarrow> db \<Rightarrow>
     ((string \<times> timestamp) \<times> db) result" where
  "create_email_token token_hash now fresh token user_id kind ttl_secs d =
     (let live = tbl_count (\<lambda>_ t. et_user_id t = user_id \<and> et_kind t = mail_kind_str kind \<and> live_token now t)
                   (email_tokens d);
          expires_at = now + seconds ttl_secs;
          row = \<lparr>et_user_id = user_id, et_kind = mail_kind_str kind, et_token_hash = token_hash token,
                 et_expires_at = expires_at, et_used_at = None\<rparr>
      in if live \<ge> MAX_LIVE_EMAIL_TOKENS then Inl TooManyAttempts
         else if tbl_get (users d) user_id = None then Inl foreign_key_violation
         else if tbl_get (email_tokens d) fresh \<noteq> None
              \<or> (\<exists>r\<in>set (email_tokens d). et_token_hash (snd r) = token_hash token)
         then Inl unique_violation
         else Inr ((token, expires_at), d\<lparr>email_tokens := tbl_put fresh row (email_tokens d)\<rparr>))"

text \<open>The hash is unique in the table, so at most one row is the one to consume.\<close>

definition consume_email_token ::
    "(string \<Rightarrow> string) \<Rightarrow> timestamp \<Rightarrow> mail_kind \<Rightarrow> string \<Rightarrow> db \<Rightarrow> uuid option \<times> db" where
  "consume_email_token token_hash now kind raw_token d =
     (let hit = (\<lambda>t. et_token_hash t = token_hash raw_token \<and> et_kind t = mail_kind_str kind \<and> live_token now t)
      in (case find (\<lambda>r. hit (snd r)) (email_tokens d) of None \<Rightarrow> None | Some r \<Rightarrow> Some (et_user_id (snd r)),
          d\<lparr>email_tokens := tbl_upd_where (\<lambda>_ t. hit t) (\<lambda>t. t\<lparr>et_used_at := Some now\<rparr>) (email_tokens d)\<rparr>))"

definition prune_email_tokens :: "timestamp \<Rightarrow> db \<Rightarrow> nat \<times> db" where
  "prune_email_tokens older_than d =
     (tbl_count (\<lambda>_ t. et_expires_at t < older_than) (email_tokens d),
      d\<lparr>email_tokens := tbl_del_where (\<lambda>_ t. et_expires_at t < older_than) (email_tokens d)\<rparr>)"

subsection \<open>Devices\<close>

definition create_device_on :: "timestamp \<Rightarrow> uuid \<Rightarrow> uuid \<Rightarrow> string \<Rightarrow> db \<Rightarrow> (user_device \<times> db) result" where
  "create_device_on now fresh user_id device_name d =
     (if tbl_get (users d) user_id = None then Inl foreign_key_violation
      else if tbl_get (user_devices d) fresh \<noteq> None then Inl unique_violation
      else let dev = \<lparr>d_id = fresh, d_user_id = user_id, d_device_name = device_name,
                      d_created_at = now, d_last_seen_at = None\<rparr>
        in Inr (dev, d\<lparr>user_devices := tbl_put fresh dev (user_devices d)\<rparr>))"

definition get_device :: "uuid \<Rightarrow> db \<Rightarrow> user_device option" where
  "get_device device_id d = tbl_get (user_devices d) device_id"

definition list_devices_by_user :: "uuid \<Rightarrow> db \<Rightarrow> user_device list" where
  "list_devices_by_user user_id d =
     sort_key d_created_at (tbl_select (\<lambda>_ r. d_user_id r = user_id) (user_devices d))"

text \<open>Deleting a device deletes its cursor (\<open>ON DELETE CASCADE\<close>).\<close>

definition drop_devices :: "(uuid \<Rightarrow> user_device \<Rightarrow> bool) \<Rightarrow> db \<Rightarrow> nat \<times> db" where
  "drop_devices P d =
     (tbl_count P (user_devices d),
      d\<lparr>user_devices := tbl_del_where P (user_devices d),
        device_cursors := tbl_del_where (\<lambda>k _. \<exists>r\<in>set (user_devices d). fst r = k \<and> P k (snd r))
          (device_cursors d)\<rparr>)"

definition delete_device_row :: "uuid \<Rightarrow> uuid \<Rightarrow> db \<Rightarrow> bool \<times> db" where
  "delete_device_row device_id user_id d =
     (let (n, d') = drop_devices (\<lambda>k r. k = device_id \<and> d_user_id r = user_id) d in (n > 0, d'))"

definition delete_all_device_rows :: "uuid \<Rightarrow> db \<Rightarrow> nat \<times> db" where
  "delete_all_device_rows user_id d = drop_devices (\<lambda>_ r. d_user_id r = user_id) d"

definition touch_device :: "timestamp \<Rightarrow> uuid \<Rightarrow> db \<Rightarrow> db" where
  "touch_device now device_id d =
     d\<lparr>user_devices := tbl_upd device_id (\<lambda>r. r\<lparr>d_last_seen_at := Some now\<rparr>) (user_devices d)\<rparr>"

end
