(* ===== verification/Sharing.thy ===== *)
theory Sharing
  imports Transactions Store_Accounts
begin

text \<open>
  \<open>http.rs\<close>, the handlers that change who may do what: sharing and unsharing notes and
  notebooks, transferring ownership, deleting a note. Each checks the caller's rights on a
  first read and again inside its serializable transaction. The specification is the set of
  rights every user has on every note before and after.
\<close>

unbundle bit_operations_syntax

subsection \<open>Targets and notices\<close>

definition normalize_email :: "app_state \<Rightarrow> string \<Rightarrow> string" where
  "normalize_email app email = app_lower app (trim email)"

record create_share_body =
  sb_user_id :: "uuid option"
  sb_user_email :: "string option"
  sb_capabilities :: i32

record transfer_body =
  tb_user_id :: "uuid option"
  tb_user_email :: "string option"

definition resolve_target :: "app_state \<Rightarrow> uuid option \<Rightarrow> string option \<Rightarrow> db \<Rightarrow> user result" where
  "resolve_target app user_id user_email d =
     (case (user_id, user_email) of
        (Some uid, _) \<Rightarrow> ok_or (get_user_by_id_on uid d) NotFound
      | (None, Some email) \<Rightarrow> ok_or (get_user_by_email_on (normalize_email app email) d) NotFound
      | (None, None) \<Rightarrow> Inl (BadRequest ''user_id or user_email required''))"

record notice =
  nt_kind :: mail_kind
  nt_email :: string
  nt_display_name :: string
  nt_resource_kind :: string
  nt_resource_id :: uuid

text \<open>The notice handed to the mailer, if its recipient still exists.\<close>

definition notify_access_revoked :: "uuid \<Rightarrow> string \<Rightarrow> uuid \<Rightarrow> db \<Rightarrow> notice option" where
  "notify_access_revoked princ resource_kind resource_id d =
     map_option (\<lambda>u. \<lparr>nt_kind = AccessRevoked, nt_email = u_email u, nt_display_name = u_display_name u,
        nt_resource_kind = resource_kind, nt_resource_id = resource_id\<rparr>) (get_user_by_id_on princ d)"

subsection \<open>Notes\<close>

definition note_access :: "app_state \<Rightarrow> authed_user \<Rightarrow> uuid \<Rightarrow> db \<Rightarrow> (note_row \<times> access) result" where
  "note_access app user note_id d =
     res_then (get_note_on (app_store app) note_id d) (\<lambda>found.
     res_then (ok_or found NotFound) (\<lambda>n.
     res_then (resolve_note_access_on (app_scheme app) n (au_user_id user) d) (\<lambda>access.
       Inr (n, access))))"

definition create_share_pre ::
    "app_state \<Rightarrow> authed_user \<Rightarrow> uuid \<Rightarrow> create_share_body \<Rightarrow> db \<Rightarrow> (capabilities \<times> uuid) result" where
  "create_share_pre app user note_id body d =
     res_then (note_access app user note_id d) (\<lambda>(n, access).
       if \<not> acc_can_share_write access then Inl Forbidden
       else
         let requested = from_bits (sb_capabilities body)
         in if bits requested = 0 then Inl (BadRequest ''capabilities must be non-empty'')
            else if bits requested AND bits (acc_caps access) \<noteq> bits requested then Inl Forbidden
            else res_then (resolve_target app (sb_user_id body) (sb_user_email body) d) (\<lambda>target.
              if u_id target = n_owner_id n then Inl (BadRequest ''owner already has access'')
              else Inr (requested, u_id target)))"

definition create_share_tx ::
    "app_state \<Rightarrow> timestamp \<Rightarrow> authed_user \<Rightarrow> uuid \<Rightarrow> capabilities \<Rightarrow> uuid \<Rightarrow> db \<Rightarrow> (note_share \<times> db) result" where
  "create_share_tx app now user note_id requested target_id d =
     res_then (note_access app user note_id d) (\<lambda>(n, access).
       if \<not> acc_can_share_write access \<or> bits requested AND bits (acc_caps access) \<noteq> bits requested
       then Inl Forbidden
       else if target_id = n_owner_id n then Inl (BadRequest ''owner already has access'')
       else res_then (ok_or (get_user_by_id_on target_id d) NotFound) (\<lambda>_.
         create_or_update_share_on now note_id target_id (bits requested) d))"

definition create_share ::
    "app_state \<Rightarrow> world \<Rightarrow> timestamp \<Rightarrow> authed_user \<Rightarrow> uuid \<Rightarrow> create_share_body \<Rightarrow> db \<Rightarrow>
     note_share result \<times> db" where
  "create_share app w now user note_id body d =
     (case create_share_pre app user note_id body d of
        Inl e \<Rightarrow> (Inl e, d)
      | Inr (requested, target_id) \<Rightarrow>
          serializable w (create_share_tx app now user note_id requested target_id) d)"

definition list_shares :: "app_state \<Rightarrow> authed_user \<Rightarrow> uuid \<Rightarrow> db \<Rightarrow> note_share list result" where
  "list_shares app user note_id d =
     res_then (note_access app user note_id d) (\<lambda>(n, access).
       if \<not> can_share_read (acc_caps access) then Inl Forbidden else Inr (list_shares_of note_id d))"

definition delete_share_tx ::
    "app_state \<Rightarrow> authed_user \<Rightarrow> uuid \<Rightarrow> uuid \<Rightarrow> db \<Rightarrow> (bool \<times> db) result" where
  "delete_share_tx app user note_id target_id d =
     res_then (note_access app user note_id d) (\<lambda>(n, access).
       if \<not> acc_can_share_write access \<and> target_id \<noteq> au_user_id user then Inl Forbidden
       else Inr (delete_share_on note_id target_id d))"

definition delete_share ::
    "app_state \<Rightarrow> world \<Rightarrow> authed_user \<Rightarrow> uuid \<Rightarrow> uuid \<Rightarrow> db \<Rightarrow> notice option result \<times> db" where
  "delete_share app w user note_id target_id d =
     (case note_access app user note_id d of
        Inl e \<Rightarrow> (Inl e, d)
      | Inr (n, access) \<Rightarrow>
          if \<not> acc_can_share_write access \<and> target_id \<noteq> au_user_id user then (Inl Forbidden, d)
          else case serializable w (delete_share_tx app user note_id target_id) d of
            (Inl e, d') \<Rightarrow> (Inl e, d')
          | (Inr deleted, d') \<Rightarrow>
              (Inr (if deleted \<and> target_id \<noteq> au_user_id user
                    then notify_access_revoked target_id ''note'' note_id d' else None), d'))"

definition transfer_ownership_tx ::
    "app_state \<Rightarrow> timestamp \<Rightarrow> authed_user \<Rightarrow> uuid \<Rightarrow> uuid \<Rightarrow> db \<Rightarrow> (note_row \<times> db) result" where
  "transfer_ownership_tx app now user note_id target_id d =
     res_then (note_access app user note_id d) (\<lambda>(n, access).
       if \<not> can_transfer_ownership access then Inl Forbidden
       else res_then (ok_or (get_user_by_id_on target_id d) NotFound) (\<lambda>_.
         res_then (set_note_owner_on (app_store app) now note_id target_id
             (snd (delete_share_on note_id target_id d))) (\<lambda>(out, d').
           res_then (ok_or out NotFound) (\<lambda>n'. Inr (n', d')))))"

definition transfer_ownership ::
    "app_state \<Rightarrow> world \<Rightarrow> timestamp \<Rightarrow> authed_user \<Rightarrow> uuid \<Rightarrow> transfer_body \<Rightarrow> db \<Rightarrow> note_row result \<times> db" where
  "transfer_ownership app w now user note_id body d =
     (case note_access app user note_id d of
        Inl e \<Rightarrow> (Inl e, d)
      | Inr (n, access) \<Rightarrow>
          if \<not> can_transfer_ownership access then (Inl Forbidden, d)
          else case resolve_target app (tb_user_id body) (tb_user_email body) d of
            Inl e \<Rightarrow> (Inl e, d)
          | Inr target \<Rightarrow>
              serializable w (transfer_ownership_tx app now user note_id (u_id target)) d)"

definition delete_note_tx ::
    "app_state \<Rightarrow> timestamp \<Rightarrow> authed_user \<Rightarrow> uuid \<Rightarrow> db \<Rightarrow> (note_row \<times> db) result" where
  "delete_note_tx app now user note_id d =
     res_then (note_access app user note_id d) (\<lambda>(n, access).
       if \<not> can_delete access then Inl Forbidden
       else res_then (soft_delete_note_on (app_store app) now note_id d) (\<lambda>(out, d').
         res_then (ok_or out NotFound) (\<lambda>n'. Inr (n', d'))))"

definition delete_note ::
    "app_state \<Rightarrow> world \<Rightarrow> timestamp \<Rightarrow> authed_user \<Rightarrow> uuid \<Rightarrow> db \<Rightarrow> note_row result \<times> db" where
  "delete_note app w now user note_id d =
     (case note_access app user note_id d of
        Inl e \<Rightarrow> (Inl e, d)
      | Inr (n, access) \<Rightarrow>
          if \<not> can_delete access then (Inl Forbidden, d)
          else serializable w (delete_note_tx app now user note_id) d)"

subsection \<open>Notebooks\<close>

definition create_notebook_share_pre ::
    "app_state \<Rightarrow> authed_user \<Rightarrow> uuid \<Rightarrow> create_share_body \<Rightarrow> db \<Rightarrow> (capabilities \<times> uuid) result" where
  "create_notebook_share_pre app user notebook_id body d =
     res_then (resolve_notebook_access_on notebook_id (au_user_id user) d) (\<lambda>access.
       if \<not> acc_can_share_write access then Inl Forbidden
       else
         let requested = from_bits (sb_capabilities body)
         in if bits requested = 0 then Inl (BadRequest ''capabilities must be non-empty'')
            else if bits requested AND bits (acc_caps access) \<noteq> bits requested then Inl Forbidden
            else res_then (resolve_target app (sb_user_id body) (sb_user_email body) d) (\<lambda>target.
              res_then (ok_or (notebook_owner_on notebook_id d) NotFound) (\<lambda>owner.
                if u_id target = owner then Inl (BadRequest ''owner already has access'')
                else Inr (requested, u_id target))))"

definition create_notebook_share_tx ::
    "timestamp \<Rightarrow> authed_user \<Rightarrow> uuid \<Rightarrow> capabilities \<Rightarrow> uuid \<Rightarrow> db \<Rightarrow> (notebook_share \<times> db) result" where
  "create_notebook_share_tx now user notebook_id requested target_id d =
     res_then (resolve_notebook_access_on notebook_id (au_user_id user) d) (\<lambda>access.
       if \<not> acc_can_share_write access \<or> bits requested AND bits (acc_caps access) \<noteq> bits requested
       then Inl Forbidden
       else res_then (ok_or (notebook_owner_on notebook_id d) NotFound) (\<lambda>owner.
         if target_id = owner then Inl (BadRequest ''owner already has access'')
         else res_then (ok_or (get_user_by_id_on target_id d) NotFound) (\<lambda>_.
           create_or_update_notebook_share_on now notebook_id target_id (bits requested) d)))"

definition create_notebook_share ::
    "app_state \<Rightarrow> world \<Rightarrow> timestamp \<Rightarrow> authed_user \<Rightarrow> uuid \<Rightarrow> create_share_body \<Rightarrow> db \<Rightarrow>
     notebook_share result \<times> db" where
  "create_notebook_share app w now user notebook_id body d =
     (case create_notebook_share_pre app user notebook_id body d of
        Inl e \<Rightarrow> (Inl e, d)
      | Inr (requested, target_id) \<Rightarrow>
          serializable w (create_notebook_share_tx now user notebook_id requested target_id) d)"

definition list_notebook_shares :: "authed_user \<Rightarrow> uuid \<Rightarrow> db \<Rightarrow> notebook_share list result" where
  "list_notebook_shares user notebook_id d =
     res_then (resolve_notebook_access_on notebook_id (au_user_id user) d) (\<lambda>access.
       if \<not> can_share_read (acc_caps access) then Inl Forbidden
       else Inr (list_notebook_shares_of notebook_id d))"

definition delete_notebook_share_tx :: "authed_user \<Rightarrow> uuid \<Rightarrow> uuid \<Rightarrow> db \<Rightarrow> (bool \<times> db) result" where
  "delete_notebook_share_tx user notebook_id target_id d =
     res_then (resolve_notebook_access_on notebook_id (au_user_id user) d) (\<lambda>access.
       if \<not> acc_can_share_write access \<and> target_id \<noteq> au_user_id user then Inl Forbidden
       else Inr (delete_notebook_share_on notebook_id target_id d))"

definition delete_notebook_share ::
    "world \<Rightarrow> authed_user \<Rightarrow> uuid \<Rightarrow> uuid \<Rightarrow> db \<Rightarrow> notice option result \<times> db" where
  "delete_notebook_share w user notebook_id target_id d =
     (case resolve_notebook_access_on notebook_id (au_user_id user) d of
        Inl e \<Rightarrow> (Inl e, d)
      | Inr access \<Rightarrow>
          if \<not> acc_can_share_write access \<and> target_id \<noteq> au_user_id user then (Inl Forbidden, d)
          else case serializable w (delete_notebook_share_tx user notebook_id target_id) d of
            (Inl e, d') \<Rightarrow> (Inl e, d')
          | (Inr deleted, d') \<Rightarrow>
              (Inr (if deleted \<and> target_id \<noteq> au_user_id user
                    then notify_access_revoked target_id ''notebook'' notebook_id d' else None), d'))"

definition transfer_notebook_tx ::
    "timestamp \<Rightarrow> authed_user \<Rightarrow> uuid \<Rightarrow> uuid \<Rightarrow> db \<Rightarrow> (unit \<times> db) result" where
  "transfer_notebook_tx now user notebook_id target_id d =
     res_then (resolve_notebook_access_on notebook_id (au_user_id user) d) (\<lambda>access.
       if \<not> can_transfer_ownership access then Inl Forbidden
       else res_then (ok_or (get_user_by_id_on target_id d) NotFound) (\<lambda>_.
         res_then (set_notebook_owner_on now notebook_id target_id d) (\<lambda>(out, d1).
           res_then (ok_or out NotFound) (\<lambda>_.
             Inr ((), snd (delete_notebook_share_on notebook_id target_id d1))))))"

definition transfer_notebook ::
    "app_state \<Rightarrow> world \<Rightarrow> timestamp \<Rightarrow> authed_user \<Rightarrow> uuid \<Rightarrow> transfer_body \<Rightarrow> db \<Rightarrow> uuid result \<times> db" where
  "transfer_notebook app w now user notebook_id body d =
     (case resolve_notebook_access_on notebook_id (au_user_id user) d of
        Inl e \<Rightarrow> (Inl e, d)
      | Inr access \<Rightarrow>
          if \<not> can_transfer_ownership access then (Inl Forbidden, d)
          else case resolve_target app (tb_user_id body) (tb_user_email body) d of
            Inl e \<Rightarrow> (Inl e, d)
          | Inr target \<Rightarrow>
              (case serializable w (transfer_notebook_tx now user notebook_id (u_id target)) d of
                 (Inl e, d') \<Rightarrow> (Inl e, d')
               | (Inr _, d') \<Rightarrow> (Inr (u_id target), d')))"

end
