(* ===== verification/Sharing_Rights.thy ===== *)
theory Sharing_Rights
  imports Sharing
begin

text \<open>
  What the sharing handlers do to the rights of every user on every note and notebook, as
  seen by the access resolution. Stated for the database the successful attempt ran on,
  whatever other transactions committed before it.
\<close>

definition rights :: "db \<Rightarrow> uuid \<Rightarrow> uuid \<Rightarrow> cap set" where
  "rights d note_id u = (case live_note d note_id of None \<Rightarrow> {} | Some n \<Rightarrow> note_caps n u d)"

definition owner_of :: "db \<Rightarrow> uuid \<Rightarrow> uuid option" where
  "owner_of d note_id = map_option n_owner_id (live_note d note_id)"

text \<open>A row of \<open>notes\<close> carries its own primary key.\<close>

definition notes_keyed :: "db \<Rightarrow> bool" where
  "notes_keyed d \<longleftrightarrow> (\<forall>k n. tbl_get (notes_tbl d) k = Some n \<longrightarrow> n_id n = k)"

lemma notes_keyed_live: "notes_keyed d \<Longrightarrow> live_note d k = Some n \<Longrightarrow> n_id n = k"
  by (auto simp: notes_keyed_def live_note_def split: option.splits if_splits)

lemma get_note_on_Some:
  assumes "get_note_on st k d = Inr (Some n)"
  obtains n0 t where "live_note d k = Some n0" "n = n0\<lparr>n_title := t\<rparr>"
  using assms by (auto simp: get_note_on_def decrypt_note_title_def res_simps split: option.splits)

lemma note_caps_title [simp]: "note_caps (n\<lparr>n_title := t\<rparr>) u d = note_caps n u d"
  by (simp add: note_caps_def)

lemma note_access_rights:
  assumes "note_access app user note_id d = Inr (n, a)"
  shows "cap_set (bits (acc_caps a)) = rights d note_id (au_user_id user)"
    and "is_owner a \<longleftrightarrow> owner_of d note_id = Some (au_user_id user)"
    and "owner_of d note_id = Some (n_owner_id n)"
proof -
  from assms have g: "get_note_on (app_store app) note_id d = Inr (Some n)"
    and r: "resolve_note_access_on (app_scheme app) n (au_user_id user) d = Inr a"
    by (auto simp: note_access_def res_simps)
  from g obtain n0 t where n0: "live_note d note_id = Some n0" "n = n0\<lparr>n_title := t\<rparr>"
    by (rule get_note_on_Some)
  then show "cap_set (bits (acc_caps a)) = rights d note_id (au_user_id user)"
    using resolve_note_access_Inr [OF r] by (simp add: rights_def)
  show "is_owner a \<longleftrightarrow> owner_of d note_id = Some (au_user_id user)"
    and "owner_of d note_id = Some (n_owner_id n)"
    using resolve_note_access_owner [OF r] n0 by (simp_all add: owner_of_def)
qed

lemma owner_rights: "owner_of d k = Some u \<Longrightarrow> rights d k u = UNIV"
  by (auto simp: owner_of_def rights_def note_caps_def)

lemma from_bits_caps_ok [simp]: "caps_ok (bits (from_bits b))"
  by simp

subsection \<open>Frames: what a write to one table does to the rights\<close>

lemma direct_caps_put_share:
  "direct_caps m v (d\<lparr>note_shares := tbl_put (k, t) s (note_shares d)\<rparr>) =
     (if m = k \<and> v = t then cap_closure (cap_set (s_capabilities s)) else direct_caps m v d)"
  by (simp add: direct_caps_def get_share_on_def)

lemma direct_caps_del_share:
  "direct_caps m v (d\<lparr>note_shares := tbl_del (k, t) (note_shares d)\<rparr>) =
     (if m = k \<and> v = t then {} else direct_caps m v d)"
  by (simp add: direct_caps_def get_share_on_def)

lemma notebook_query_frame [simp]:
  "notebook_owner_on nb (d\<lparr>note_shares := x\<rparr>) = notebook_owner_on nb d"
  "notebook_owner_on nb (d\<lparr>notes_tbl := y\<rparr>) = notebook_owner_on nb d"
  "notebook_owner_on nb (d\<lparr>resources := z\<rparr>) = notebook_owner_on nb d"
  "get_notebook_share_on nb v (d\<lparr>note_shares := x\<rparr>) = get_notebook_share_on nb v d"
  "get_notebook_share_on nb v (d\<lparr>notes_tbl := y\<rparr>) = get_notebook_share_on nb v d"
  "get_notebook_share_on nb v (d\<lparr>resources := z\<rparr>) = get_notebook_share_on nb v d"
  by (auto simp: notebook_owner_on_def get_notebook_share_on_def live_notebook_def split: option.splits)

lemma notebook_caps_frame [simp]:
  "notebook_caps nb v (d\<lparr>note_shares := x\<rparr>) = notebook_caps nb v d"
  "notebook_caps nb v (d\<lparr>notes_tbl := y\<rparr>) = notebook_caps nb v d"
  "notebook_caps nb v (d\<lparr>resources := z\<rparr>) = notebook_caps nb v d"
  unfolding notebook_caps_def notebook_query_frame by (rule refl)+

lemma inherited_caps_frame [simp]:
  "inherited_caps nb v (d\<lparr>note_shares := x\<rparr>) = inherited_caps nb v d"
  "inherited_caps nb v (d\<lparr>notes_tbl := y\<rparr>) = inherited_caps nb v d"
  "inherited_caps nb v (d\<lparr>resources := z\<rparr>) = inherited_caps nb v d"
  unfolding inherited_caps_def notebook_caps_frame by (rule refl)+

lemma live_note_frame [simp]:
  "live_note (d\<lparr>note_shares := x\<rparr>) m = live_note d m"
  "live_note (d\<lparr>resources := z\<rparr>) m = live_note d m"
  by (simp_all add: live_note_def)

lemma direct_caps_frame [simp]:
  "direct_caps m v (d\<lparr>notes_tbl := y\<rparr>) = direct_caps m v d"
  "direct_caps m v (d\<lparr>resources := z\<rparr>) = direct_caps m v d"
  by (simp_all add: direct_caps_def get_share_on_def)

lemma rights_put_share:
  assumes "notes_keyed d" and "live_note d k = Some n" and "n_owner_id n \<noteq> t"
  shows "rights (d\<lparr>note_shares := tbl_put (k, t) s (note_shares d)\<rparr>) m v =
    (if m = k \<and> v = t then cap_closure (cap_set (s_capabilities s)) \<union> inherited_caps (n_notebook_id n) t d
     else rights d m v)"
  using assms notes_keyed_live [OF assms(1)]
  by (auto simp: rights_def note_caps_def direct_caps_put_share split: option.splits)

lemma rights_del_share:
  assumes "notes_keyed d"
  shows "rights (d\<lparr>note_shares := tbl_del (k, t) (note_shares d)\<rparr>) m v =
    (if m = k \<and> v = t
     then (case live_note d k of None \<Rightarrow> {} | Some n \<Rightarrow>
       if n_owner_id n = t then UNIV else inherited_caps (n_notebook_id n) t d)
     else rights d m v)"
  using notes_keyed_live [OF assms]
  by (auto simp: rights_def note_caps_def direct_caps_del_share split: option.splits)

lemma cap_set_create_share:
  "create_or_update_share_on now k t c d = Inr (s, d') \<Longrightarrow>
   s_capabilities s = c \<and> d' = d\<lparr>note_shares := tbl_put (k, t) s (note_shares d)\<rparr>"
  by (auto simp: create_or_update_share_on_def Let_def split: option.splits if_splits)

subsection \<open>Transactions\<close>

lemma create_share_tx_rights:
  assumes "create_share_tx app now user k (from_bits b) t d = Inr (s, d')" and "notes_keyed d"
  shows "ShareWrite \<in> rights d k (au_user_id user)"
    and "cap_closure (cap_set b) \<subseteq> rights d k (au_user_id user)"
    and "owner_of d k \<noteq> Some t" and "get_user_by_id_on t d \<noteq> None"
    and "rights d' m v = (if m = k \<and> v = t
      then cap_closure (cap_set b) \<union> (case live_note d k of None \<Rightarrow> {} | Some n \<Rightarrow> inherited_caps (n_notebook_id n) t d)
      else rights d m v)"
proof -
  from assms(1) obtain n a where acc: "note_access app user k d = Inr (n, a)"
    and guard: "acc_can_share_write a" "bits (from_bits b) AND bits (acc_caps a) = bits (from_bits b)"
      "t \<noteq> n_owner_id n" "get_user_by_id_on t d \<noteq> None"
    and wr: "create_or_update_share_on now k t (bits (from_bits b)) d = Inr (s, d')"
    by (auto simp: create_share_tx_def res_simps split: if_splits)
  note r = note_access_rights [OF acc]
  show "ShareWrite \<in> rights d k (au_user_id user)"
    using guard(1) r(1) by (simp add: acc_can_share_write_def)
  show "cap_closure (cap_set b) \<subseteq> rights d k (au_user_id user)"
    using guard(2) r(1) request_subset_iff [OF from_bits_caps_ok, of b "bits (acc_caps a)"] by simp
  show "owner_of d k \<noteq> Some t" using guard(3) r(3) by simp
  show "get_user_by_id_on t d \<noteq> None" by (rule guard(4))
  from r(3) obtain n0 where n0: "live_note d k = Some n0" "n_owner_id n0 = n_owner_id n"
    by (auto simp: owner_of_def)
  show "rights d' m v = (if m = k \<and> v = t
      then cap_closure (cap_set b) \<union> (case live_note d k of None \<Rightarrow> {} | Some n \<Rightarrow> inherited_caps (n_notebook_id n) t d)
      else rights d m v)"
    using cap_set_create_share [OF wr] rights_put_share [OF assms(2) n0(1), of t s m v] guard(3) n0
    by simp
qed

lemma delete_share_tx_rights:
  assumes "delete_share_tx app user k t d = Inr (del, d')" and "notes_keyed d"
  shows "ShareWrite \<in> rights d k (au_user_id user) \<or> t = au_user_id user"
    and "rights d' m v = (if m = k \<and> v = t
      then (case live_note d k of None \<Rightarrow> {} | Some n \<Rightarrow>
        if n_owner_id n = t then UNIV else inherited_caps (n_notebook_id n) t d)
      else rights d m v)"
proof -
  from assms(1) obtain n a where acc: "note_access app user k d = Inr (n, a)"
    and guard: "acc_can_share_write a \<or> t = au_user_id user"
    and d': "d' = d\<lparr>note_shares := tbl_del (k, t) (note_shares d)\<rparr>"
    by (auto simp: delete_share_tx_def res_simps delete_share_on_def split: if_splits)
  show "ShareWrite \<in> rights d k (au_user_id user) \<or> t = au_user_id user"
    using guard note_access_rights(1) [OF acc] by (simp add: acc_can_share_write_def)
  show "rights d' m v = (if m = k \<and> v = t
      then (case live_note d k of None \<Rightarrow> {} | Some n \<Rightarrow>
        if n_owner_id n = t then UNIV else inherited_caps (n_notebook_id n) t d)
      else rights d m v)"
    unfolding d' by (rule rights_del_share [OF assms(2)])
qed


lemma live_note_put:
  "live_note (d\<lparr>notes_tbl := tbl_put k n (notes_tbl d)\<rparr>) m =
     (if m = k then (if n_deleted_at n = None then Some n else None) else live_note d m)"
  by (simp add: live_note_def)

lemma rights_put_note:
  "rights (d\<lparr>notes_tbl := tbl_put k n (notes_tbl d)\<rparr>) m v =
     (if m = k then (if n_deleted_at n = None then note_caps n v d else {}) else rights d m v)"
  by (auto simp: rights_def live_note_put note_caps_def split: option.splits)

lemma live_note_live: "live_note d k = Some n \<Longrightarrow> n_deleted_at n = None"
  by (auto simp: live_note_def split: option.splits if_splits)

lemma transfer_tx_rights:
  assumes "transfer_ownership_tx app now user k t d = Inr (n', d')" and "notes_keyed d"
  shows "owner_of d k = Some (au_user_id user)" and "owner_of d' k = Some t"
    and "m \<noteq> k \<or> (v \<noteq> t \<and> v \<noteq> au_user_id user) \<Longrightarrow> rights d' m v = rights d m v"
    and "m \<noteq> k \<Longrightarrow> owner_of d' m = owner_of d m"
    and "v \<noteq> t \<Longrightarrow> rights d' k v =
      (case live_note d k of None \<Rightarrow> {} | Some n \<Rightarrow> direct_caps k v d \<union> inherited_caps (n_notebook_id n) v d)"
proof -
  from assms(1) obtain n a where acc: "note_access app user k d = Inr (n, a)" and own: "is_owner a"
    by (auto simp: transfer_ownership_tx_def res_simps can_transfer_ownership_def split: if_splits)
  note r = note_access_rights [OF acc]
  then obtain n0 where n0: "live_note d k = Some n0" "n_owner_id n0 = au_user_id user"
    using own by (auto simp: owner_of_def)
  let ?d1 = "d\<lparr>note_shares := tbl_del (k, t) (note_shares d)\<rparr>"
  let ?n1 = "n0\<lparr>n_owner_id := t, n_updated_at := now\<rparr>"
  have d': "d' = ?d1\<lparr>notes_tbl := tbl_put k ?n1 (notes_tbl ?d1)\<rparr>"
    using assms(1) acc n0(1)
    by (auto simp: transfer_ownership_tx_def res_simps delete_share_on_def set_note_owner_on_def
        Let_def split: if_splits)
  have live: "n_deleted_at ?n1 = None" using live_note_live [OF n0(1)] by simp
  have id: "n_id n0 = k" using notes_keyed_live [OF assms(2) n0(1)] .
  show "owner_of d k = Some (au_user_id user)" using n0 by (simp add: owner_of_def)
  show "owner_of d' k = Some t" unfolding d' owner_of_def live_note_put using live by simp
  show "owner_of d' m = owner_of d m" if "m \<noteq> k"
    unfolding d' owner_of_def live_note_put using that by simp
  show k: "rights d' k v =
      (case live_note d k of None \<Rightarrow> {} | Some n \<Rightarrow> direct_caps k v d \<union> inherited_caps (n_notebook_id n) v d)"
    if "v \<noteq> t" for v
    unfolding d' rights_put_note using that live n0(1) id
    by (simp add: note_caps_def direct_caps_del_share)
  show "rights d' m v = rights d m v" if "m \<noteq> k \<or> (v \<noteq> t \<and> v \<noteq> au_user_id user)"
  proof (cases "m = k")
    case True
    with that k [of v] n0 id show ?thesis by (simp add: rights_def note_caps_def)
  next
    case False
    then show ?thesis unfolding d' rights_put_note using rights_del_share [OF assms(2), of k t m v] by simp
  qed
qed

lemma delete_note_tx_rights:
  assumes "delete_note_tx app now user k d = Inr (n', d')"
  shows "owner_of d k = Some (au_user_id user)" and "live_note d' k = None"
    and "m \<noteq> k \<Longrightarrow> rights d' m v = rights d m v"
    and "tbl_get (resources d') i = Some r \<Longrightarrow> r_note_id r = k \<Longrightarrow> r_deleted_at r \<noteq> None"
proof -
  from assms obtain n a where acc: "note_access app user k d = Inr (n, a)" and own: "is_owner a"
    by (auto simp: delete_note_tx_def res_simps can_delete_def split: if_splits)
  note r = note_access_rights [OF acc]
  then obtain n0 where n0: "live_note d k = Some n0" "n_owner_id n0 = au_user_id user"
    using own by (auto simp: owner_of_def)
  let ?n1 = "n0\<lparr>n_deleted_at := Some now, n_updated_at := now\<rparr>"
  have d': "d' = cascade_resources_note_deleted k now (d\<lparr>notes_tbl := tbl_put k ?n1 (notes_tbl d)\<rparr>)"
    using assms acc n0(1)
    by (auto simp: delete_note_tx_def res_simps soft_delete_note_on_def Let_def split: if_splits)
  show "owner_of d k = Some (au_user_id user)" using n0 by (simp add: owner_of_def)
  show "live_note d' k = None"
    unfolding d' cascade_resources_note_deleted_def live_note_frame live_note_put by simp
  show "rights d' m v = rights d m v" if "m \<noteq> k"
  proof -
    have "rights (e\<lparr>resources := z\<rparr>) m v = rights e m v" for e z
      by (simp add: rights_def note_caps_def split: option.split)
    then have "rights d' m v = rights (d\<lparr>notes_tbl := tbl_put k ?n1 (notes_tbl d)\<rparr>) m v"
      unfolding d' cascade_resources_note_deleted_def .
    also have "\<dots> = rights d m v" unfolding rights_put_note using that by simp
    finally show ?thesis .
  qed
  show "r_deleted_at r \<noteq> None" if "tbl_get (resources d') i = Some r" "r_note_id r = k"
  proof -
    from that(1) obtain r0 where
      "r = (if r_note_id r0 = k \<and> r_deleted_at r0 = None then r0\<lparr>r_deleted_at := Some now\<rparr> else r0)"
      unfolding d' cascade_resources_note_deleted_def by (simp add: tbl_get_upd_where) blast
    with that(2) show ?thesis by (cases "r_note_id r0 = k \<and> r_deleted_at r0 = None") auto
  qed
qed


subsection \<open>Notebooks\<close>

lemma notebook_put_share:
  assumes "live_notebook d nb \<noteq> None" and "notebook_owner_on nb d \<noteq> Some t"
  shows "notebook_caps m v (d\<lparr>notebook_shares := tbl_put (nb, t) s (notebook_shares d)\<rparr>) =
    (if m = nb \<and> v = t then cap_closure (cap_set (nbs_capabilities s)) else notebook_caps m v d)"
  using assms
  by (auto simp: notebook_caps_def notebook_owner_on_def get_notebook_share_on_def live_notebook_def
      split: option.splits if_splits)

lemma create_notebook_share_tx_rights:
  assumes "create_notebook_share_tx now user nb (from_bits b) t d = Inr (s, d')"
  shows "ShareWrite \<in> notebook_caps nb (au_user_id user) d"
    and "cap_closure (cap_set b) \<subseteq> notebook_caps nb (au_user_id user) d"
    and "notebook_owner_on nb d \<noteq> Some t"
    and "notebook_caps m v d' = (if m = nb \<and> v = t then cap_closure (cap_set b) else notebook_caps m v d)"
    and "\<exists>sh. d' = d\<lparr>notebook_shares := sh\<rparr>"
proof -
  from assms obtain a ow where acc: "resolve_notebook_access_on nb (au_user_id user) d = Inr a"
    and guard: "acc_can_share_write a" "bits (from_bits b) AND bits (acc_caps a) = bits (from_bits b)"
    and ow: "notebook_owner_on nb d = Some ow" "t \<noteq> ow"
    and wr: "create_or_update_notebook_share_on now nb t (bits (from_bits b)) d = Inr (s, d')"
    by (auto simp: create_notebook_share_tx_def res_simps split: if_splits)
  note r = resolve_notebook_access_Inr(1) [OF acc]
  show "ShareWrite \<in> notebook_caps nb (au_user_id user) d"
    using guard(1) r by (simp add: acc_can_share_write_def)
  show "cap_closure (cap_set b) \<subseteq> notebook_caps nb (au_user_id user) d"
    using guard(2) r request_subset_iff [OF from_bits_caps_ok, of b "bits (acc_caps a)"] by simp
  show own: "notebook_owner_on nb d \<noteq> Some t" using ow by simp
  have d': "d' = d\<lparr>notebook_shares := tbl_put (nb, t) s (notebook_shares d)\<rparr>"
    and c: "nbs_capabilities s = bits (from_bits b)"
    using wr by (auto simp: create_or_update_notebook_share_on_def Let_def split: option.splits if_splits)
  then show "\<exists>sh. d' = d\<lparr>notebook_shares := sh\<rparr>" by blast
  from ow have "live_notebook d nb \<noteq> None" by (auto simp: notebook_owner_on_def)
  from notebook_put_share [OF this own, of m v s] show
    "notebook_caps m v d' = (if m = nb \<and> v = t then cap_closure (cap_set b) else notebook_caps m v d)"
    unfolding d' by (simp add: c)
qed

lemma rights_of_notebook_change:
  assumes "\<And>m v. notebook_caps m v (d\<lparr>notebook_shares := sh\<rparr>) = notebook_caps m v d \<or> m = nb \<and> v = t"
  shows "rights (d\<lparr>notebook_shares := sh\<rparr>) m v \<subseteq> rights d m v \<union> {Read, Write}"
    and "v \<noteq> t \<Longrightarrow> rights (d\<lparr>notebook_shares := sh\<rparr>) m v = rights d m v"
proof -
  let ?d = "d\<lparr>notebook_shares := sh\<rparr>"
  have f: "live_note ?d m = live_note d m" "direct_caps i u ?d = direct_caps i u d" for i u
    by (simp_all add: live_note_def direct_caps_def get_share_on_def)
  show "rights ?d m v \<subseteq> rights d m v \<union> {Read, Write}"
    using inherited_caps_bound [of _ v ?d] by (auto simp: rights_def note_caps_def f split: option.splits)
  have "v \<noteq> t \<Longrightarrow> inherited_caps nbo v ?d = inherited_caps nbo v d" for nbo
    using assms by (auto simp: inherited_caps_def split: option.split)
  then show "v \<noteq> t \<Longrightarrow> rights ?d m v = rights d m v"
    by (simp add: rights_def note_caps_def f split: option.split)
qed

subsection \<open>Properties\<close>

text \<open>
  C1: sharing never escalates. When \<open>create_share\<close> succeeds, the caller held the right to
  share at the moment of the write, the target receives only rights the caller had then
  (besides what the target already had), the owner's rights are not shadowed by a share,
  and no other user's rights on any note change.
\<close>

theorem create_share_no_escalation:
  assumes "create_share app w now user note_id body d = (Inr share, d')"
    and "\<And>k. k < 3 \<Longrightarrow> notes_keyed (seen w k d)"
  shows "\<exists>k<3. \<exists>t. let d0 = seen w k d; granted = cap_closure (cap_set (sb_capabilities body)) in
    ShareWrite \<in> rights d0 note_id (au_user_id user)
    \<and> granted \<noteq> {} \<and> granted \<subseteq> rights d0 note_id (au_user_id user)
    \<and> owner_of d0 note_id \<noteq> Some t
    \<and> granted \<subseteq> rights d' note_id t
    \<and> rights d' note_id t \<subseteq> granted \<union> rights d0 note_id t
    \<and> (\<forall>m v. (m, v) \<noteq> (note_id, t) \<longrightarrow> rights d' m v = rights d0 m v)"
proof -
  let ?b = "sb_capabilities body" and ?u = "au_user_id user"
  from assms(1) obtain t where
    tx: "serializable w (create_share_tx app now user note_id (from_bits ?b) t) d = (Inr share, d')"
    and nz: "bits (from_bits ?b) \<noteq> 0"
    by (auto simp: create_share_def create_share_pre_def res_simps Let_def split: sum.splits if_splits)
  from tx obtain k where k: "k < 3"
    "create_share_tx app now user note_id (from_bits ?b) t (seen w k d) = Inr (share, d')"
    by (rule serializable_Inr)
  note r = create_share_tx_rights [OF k(2) assms(2) [OF k(1)]]
  have "cap_closure (cap_set ?b) \<noteq> {}"
    using nz bits_zero_iff [OF from_bits_caps_ok, of ?b] by simp
  moreover have "rights d' note_id t \<subseteq> cap_closure (cap_set ?b) \<union> rights (seen w k d) note_id t"
    unfolding r(5) [of note_id t] using r(3)
    by (auto simp: rights_def note_caps_def split: option.splits)
  moreover have "cap_closure (cap_set ?b) \<subseteq> rights d' note_id t"
    unfolding r(5) [of note_id t] by auto
  moreover have "rights d' m v = rights (seen w k d) m v" if "(m, v) \<noteq> (note_id, t)" for m v
    unfolding r(5) [of m v] using that by auto
  ultimately show ?thesis using k(1) r(1-3) unfolding Let_def by blast
qed

text \<open>
  C26: revoking. When \<open>delete_share\<close> succeeds, the caller could share the note or gave up a
  share of their own; the target keeps exactly what the notebook confers (the owner keeps
  everything), and no other user's rights change.
\<close>

theorem delete_share_revokes:
  assumes "delete_share app w user note_id target_id d = (Inr mail, d')"
    and "\<And>k. k < 3 \<Longrightarrow> notes_keyed (seen w k d)"
  shows "\<exists>k<3. let d0 = seen w k d in
    (ShareWrite \<in> rights d0 note_id (au_user_id user) \<or> target_id = au_user_id user)
    \<and> rights d' note_id target_id = (case live_note d0 note_id of None \<Rightarrow> {} | Some n \<Rightarrow>
        if n_owner_id n = target_id then UNIV else inherited_caps (n_notebook_id n) target_id d0)
    \<and> (\<forall>m v. (m, v) \<noteq> (note_id, target_id) \<longrightarrow> rights d' m v = rights d0 m v)"
proof -
  from assms(1) obtain del where
    "serializable w (delete_share_tx app user note_id target_id) d = (Inr del, d')"
    by (auto simp: delete_share_def split: sum.splits if_splits prod.splits)
  then obtain k where k: "k < 3" "delete_share_tx app user note_id target_id (seen w k d) = Inr (del, d')"
    by (rule serializable_Inr)
  note r = delete_share_tx_rights [OF k(2) assms(2) [OF k(1)]]
  have "rights d' m v = rights (seen w k d) m v" if "(m, v) \<noteq> (note_id, target_id)" for m v
    unfolding r(2) [of m v] using that by auto
  with k(1) r(1) r(2) [of note_id target_id] show ?thesis unfolding Let_def by auto
qed


text \<open>
  C36: only the owner deletes a note; afterwards nobody has any right on it, its resources
  are tombstoned and every other note is as before.
\<close>

theorem delete_note_effect:
  assumes "delete_note app w now user note_id d = (Inr n', d')"
  shows "\<exists>k<3. let d0 = seen w k d in
    owner_of d0 note_id = Some (au_user_id user)
    \<and> (\<forall>v. rights d' note_id v = {})
    \<and> (\<forall>m v. m \<noteq> note_id \<longrightarrow> rights d' m v = rights d0 m v)
    \<and> (\<forall>i r. tbl_get (resources d') i = Some r \<and> r_note_id r = note_id \<longrightarrow> r_deleted_at r \<noteq> None)"
proof -
  from assms have "serializable w (delete_note_tx app now user note_id) d = (Inr n', d')"
    by (auto simp: delete_note_def split: sum.splits if_splits prod.splits)
  then obtain k where k: "k < 3" "delete_note_tx app now user note_id (seen w k d) = Inr (n', d')"
    by (rule serializable_Inr)
  note r = delete_note_tx_rights [OF k(2)]
  from r(2) have "\<forall>v. rights d' note_id v = {}" by (simp add: rights_def)
  with k(1) r show ?thesis unfolding Let_def by blast
qed

text \<open>
  Sharing a notebook never escalates: the target receives exactly the requested rights
  on the notebook, all of which the caller had; on the notebook's notes this gives the
  target at most reading and writing, and nobody else's rights change.
\<close>

theorem create_notebook_share_no_escalation:
  assumes "create_notebook_share app w now user notebook_id body d = (Inr share, d')"
  shows "\<exists>k<3. \<exists>t. let d0 = seen w k d; granted = cap_closure (cap_set (sb_capabilities body)) in
    ShareWrite \<in> notebook_caps notebook_id (au_user_id user) d0
    \<and> granted \<subseteq> notebook_caps notebook_id (au_user_id user) d0
    \<and> notebook_owner_on notebook_id d0 \<noteq> Some t
    \<and> notebook_caps notebook_id t d' = granted
    \<and> (\<forall>m v. (m, v) \<noteq> (notebook_id, t) \<longrightarrow> notebook_caps m v d' = notebook_caps m v d0)
    \<and> (\<forall>m. rights d' m t \<subseteq> rights d0 m t \<union> {Read, Write})
    \<and> (\<forall>m v. v \<noteq> t \<longrightarrow> rights d' m v = rights d0 m v)"
proof -
  let ?b = "sb_capabilities body"
  from assms obtain t where
    "serializable w (create_notebook_share_tx now user notebook_id (from_bits ?b) t) d = (Inr share, d')"
    by (auto simp: create_notebook_share_def create_notebook_share_pre_def res_simps Let_def
        split: sum.splits if_splits)
  then obtain k where k: "k < 3"
    "create_notebook_share_tx now user notebook_id (from_bits ?b) t (seen w k d) = Inr (share, d')"
    by (rule serializable_Inr)
  note r = create_notebook_share_tx_rights [OF k(2)]
  from r(5) obtain sh where d': "d' = (seen w k d)\<lparr>notebook_shares := sh\<rparr>" by blast
  have frame: "notebook_caps m v d' = notebook_caps m v (seen w k d) \<or> m = notebook_id \<and> v = t" for m v
    unfolding r(4) [of m v] by auto
  note c = rights_of_notebook_change [OF frame [unfolded d'], folded d']
  have "notebook_caps m v d' = notebook_caps m v (seen w k d)" if "(m, v) \<noteq> (notebook_id, t)" for m v
    unfolding r(4) [of m v] using that by auto
  moreover have "notebook_caps notebook_id t d' = cap_closure (cap_set ?b)"
    unfolding r(4) [of notebook_id t] by simp
  ultimately show ?thesis using k(1) r(1-3) c unfolding Let_def by blast
qed


subsection \<open>Closed instances\<close>

definition share_db :: db where
  "share_db = empty_db\<lparr>
     users := [(1, \<lparr>u_id = 1, u_email = ''a'', u_password_hash = ''h'', u_display_name = ''a'',
                 u_created_at = 0, u_email_verified_at = None\<rparr>),
               (2, \<lparr>u_id = 2, u_email = ''b'', u_password_hash = ''h'', u_display_name = ''b'',
                 u_created_at = 0, u_email_verified_at = None\<rparr>)],
     notes_tbl := [(5, \<lparr>n_id = 5, n_title = ''t'', n_owner_id = 1, n_notebook_id = Some 9,
        n_is_todo = False, n_todo_due = None, n_todo_completed = None, n_created_at = 0,
        n_updated_at = 0, n_deleted_at = None\<rparr>)],
     notebooks := [(9, \<lparr>nb_id = 9, nb_user_id = 1, nb_title = ''nb'', nb_alias = None,
        nb_created_at = 0, nb_updated_at = 0, nb_deleted_at = None, nb_vv = Map.empty,
        nb_last_writer = ''u''\<rparr>)]\<rparr>"

definition owner_user :: authed_user where
  "owner_user = \<lparr>au_user_id = 1, au_device_id = 1, au_email = ''a''\<rparr>"

definition share_request :: create_share_body where
  "share_request = \<lparr>sb_user_id = Some 2, sb_user_email = None, sb_capabilities = 3\<rparr>"

definition transfer_request :: transfer_body where
  "transfer_request = \<lparr>tb_user_id = Some 2, tb_user_email = None\<rparr>"

lemmas share_eval = share_db_def empty_db_def owner_user_def share_request_def transfer_request_def
  note_access_def get_note_on_def live_note_def decrypt_note_title_def resolve_note_access_on_def
  is_note_owner_def acc_can_defs resolve_target_def get_user_by_id_on_def tbl_defs is_prefix_def
  ENC_PREFIX_def notebook_owner_on_def live_notebook_def resolve_notebook_access_on_def

lemma share_db_keyed: "notes_keyed share_db"
  by (simp add: notes_keyed_def share_db_def empty_db_def tbl_get_def)

lemma from_bits_3: "from_bits 3 = Capabilities 3"
  by (simp add: from_bits_def normalized_def cap_consts CAP_ALL_def)

lemma cap_set_31: "cap_set 31 = UNIV"
  using cap_set_CAP_ALL unfolding CAP_ALL_31 .

lemma share_db_runs:
  "\<exists>s d'. create_share demo_app quiet 9 owner_user 5 share_request share_db = (Inr s, d')"
  "\<exists>m d'. delete_share demo_app quiet owner_user 5 2 share_db = (Inr m, d')"
  "\<exists>n d'. transfer_ownership demo_app quiet 9 owner_user 5 transfer_request share_db = (Inr n, d')"
  "\<exists>n d'. delete_note demo_app quiet 9 owner_user 5 share_db = (Inr n, d')"
  "\<exists>s d'. create_notebook_share demo_app quiet 9 owner_user 9 share_request share_db = (Inr s, d')"
  by (simp_all add: share_eval from_bits_3 CAP_ALL_31 cap_set_31 create_share_def create_share_pre_def create_share_tx_def
      create_or_update_share_on_def delete_share_def delete_share_tx_def delete_share_on_def
      transfer_ownership_def transfer_ownership_tx_def set_note_owner_on_def delete_note_def
      delete_note_tx_def soft_delete_note_on_def create_notebook_share_def create_notebook_share_pre_def
      create_notebook_share_tx_def create_or_update_notebook_share_on_def Let_def)


theorem create_share_no_escalation_witness:
  "\<exists>s d'. create_share demo_app quiet 9 owner_user 5 share_request share_db = (Inr s, d')
     \<and> ShareWrite \<in> rights share_db 5 1"
proof -
  from share_db_runs(1) obtain s d' where
    run: "create_share demo_app quiet 9 owner_user 5 share_request share_db = (Inr s, d')" by blast
  from create_share_no_escalation [OF run] share_db_keyed run show ?thesis
    by (auto simp: Let_def owner_user_def)
qed

theorem delete_share_revokes_witness:
  "\<exists>s d'. delete_share demo_app quiet owner_user 5 2 share_db = (Inr s, d') \<and> rights d' 5 2 = {}"
proof -
  from share_db_runs(2) obtain s d' where
    run: "delete_share demo_app quiet owner_user 5 2 share_db = (Inr s, d')" by blast
  have "live_note share_db 5 = Some \<lparr>n_id = 5, n_title = ''t'', n_owner_id = 1, n_notebook_id = Some 9,
        n_is_todo = False, n_todo_due = None, n_todo_completed = None, n_created_at = 0,
        n_updated_at = 0, n_deleted_at = None\<rparr>"
    by (simp add: live_note_def share_db_def tbl_get_def)
  moreover have "inherited_caps (Some 9) 2 share_db = {}"
    by (simp add: inherited_caps_def notebook_caps_def share_eval get_notebook_share_on_def)
  ultimately show ?thesis using delete_share_revokes [OF run] share_db_keyed run by (auto simp: Let_def)
qed


theorem delete_note_effect_witness:
  "\<exists>n d'. delete_note demo_app quiet 9 owner_user 5 share_db = (Inr n, d') \<and> rights d' 5 1 = {}"
proof -
  from share_db_runs(4) obtain n d' where
    run: "delete_note demo_app quiet 9 owner_user 5 share_db = (Inr n, d')" by blast
  from delete_note_effect [OF run] run show ?thesis by (auto simp: Let_def)
qed

theorem create_notebook_share_no_escalation_witness:
  "\<exists>s d' t. create_notebook_share demo_app quiet 9 owner_user 9 share_request share_db = (Inr s, d')
     \<and> notebook_caps 9 t d' = cap_closure (cap_set 3)"
proof -
  from share_db_runs(5) obtain s d' where
    run: "create_notebook_share demo_app quiet 9 owner_user 9 share_request share_db = (Inr s, d')" by blast
  from create_notebook_share_no_escalation [OF run] run show ?thesis
    by (auto simp: Let_def share_request_def)
qed

end
