(* ===== verification/Note_Update.thy ===== *)
theory Note_Update
  imports Sharing_Rights
begin

text \<open>
  \<open>http.rs\<close>, \<open>update_note\<close>: changing a note's metadata and moving it between notebooks. The
  move guard of the handler and its specification in terms of the rights of every user.
\<close>

unbundle bit_operations_syntax

record update_note_body =
  ub_title :: "string option"
  ub_notebook_id :: "uuid option option"
  ub_is_todo :: "bool option"
  ub_todo_due :: "timestamp option option"
  ub_todo_completed :: "timestamp option option"

text \<open>The nil identifier means \<open>no notebook\<close>.\<close>

definition patch_of :: "update_note_body \<Rightarrow> note_patch" where
  "patch_of body = \<lparr>p_title = ub_title body,
     p_notebook_id = (case ub_notebook_id body of
         Some (Some nb) \<Rightarrow> if nb = 0 then Some None else Some (Some nb)
       | other \<Rightarrow> other),
     p_is_todo = ub_is_todo body, p_todo_due = ub_todo_due body,
     p_todo_completed = ub_todo_completed body\<rparr>"

definition inherited_capabilities_on :: "app_state \<Rightarrow> uuid option \<Rightarrow> uuid \<Rightarrow> db \<Rightarrow> i32" where
  "inherited_capabilities_on app notebook_id princ d =
     (case notebook_id of
        None \<Rightarrow> 0
      | Some nb \<Rightarrow>
          let notebook_bits = (if notebook_owner_on nb d = Some princ then CAP_ALL
                else case get_notebook_share_on nb princ d of
                  Some share \<Rightarrow> nbs_capabilities share
                | None \<Rightarrow> 0)
          in bits (from_bits notebook_bits) AND notebook_inheritance (app_scheme app))"

text \<open>Whether the move to \<open>destination\<close> takes a right from a principal of the source notebook.\<close>

definition loses_access ::
    "app_state \<Rightarrow> note_row \<Rightarrow> uuid option \<Rightarrow> uuid \<Rightarrow> i32 \<Rightarrow> db \<Rightarrow> bool" where
  "loses_access app n destination princ inherited_bits d =
     (let direct_bits = (case get_share_on (n_id n) princ d of Some s \<Rightarrow> s_capabilities s | None \<Rightarrow> 0);
          source_bits = bits (from_bits inherited_bits) AND notebook_inheritance (app_scheme app);
          destination_bits = inherited_capabilities_on app destination princ d;
          before = from_bits (direct_bits OR source_bits);
          after = from_bits (direct_bits OR destination_bits)
      in bits before \<noteq> bits after \<and> bits before AND NOT (bits after) \<noteq> 0)"

definition move_guard ::
    "app_state \<Rightarrow> authed_user \<Rightarrow> note_row \<Rightarrow> note_patch \<Rightarrow> db \<Rightarrow> uuid list result" where
  "move_guard app user n patch d =
     (case n_notebook_id n of
        None \<Rightarrow> Inr []
      | Some source_notebook \<Rightarrow>
          let u = au_user_id user;
              controls_source = (notebook_owner_on source_notebook d = Some u);
              can_enumerate_source = (if controls_source then True
                else case resolve_notebook_access_on source_notebook u d of
                  Inr access \<Rightarrow> can_share_read (acc_caps access)
                | Inl _ \<Rightarrow> False);
              destination = (case p_notebook_id patch of Some x \<Rightarrow> x | None \<Rightarrow> None);
              losers = map fst (filter (\<lambda>(princ, inherited_bits).
                  princ \<noteq> u \<and> loses_access app n destination princ inherited_bits d)
                (inherited_note_principals_on source_notebook d));
              named_principals = (if controls_source \<and> can_enumerate_source then losers else []);
              unenumerable_count = (if controls_source \<and> \<not> can_enumerate_source then length losers else 0);
              notices = (if controls_source then [] else losers)
          in if named_principals \<noteq> []
             then Inl (MoveBlocked (remdups_adj (sort named_principals))
               (if unenumerable_count > 0
                then [\<lparr>mb_notebook_id = source_notebook, mb_count = unenumerable_count\<rparr>] else []))
             else Inr notices)"

definition moved_to :: "note_row \<Rightarrow> note_patch \<Rightarrow> bool" where
  "moved_to n patch \<longleftrightarrow> p_notebook_id patch \<noteq> None \<and> p_notebook_id patch \<noteq> Some (n_notebook_id n)"

definition is_ejection :: "authed_user \<Rightarrow> note_row \<Rightarrow> note_patch \<Rightarrow> db \<Rightarrow> bool" where
  "is_ejection user n patch d \<longleftrightarrow> moved_to n patch \<and> p_notebook_id patch = Some None \<and>
     (case n_notebook_id n of None \<Rightarrow> None | Some nb \<Rightarrow> notebook_owner_on nb d) = Some (au_user_id user)"

definition check_destination ::
    "app_state \<Rightarrow> authed_user \<Rightarrow> note_row \<Rightarrow> note_patch \<Rightarrow> db \<Rightarrow> unit result" where
  "check_destination app user n patch d =
     (case p_notebook_id patch of
        Some (Some nb) \<Rightarrow>
          if n_notebook_id n \<noteq> Some nb
          then res_then (resolve_notebook_access_on nb (au_user_id user) d) (\<lambda>nb_access.
            if \<not> acc_can_write nb_access then Inl Forbidden
            else if count_live_notes_in_notebook_on nb d \<ge> max_notes_per_notebook (app_core app)
            then Inl (PayloadTooLarge (''notebook already holds the format limit of ''
              @ show_nat (max_notes_per_notebook (app_core app)) @ '' notes''))
            else Inr ())
          else Inr ()
      | _ \<Rightarrow> Inr ())"

text \<open>
  The checks, which the handler makes on a first read and repeats in the transaction: the
  note, whether the move is an ejection and the principals to notify.
\<close>

definition update_note_checks ::
    "app_state \<Rightarrow> authed_user \<Rightarrow> uuid \<Rightarrow> note_patch \<Rightarrow> db \<Rightarrow> (bool \<times> uuid list) result" where
  "update_note_checks app user note_id patch d =
     res_then (note_access app user note_id d) (\<lambda>(n, access).
       if \<not> acc_can_write access then Inl Forbidden
       else if moved_to n patch \<and> n_owner_id n \<noteq> au_user_id user
            \<and> \<not> (is_ejection user n patch d \<and> foreign_note_ejection (app_scheme app))
       then Inl Forbidden
       else res_then (if moved_to n patch \<and> move_out_guard (app_scheme app)
           then move_guard app user n patch d else Inr []) (\<lambda>notices.
         res_then (check_destination app user n patch d) (\<lambda>_.
           Inr (is_ejection user n patch d, notices))))"

definition update_note_tx ::
    "app_state \<Rightarrow> string \<Rightarrow> timestamp \<Rightarrow> authed_user \<Rightarrow> uuid \<Rightarrow> note_patch \<Rightarrow> db \<Rightarrow>
     ((note_row \<times> uuid list) \<times> db) result" where
  "update_note_tx app nonce now user note_id patch d =
     res_then (update_note_checks app user note_id patch d) (\<lambda>(ejection, notices).
     res_then (update_note_meta_on (app_store app) nonce now note_id patch d) (\<lambda>(out, d').
     res_then (ok_or out NotFound) (\<lambda>updated.
       Inr ((updated, notices @
         (if ejection \<and> n_owner_id updated \<noteq> au_user_id user then [n_owner_id updated] else [])), d'))))"

definition update_note ::
    "app_state \<Rightarrow> world \<Rightarrow> string \<Rightarrow> timestamp \<Rightarrow> authed_user \<Rightarrow> uuid \<Rightarrow> update_note_body \<Rightarrow> db \<Rightarrow>
     (note_row \<times> notice list) result \<times> db" where
  "update_note app w nonce now user note_id body d =
     (case update_note_checks app user note_id (patch_of body) d of
        Inl e \<Rightarrow> (Inl e, d)
      | Inr _ \<Rightarrow>
          (case serializable w (update_note_tx app nonce now user note_id (patch_of body)) d of
             (Inl e, d') \<Rightarrow> (Inl e, d')
           | (Inr (n, notices), d') \<Rightarrow>
               (Inr (n, List.map_filter (\<lambda>p. notify_access_revoked p ''note'' (n_id n) d')
                  (remdups_adj (sort notices))), d')))"


subsection \<open>The guard in terms of rights\<close>

definition shares_keyed :: "db \<Rightarrow> bool" where
  "shares_keyed d \<longleftrightarrow>
     (\<forall>k s. tbl_get (notebook_shares d) k = Some s \<longrightarrow> (nbs_notebook_id s, nbs_user_id s) = k)"

lemma keeps_caps:
  assumes "\<not> (b \<noteq> a \<and> b AND NOT a \<noteq> (0 :: i32))"
  shows "cap_set b \<subseteq> cap_set a"
proof (cases "b = a")
  case False
  with assms have z: "b AND NOT a = 0" by simp
  have "bit a n" if "bit b n" for n
  proof -
    have "\<not> bit (b AND NOT a) n" unfolding z by simp
    with that show ?thesis by (auto simp: bit_and_iff bit_not_iff dest: bit_imp_possible_bit)
  qed
  then show ?thesis by (auto simp: cap_set_def)
qed simp

lemma inherited_capabilities_caps:
  "cap_set (inherited_capabilities_on app nbo u d) = inherited_caps nbo u d"
  by (auto simp: inherited_capabilities_on_def inherited_caps_def notebook_caps_bits Let_def
      split: option.splits)

lemma direct_bits_caps:
  "cap_closure (cap_set (case get_share_on k u d of Some s \<Rightarrow> s_capabilities s | None \<Rightarrow> 0)) = direct_caps k u d"
  by (simp add: direct_caps_def split: option.split)

lemma not_loses:
  assumes "\<not> loses_access app n dest v b d"
  shows "cap_closure (cap_set b) \<inter> {Read, Write} \<subseteq> direct_caps (n_id n) v d \<union> inherited_caps dest v d"
proof -
  let ?db = "case get_share_on (n_id n) v d of Some s \<Rightarrow> s_capabilities s | None \<Rightarrow> 0"
  let ?src = "bits (from_bits b) AND notebook_inheritance (app_scheme app)"
  have "cap_set (bits (from_bits (?db OR ?src)))
      \<subseteq> cap_set (bits (from_bits (?db OR inherited_capabilities_on app dest v d)))"
    using assms unfolding loses_access_def Let_def by (intro keeps_caps) simp
  then show ?thesis
    by (auto simp: direct_bits_caps inherited_capabilities_caps closure_read_write)
qed

lemma principal_listed:
  assumes "shares_keyed d" and "notebook_caps nb v d \<noteq> {}"
  obtains b where "(v, b) \<in> set (inherited_note_principals_on nb d)"
    "notebook_caps nb v d = cap_closure (cap_set b)"
proof (cases "notebook_owner_on nb d = Some v")
  case True
  then have "(v, CAP_ALL) \<in> set (inherited_note_principals_on nb d)"
    by (auto simp: inherited_note_principals_on_def notebook_owner_on_def)
  with that [of CAP_ALL] True show thesis by (simp add: notebook_caps_def)
next
  case False
  with assms(2) obtain s where s: "get_notebook_share_on nb v d = Some s"
    by (auto simp: notebook_caps_def split: option.splits)
  then obtain x where x: "live_notebook d nb = Some x" and g: "tbl_get (notebook_shares d) (nb, v) = Some s"
    by (auto simp: get_notebook_share_on_def split: option.splits)
  from assms(1) g have k: "nbs_notebook_id s = nb" "nbs_user_id s = v" by (auto simp: shares_keyed_def)
  from tbl_get_Some_in [OF g] k have "(v, nbs_capabilities s) \<in>
      (\<lambda>s. (nbs_user_id s, nbs_capabilities s)) ` set (tbl_select (\<lambda>_ s. nbs_notebook_id s = nb) (notebook_shares d))"
    by (force simp: tbl_select_def)
  then have "(v, nbs_capabilities s) \<in> set (inherited_note_principals_on nb d)"
    by (simp add: inherited_note_principals_on_def x)
  with that [of "nbs_capabilities s"] False s show thesis by (simp add: notebook_caps_def)
qed

lemma move_guard_keeps:
  assumes "move_guard app user n patch d = Inr notices" and "shares_keyed d"
    and "v \<noteq> au_user_id user" and "p_notebook_id patch = Some dest"
    and "v \<notin> set notices"
  shows "inherited_caps (n_notebook_id n) v d \<subseteq> direct_caps (n_id n) v d \<union> inherited_caps dest v d"
proof (cases "n_notebook_id n")
  case (Some src)
  let ?losers = "map fst (filter (\<lambda>(p, ib). p \<noteq> au_user_id user \<and> loses_access app n dest p ib d)
      (inherited_note_principals_on src d))"
  show ?thesis
  proof (cases "notebook_caps src v d = {}")
    case False
    with assms(2) obtain b where b: "(v, b) \<in> set (inherited_note_principals_on src d)"
      "notebook_caps src v d = cap_closure (cap_set b)" by (rule principal_listed)
    have "\<not> loses_access app n dest v b d"
    proof
      assume "loses_access app n dest v b d"
      with b(1) assms(3) have "v \<in> set ?losers" by force
      moreover have "?losers = [] \<or> notices = ?losers"
        using assms(1) by (auto simp: move_guard_def Some assms(4) Let_def split: if_splits)
      ultimately have "v \<in> set notices" by (elim disjE) simp_all
      with assms(5) show False by contradiction
    qed
    from not_loses [OF this] b(2) show ?thesis by (simp add: inherited_caps_def Some)
  qed (simp add: inherited_caps_def Some)
qed (simp add: inherited_caps_def)

lemma move_guard_controls:
  assumes "move_guard app user n patch d = Inr notices" and "n_notebook_id n = Some src"
    and "notebook_owner_on src d = Some (au_user_id user)"
  shows "notices = []"
  using assms by (auto simp: move_guard_def Let_def split: if_splits)


lemma patch_note_simps [simp]:
  "n_id (patch_note now et p n) = n_id n"
  "n_owner_id (patch_note now et p n) = n_owner_id n"
  "n_deleted_at (patch_note now et p n) = n_deleted_at n"
  "n_notebook_id (patch_note now et p n) = coalesce (p_notebook_id p) (n_notebook_id n)"
  by (simp_all add: patch_note_def)

lemma update_note_tx_cases:
  assumes "update_note_tx app nonce now user k patch d = Inr ((n', notices), d')"
  obtains n0 t a et ns where
    "live_note d k = Some n0" "note_access app user k d = Inr (n0\<lparr>n_title := t\<rparr>, a)" "acc_can_write a"
    "moved_to n0 patch \<Longrightarrow> n_owner_id n0 = au_user_id user \<or>
       (is_ejection user n0 patch d \<and> foreign_note_ejection (app_scheme app))"
    "moved_to n0 patch \<Longrightarrow> move_guard app user (n0\<lparr>n_title := t\<rparr>) patch d = Inr ns"
    "check_destination app user n0 patch d = Inr ()" "set ns \<subseteq> set notices" "n_owner_id n' = n_owner_id n0"
    "d' = d\<lparr>notes_tbl := tbl_put k (patch_note now et patch n0) (notes_tbl d)\<rparr>"
proof -
  from assms obtain ej ns out d1 n where
    chk: "update_note_checks app user k patch d = Inr (ej, ns)" and
    upd: "update_note_meta_on (app_store app) nonce now k patch d = Inr (Some n', d')" and
    nt: "notices = ns @ (if ej \<and> n_owner_id n' \<noteq> au_user_id user then [n_owner_id n'] else [])"
    by (auto simp: update_note_tx_def res_simps)
  from chk obtain n a where acc: "note_access app user k d = Inr (n, a)" and w: "acc_can_write a"
    and own: "moved_to n patch \<Longrightarrow> n_owner_id n = au_user_id user \<or>
       (is_ejection user n patch d \<and> foreign_note_ejection (app_scheme app))"
    and mg: "moved_to n patch \<Longrightarrow> move_guard app user n patch d = Inr ns"
    and cd: "check_destination app user n patch d = Inr ()"
    by (auto simp: update_note_checks_def res_simps move_out_guard_def split: if_splits)
  from acc obtain n0 t where n0: "live_note d k = Some n0" "n = n0\<lparr>n_title := t\<rparr>"
    by (auto simp: note_access_def res_simps elim!: get_note_on_Some)
  from upd n0(1) obtain et where
    et: "d' = d\<lparr>notes_tbl := tbl_put k (patch_note now et patch n0) (notes_tbl d)\<rparr>"
      "n_owner_id n' = n_owner_id n0"
    by (auto simp: update_note_meta_on_def res_simps Let_def decrypt_note_title_def)
  have title: "moved_to (n0\<lparr>n_title := t\<rparr>) patch = moved_to n0 patch"
    "is_ejection user (n0\<lparr>n_title := t\<rparr>) patch d = is_ejection user n0 patch d"
    "check_destination app user (n0\<lparr>n_title := t\<rparr>) patch d = check_destination app user n0 patch d"
    by (simp_all add: moved_to_def is_ejection_def check_destination_def split: option.split)
  show thesis
    by (rule that [OF n0(1) acc [unfolded n0(2)] w _ _ _ _ et(2,1)])
      (use own mg cd nt n0(2) title in auto)
qed

lemma update_note_tx_rights:
  assumes tx: "update_note_tx app nonce now user k patch d = Inr ((n', notices), d')"
    and "notes_keyed d" and "shares_keyed d"
  shows "Write \<in> rights d k (au_user_id user)"
    and "owner_of d' k = owner_of d k"
    and "m \<noteq> k \<or> p_notebook_id patch = None \<Longrightarrow> rights d' m v = rights d m v"
    and "v \<noteq> au_user_id user \<Longrightarrow> v \<notin> set notices \<Longrightarrow> rights d k v \<subseteq> rights d' k v"
  using tx
proof (atomize (full), rule update_note_tx_cases, goal_cases)
  case (1 n0 t a et ns)
  let ?n1 = "patch_note now et patch n0"
  have id: "n_id n0 = k" using notes_keyed_live [OF assms(2) 1(1)] .
  have live: "n_deleted_at n0 = None" using live_note_live [OF 1(1)] .
  have r: "rights d' m v = (if m = k then note_caps ?n1 v d else rights d m v)" for m v
    unfolding 1(9) rights_put_note using live by simp
  have k: "rights d k v = note_caps n0 v d" for v by (simp add: rights_def 1(1))
  have w: "Write \<in> rights d k (au_user_id user)"
    using note_access_rights(1) [OF 1(2)] 1(3) by (simp add: acc_can_write_def)
  have same: "note_caps ?n1 v d = note_caps n0 v d" if "p_notebook_id patch = None \<or> \<not> moved_to n0 patch" for v
    using that by (auto simp: note_caps_def coalesce_def moved_to_def)
  have "rights d k v \<subseteq> rights d' k v" if "v \<noteq> au_user_id user" "v \<notin> set notices" for v
  proof (cases "moved_to n0 patch")
    case True
    then obtain dest where dest: "p_notebook_id patch = Some dest" by (auto simp: moved_to_def)
    have "v \<notin> set ns" using that(2) 1(7) by auto
    from move_guard_keeps [OF 1(5) [OF True] assms(3) that(1) dest this] show ?thesis
      unfolding r k by (auto simp: note_caps_def dest coalesce_def)
  next
    case False
    with same [of v] show ?thesis unfolding r k by simp
  qed
  moreover have "rights d' m v = rights d m v" if "m \<noteq> k \<or> p_notebook_id patch = None" for m v
    unfolding r using that same [of v] k [of v] by auto
  moreover have "owner_of d' k = owner_of d k"
    unfolding owner_of_def 1(9) live_note_put using live 1(1) by simp
  ultimately show ?case using w by blast
qed


lemma update_note_tx_controlled:
  assumes tx: "update_note_tx app nonce now user k patch d = Inr ((n', notices), d')"
    and "notes_keyed d" and "shares_keyed d" and "v \<noteq> au_user_id user"
    and "live_note d k = Some n" and "n_notebook_id n = Some src"
    and "notebook_owner_on src d = Some (au_user_id user)"
  shows "rights d k v \<subseteq> rights d' k v"
  using tx
proof (rule update_note_tx_cases, goal_cases)
  case (1 n0 t a et ns)
  then have n: "n0 = n" using assms(5) by simp
  have id: "n_id n = k" using notes_keyed_live [OF assms(2,5)] .
  have live: "n_deleted_at n = None" using live_note_live [OF assms(5)] .
  have r: "rights d' k v = note_caps (patch_note now et patch n) v d" "rights d k v = note_caps n v d"
    unfolding 1(9) rights_put_note using live n by (simp_all add: rights_def assms(5))
  show ?case
  proof (cases "moved_to n patch")
    case True
    then obtain dest where dest: "p_notebook_id patch = Some dest" by (auto simp: moved_to_def)
    have mg: "move_guard app user (n\<lparr>n_title := t\<rparr>) patch d = Inr ns" using 1(5) True n by simp
    from move_guard_controls [OF mg _ assms(7)] assms(6) have "ns = []" by simp
    with move_guard_keeps [OF mg assms(3,4) dest] id show ?thesis
      unfolding r by (auto simp: note_caps_def dest coalesce_def)
  next
    case False
    then show ?thesis unfolding r by (auto simp: note_caps_def coalesce_def moved_to_def)
  qed
qed

lemma update_note_tx_move:
  assumes tx: "update_note_tx app nonce now user k patch d = Inr ((n', notices), d')"
    and "live_note d k = Some n" and "p_notebook_id patch = Some dest" and "dest \<noteq> n_notebook_id n"
    and "tbl_ok (notes_tbl d)"
  shows "n_owner_id n = au_user_id user \<or> (app_scheme app = EjectionAllowed \<and> dest = None \<and>
      (\<exists>src. n_notebook_id n = Some src \<and> notebook_owner_on src d = Some (au_user_id user)))"
    and "dest = Some nb \<Longrightarrow> Write \<in> notebook_caps nb (au_user_id user) d"
    and "dest = Some nb \<Longrightarrow> count_live_notes_in_notebook_on nb d' \<le> max_notes_per_notebook (app_core app)"
  using tx
proof (atomize (full), rule update_note_tx_cases, goal_cases)
  case (1 n0 t a et ns)
  then have n: "n0 = n" using assms(2) by simp
  have moved: "moved_to n patch" using assms(3,4) by (simp add: moved_to_def)
  have "n_owner_id n = au_user_id user \<or> (app_scheme app = EjectionAllowed \<and> dest = None \<and>
      (\<exists>src. n_notebook_id n = Some src \<and> notebook_owner_on src d = Some (au_user_id user)))"
    using 1(4) n moved assms(3)
    by (auto simp: is_ejection_def foreign_note_ejection_def split: option.splits permission_scheme.splits)
  moreover have "Write \<in> notebook_caps nb (au_user_id user) d
      \<and> count_live_notes_in_notebook_on nb d' \<le> max_notes_per_notebook (app_core app)" if "dest = Some nb"
  proof -
    from 1(6) n assms(3,4) that obtain na where acc: "resolve_notebook_access_on nb (au_user_id user) d = Inr na"
      "acc_can_write na" and cnt: "count_live_notes_in_notebook_on nb d < max_notes_per_notebook (app_core app)"
      by (auto simp: check_destination_def res_simps split: if_splits)
    have "count_live_notes_in_notebook_on nb d' \<le> Suc (count_live_notes_in_notebook_on nb d)"
      unfolding 1(9) count_live_notes_in_notebook_on_def by (simp add: tbl_count_put_le assms(5))
    with cnt resolve_notebook_access_Inr(1) [OF acc(1)] acc(2) show ?thesis by (simp add: acc_can_write_def)
  qed
  ultimately show ?case by blast
qed

subsection \<open>Properties\<close>


text \<open>
  C28: who may move a note: its owner, or, where the scheme allows ejection, the owner of the
  notebook it is in, and then only out of the notebook. Moving into a notebook needs the
  right to write there and never takes the notebook past the limit of the format.
\<close>

theorem update_note_move_authorised:
  assumes "update_note app w nonce now user note_id body d = (Inr (n', mails), d')"
    and "p_notebook_id (patch_of body) = Some dest"
    and "\<And>k. k < 3 \<Longrightarrow> tbl_ok (notes_tbl (seen w k d))"
  shows "\<exists>k<3. \<exists>n. let d0 = seen w k d; u = au_user_id user in
    live_note d0 note_id = Some n \<and> (dest \<noteq> n_notebook_id n \<longrightarrow>
      (n_owner_id n = u \<or> (app_scheme app = EjectionAllowed \<and> dest = None \<and>
         (\<exists>src. n_notebook_id n = Some src \<and> notebook_owner_on src d0 = Some u)))
      \<and> (\<forall>nb. dest = Some nb \<longrightarrow> Write \<in> notebook_caps nb u d0
           \<and> count_live_notes_in_notebook_on nb d' \<le> max_notes_per_notebook (app_core app)))"
proof -
  from assms(1) obtain ns where
    "serializable w (update_note_tx app nonce now user note_id (patch_of body)) d = (Inr (n', ns), d')"
    by (auto simp: update_note_def split: sum.splits prod.splits)
  then obtain k where k: "k < 3"
    "update_note_tx app nonce now user note_id (patch_of body) (seen w k d) = Inr ((n', ns), d')"
    by (rule serializable_Inr)
  from k(2) obtain n where n: "live_note (seen w k d) note_id = Some n" by (rule update_note_tx_cases)
  note m = update_note_tx_move [OF k(2) n assms(2) _ assms(3) [OF k(1)]]
  from k(1) n m show ?thesis unfolding Let_def by blast
qed


subsection \<open>Closed instances\<close>

definition move_out :: update_note_body where
  "move_out = \<lparr>ub_title = None, ub_notebook_id = Some (Some 0), ub_is_todo = None,
     ub_todo_due = None, ub_todo_completed = None\<rparr>"

lemmas move_eval = update_note_checks_def moved_to_def is_ejection_def patch_of_def move_out_def
  move_guard_def move_out_guard_def foreign_note_ejection_def inherited_note_principals_on_def
  check_destination_def Let_def

lemma share_db_keyed2: "shares_keyed share_db" "tbl_ok (notes_tbl share_db)"
  by (simp_all add: shares_keyed_def share_db_def empty_db_def tbl_get_def tbl_ok_def)

lemma move_out_runs:
  "\<exists>n ms d'. update_note demo_app quiet [] 9 owner_user 5 move_out share_db = (Inr (n, ms), d')"
  by (simp add: update_note_def update_note_tx_def update_note_meta_on_def patch_note_def coalesce_def
      move_eval share_eval)


theorem update_note_move_authorised_witness:
  "\<exists>n ms d' n0. update_note demo_app quiet [] 9 owner_user 5 move_out share_db = (Inr (n, ms), d')
     \<and> live_note share_db 5 = Some n0"
proof -
  from move_out_runs obtain n ms d' where
    run: "update_note demo_app quiet [] 9 owner_user 5 move_out share_db = (Inr (n, ms), d')" by blast
  have "p_notebook_id (patch_of move_out) = Some None" by (simp add: patch_of_def move_out_def)
  from update_note_move_authorised [OF run this] share_db_keyed2 run show ?thesis
    by (auto simp: Let_def)
qed

text \<open>A note of user 2 in the notebook of user 1, shared with user 2 for writing.\<close>

definition eject_db :: db where
  "eject_db = share_db\<lparr>
     notes_tbl := [(5, \<lparr>n_id = 5, n_title = ''t'', n_owner_id = 2, n_notebook_id = Some 9,
        n_is_todo = False, n_todo_due = None, n_todo_completed = None, n_created_at = 0,
        n_updated_at = 0, n_deleted_at = None\<rparr>)],
     notebook_shares := [((9, 2), \<lparr>nbs_notebook_id = 9, nbs_user_id = 2, nbs_capabilities = 3,
        nbs_created_at = 0\<rparr>)]\<rparr>"

definition eject_app :: app_state where
  "eject_app = demo_app\<lparr>app_config := demo_config\<lparr>cfg_permission_scheme := EjectionAllowed\<rparr>\<rparr>"

lemma eject_app_simps [simp]:
  "app_store eject_app = plain_store" "app_scheme eject_app = EjectionAllowed" "app_core eject_app = ref_core"
  by (simp_all add: eject_app_def)

lemma cap_set_3: "cap_set 3 = {Read, Write}"
  using cap_set_READ_WRITE by (simp add: cap_consts)

lemma from_bits_consts: "from_bits 31 = Capabilities 31" "from_bits 0 = Capabilities 0"
  by (simp_all add: from_bits_def normalized_def cap_consts CAP_ALL_def)

text \<open>
  The move guard counts the note's own owner among the users who would lose access.
  With ejection allowed, the owner of a notebook is refused to eject a note as long as the
  note's owner has a share of the notebook, although the owner's rights on the note do not
  depend on the notebook.
\<close>

theorem ejection_blocked_by_owner:
  "update_note eject_app quiet [] 9 owner_user 5 move_out eject_db = (Inl (MoveBlocked [2] []), eject_db)
   \<and> owner_of eject_db 5 = Some 2 \<and> rights eject_db 5 2 = UNIV"
proof -
  have "owner_of eject_db 5 = Some 2"
    by (simp add: owner_of_def live_note_def eject_db_def tbl_get_def)
  moreover have "update_note eject_app quiet [] 9 owner_user 5 move_out eject_db
      = (Inl (MoveBlocked [2] []), eject_db)"
    by (simp add: update_note_def move_eval share_eval eject_db_def loses_access_def get_share_on_def
        get_notebook_share_on_def inherited_capabilities_on_def CAP_ALL_31 from_bits_3 from_bits_consts
        notebook_inheritance_def cap_consts cap_set_3)
  ultimately show ?thesis using owner_rights by blast
qed

end
