(* ===== verification/Collab_Ops.thy ===== *)
theory Collab_Ops
  imports Access_Control "HOL-Library.Multiset"
begin

text \<open>
  The line operations of \<open>protocol.rs\<close> and the resolution engine of \<open>collab.rs\<close>: how one
  operation of a batch is validated, resolved against the stored version vectors and
  applied to the lines and the order of a note.
\<close>

subsection \<open>Protocol\<close>

datatype line_op =
    Insert "uuid option" uuid string version_vector string timestamp
  | Update uuid string version_vector string timestamp
  | Delete uuid timestamp version_vector string timestamp
  | Move "uuid list" "uuid option" version_vector string timestamp

fun op_last_writer :: "line_op \<Rightarrow> string" where
  "op_last_writer (Insert _ _ _ _ w _) = w"
| "op_last_writer (Update _ _ _ w _) = w"
| "op_last_writer (Delete _ _ _ w _) = w"
| "op_last_writer (Move _ _ _ w _) = w"

datatype op_outcome = Applied line_op | Ignored | Invalid string string

subsection \<open>Version vectors and positions\<close>

definition merge_vv :: "version_vector \<Rightarrow> version_vector \<Rightarrow> version_vector" where
  "merge_vv a b = (\<lambda>k.
     case b k of
       None \<Rightarrow> a k
     | Some v \<Rightarrow> (let entry = (case a k of None \<Rightarrow> 0 | Some e \<Rightarrow> e)
                  in Some (if v > entry then v else entry)))"

definition advances_writer :: "version_vector \<Rightarrow> version_vector \<Rightarrow> string \<Rightarrow> bool" where
  "advances_writer current op_vv writer \<longleftrightarrow> vv_get op_vv writer > vv_get current writer"

fun index_of :: "'a \<Rightarrow> 'a list \<Rightarrow> nat option" where
  "index_of x [] = None"
| "index_of x (y # ys) = (if y = x then Some 0 else map_option Suc (index_of x ys))"

definition position_after :: "uuid list \<Rightarrow> uuid option \<Rightarrow> nat option" where
  "position_after order after_line_id =
     (case after_line_id of
        None \<Rightarrow> Some 0
      | Some after \<Rightarrow> map_option Suc (index_of after order))"

definition splice_at :: "nat \<Rightarrow> 'a list \<Rightarrow> 'a list \<Rightarrow> 'a list" where
  "splice_at pos new xs = take pos xs @ new @ drop pos xs"

definition order_winner :: "core \<Rightarrow> note_order \<Rightarrow> version_vector \<Rightarrow> timestamp \<Rightarrow> string \<Rightarrow> winner" where
  "order_winner co ord op_vv op_ts op_writer =
     resolve co (o_vv ord) (o_updated_at ord) (o_last_writer ord) op_vv op_ts op_writer"

definition line_winner :: "core \<Rightarrow> line \<Rightarrow> version_vector \<Rightarrow> timestamp \<Rightarrow> string \<Rightarrow> winner" where
  "line_winner co l op_vv op_ts op_writer =
     resolve co (l_vv l) (l_updated_at l) (l_last_writer l) op_vv op_ts op_writer"

definition newline :: char where
  "newline = CHR 0x0A"

subsection \<open>Applying one operation\<close>

definition apply_insert ::
    "core \<Rightarrow> store \<Rightarrow> string \<Rightarrow> timestamp \<Rightarrow> uuid \<Rightarrow> uuid option \<Rightarrow> uuid \<Rightarrow> string \<Rightarrow>
     version_vector \<Rightarrow> string \<Rightarrow> timestamp \<Rightarrow> db \<Rightarrow> (op_outcome \<times> db) result" where
  "apply_insert co st nonce now note_id after_line_id line_id content vv last_writer updated_at d =
     (if newline \<in> set content
      then Inr (Invalid ''bad_content'' (''line content must not contain '' @ [CHR 0x5C, CHR ''n'']), d)
      else if length content > max_line_bytes co
      then Inr (Invalid (code_line_too_long co)
        (''line exceeds the format limit of '' @ show_nat (max_line_bytes co) @ '' bytes''), d)
      else res_then (get_line_on st line_id d) (\<lambda>existing.
        if existing \<noteq> None then Inr (Invalid ''line_exists'' ''line_id already exists'', d)
        else res_then (ok_or (get_note_order_on note_id d) NotFound) (\<lambda>order.
          if count_live_lines_on note_id d \<ge> max_lines_per_note co
          then Inr (Invalid (code_too_many_lines co)
            (''note exceeds the format limit of '' @ show_nat (max_lines_per_note co) @ '' lines''), d)
          else case position_after (o_order order) after_line_id of
            None \<Rightarrow> Inr (Invalid ''bad_after'' ''after_line_id not in note order'', d)
          | Some position \<Rightarrow>
              if \<not> advances_writer (o_vv order) vv last_writer
                 \<or> order_winner co order vv updated_at last_writer = Local
              then Inr (Ignored, d)
              else res_then
                (insert_line_on st nonce now line_id note_id content vv last_writer updated_at d)
                (\<lambda>(l, d1).
                  Inr (Applied (Insert after_line_id line_id content vv last_writer updated_at),
                    set_note_order_on note_id (splice_at position [line_id] (o_order order))
                      (merge_vv (o_vv order) vv) last_writer updated_at d1)))))"

definition apply_update ::
    "core \<Rightarrow> store \<Rightarrow> string \<Rightarrow> uuid \<Rightarrow> uuid \<Rightarrow> string \<Rightarrow>
     version_vector \<Rightarrow> string \<Rightarrow> timestamp \<Rightarrow> db \<Rightarrow> (op_outcome \<times> db) result" where
  "apply_update co st nonce note_id line_id content vv last_writer updated_at d =
     (if newline \<in> set content
      then Inr (Invalid ''bad_content'' (''line content must not contain '' @ [CHR 0x5C, CHR ''n'']), d)
      else if length content > max_line_bytes co
      then Inr (Invalid (code_line_too_long co)
        (''line exceeds the format limit of '' @ show_nat (max_line_bytes co) @ '' bytes''), d)
      else res_then (get_line_on st line_id d) (\<lambda>existing.
        case existing of
          None \<Rightarrow> Inr (Invalid ''not_found'' ''line not found in this note'', d)
        | Some l \<Rightarrow>
            if l_note_id l \<noteq> note_id
            then Inr (Invalid ''not_found'' ''line not found in this note'', d)
            else if \<not> advances_writer (l_vv l) vv last_writer
                    \<or> line_winner co l vv updated_at last_writer = Local
            then Inr (Ignored, d)
            else res_then
              (update_line_on st nonce line_id content (merge_vv (l_vv l) vv) last_writer updated_at d)
              (\<lambda>(l', d1). Inr (Applied (Update line_id content vv last_writer updated_at), d1))))"

definition apply_delete ::
    "core \<Rightarrow> store \<Rightarrow> uuid \<Rightarrow> uuid \<Rightarrow> timestamp \<Rightarrow>
     version_vector \<Rightarrow> string \<Rightarrow> timestamp \<Rightarrow> db \<Rightarrow> (op_outcome \<times> db) result" where
  "apply_delete co st note_id line_id deleted_at vv last_writer updated_at d =
     res_then (get_line_on st line_id d) (\<lambda>existing.
       case existing of
         None \<Rightarrow> Inr (Invalid ''not_found'' ''line not found in this note'', d)
       | Some l \<Rightarrow>
           if l_note_id l \<noteq> note_id
           then Inr (Invalid ''not_found'' ''line not found in this note'', d)
           else if \<not> advances_writer (l_vv l) vv last_writer
                   \<or> line_winner co l vv updated_at last_writer = Local
           then Inr (Ignored, d)
           else res_then
             (soft_delete_line_on st line_id deleted_at (merge_vv (l_vv l) vv) last_writer updated_at d)
             (\<lambda>(l', d1). Inr (Applied (Delete line_id deleted_at vv last_writer updated_at), d1)))"

definition apply_move ::
    "core \<Rightarrow> uuid \<Rightarrow> uuid list \<Rightarrow> uuid option \<Rightarrow>
     version_vector \<Rightarrow> string \<Rightarrow> timestamp \<Rightarrow> db \<Rightarrow> (op_outcome \<times> db) result" where
  "apply_move co note_id line_ids after_line_id vv last_writer updated_at d =
     (if line_ids = [] then Inr (Invalid ''bad_move'' ''line_ids must not be empty'', d)
      else res_then (ok_or (get_note_order_on note_id d) NotFound) (\<lambda>order.
        if \<exists>i\<in>set line_ids. i \<notin> set (o_order order)
        then Inr (Invalid ''not_found'' ''a moved line is not in the note order'', d)
        else if (case after_line_id of None \<Rightarrow> False | Some a \<Rightarrow> a \<in> set line_ids)
        then Inr (Invalid ''bad_move'' ''after_line_id cannot be a moved line'', d)
        else if \<not> advances_writer (o_vv order) vv last_writer
                \<or> order_winner co order vv updated_at last_writer = Local
        then Inr (Ignored, d)
        else
          let rest = filter (\<lambda>i. i \<notin> set line_ids) (o_order order)
          in case position_after rest after_line_id of
               None \<Rightarrow> Inr (Invalid ''bad_after'' ''after_line_id not in note order'', d)
             | Some position \<Rightarrow>
                 Inr (Applied (Move line_ids after_line_id vv last_writer updated_at),
                   set_note_order_on note_id (splice_at position line_ids rest)
                     (merge_vv (o_vv order) vv) last_writer updated_at d)))"

fun apply_op_body ::
    "core \<Rightarrow> store \<Rightarrow> string \<Rightarrow> timestamp \<Rightarrow> uuid \<Rightarrow> line_op \<Rightarrow> db \<Rightarrow> (op_outcome \<times> db) result" where
  "apply_op_body co st nonce now note_id (Insert after_id i content vv w ts) d =
     apply_insert co st nonce now note_id after_id i content vv w ts d"
| "apply_op_body co st nonce now note_id (Update i content vv w ts) d =
     apply_update co st nonce note_id i content vv w ts d"
| "apply_op_body co st nonce now note_id (Delete i deleted_at vv w ts) d =
     apply_delete co st note_id i deleted_at vv w ts d"
| "apply_op_body co st nonce now note_id (Move is after_id vv w ts) d =
     apply_move co note_id is after_id vv w ts d"

definition apply_op ::
    "core \<Rightarrow> store \<Rightarrow> string \<Rightarrow> timestamp \<Rightarrow> uuid \<Rightarrow> uuid \<Rightarrow> line_op \<Rightarrow> db \<Rightarrow> (op_outcome \<times> db) result" where
  "apply_op co st nonce now note_id device_id op d =
     (if op_last_writer op \<noteq> uuid_str co device_id
      then Inr (Invalid ''bad_writer'' ''last_writer must be your device id'', d)
      else apply_op_body co st nonce now note_id op d)"

text \<open>
  The loop of the \<open>Op\<close> message: each operation in turn on the transaction's database; the
  applied operations and the refusals are collected. The nonce source is indexed by the
  position in the batch.
\<close>

fun note_outcome ::
    "op_outcome \<Rightarrow> line_op list \<times> (string \<times> string) list \<times> db \<Rightarrow>
     line_op list \<times> (string \<times> string) list \<times> db" where
  "note_outcome (Applied a) (applied, errs, d) = (a # applied, errs, d)"
| "note_outcome Ignored (applied, errs, d) = (applied, errs, d)"
| "note_outcome (Invalid code message) (applied, errs, d) = (applied, (code, message) # errs, d)"

fun apply_ops ::
    "core \<Rightarrow> store \<Rightarrow> (nat \<Rightarrow> string) \<Rightarrow> timestamp \<Rightarrow> uuid \<Rightarrow> uuid \<Rightarrow> nat \<Rightarrow> line_op list \<Rightarrow> db \<Rightarrow>
     (line_op list \<times> (string \<times> string) list \<times> db) result" where
  "apply_ops co st nonces now note_id device_id i [] d = Inr ([], [], d)"
| "apply_ops co st nonces now note_id device_id i (op # ops) d =
     res_then (apply_op co st (nonces i) now note_id device_id op d) (\<lambda>(out, d1).
       res_then (apply_ops co st nonces now note_id device_id (Suc i) ops d1) (\<lambda>rest.
         Inr (note_outcome out rest)))"

lemma note_outcome_db [simp]: "snd (snd (note_outcome out acc)) = snd (snd acc)"
  by (cases "(out, acc)" rule: note_outcome.cases) simp_all

subsection \<open>What an applied operation did\<close>

lemma merge_vv_get [simp]: "vv_get (merge_vv a b) k = max (vv_get a k) (vv_get b k)"
  by (auto simp: merge_vv_def vv_get_def Let_def split: option.splits)

lemma merge_vv_upper [simp]: "vv_le a (merge_vv a b)" "vv_le b (merge_vv a b)"
  by (simp_all add: vv_le_def)

lemma merge_vv_least: "vv_le (merge_vv a b) c \<longleftrightarrow> vv_le a c \<and> vv_le b c"
  by (auto simp: vv_le_def)

lemma merge_vv_absorb: "vv_le a b \<Longrightarrow> vv_get (merge_vv a b) = vv_get b"
  by (auto simp: vv_le_def max_def fun_eq_iff antisym)

lemma get_line_on_None [simp]: "get_line_on st i d = Inr None \<longleftrightarrow> tbl_get (lines d) i = None"
  by (auto simp: get_line_on_def res_simps split: option.splits)

lemma get_line_on_Some:
  "get_line_on st i d = Inr (Some l) \<longleftrightarrow>
     (\<exists>r c. tbl_get (lines d) i = Some r \<and> store_decrypt st (l_content r) = Inr c
        \<and> l = r\<lparr>l_content := c\<rparr>)"
  by (auto simp: get_line_on_def decrypt_line_def res_simps split: option.splits)

lemma then_get_line:
  "res_then (get_line_on st i d) f =
     (case tbl_get (lines d) i of
        None \<Rightarrow> f None
      | Some r \<Rightarrow> (case store_decrypt st (l_content r) of
            Inl e \<Rightarrow> Inl e | Inr c \<Rightarrow> f (Some (r\<lparr>l_content := c\<rparr>))))"
  by (simp add: get_line_on_def decrypt_line_def res_then_def split: option.split sum.split)

lemma splice_at_set [simp]: "set (splice_at pos new xs) = set new \<union> set xs"
  by (simp add: splice_at_def) (metis append_take_drop_id set_append sup.left_commute sup_commute)

lemma splice_at_mset: "mset (splice_at pos new xs) = mset new + mset xs"
proof -
  have "mset (take pos xs) + mset (drop pos xs) = mset xs"
    by (metis append_take_drop_id mset_append)
  then show ?thesis by (simp add: splice_at_def ac_simps)
qed

lemma splice_at_distinct:
  "distinct (splice_at pos new xs) \<longleftrightarrow> distinct new \<and> distinct xs \<and> set new \<inter> set xs = {}"
  using mset_eq_imp_distinct_iff [of "splice_at pos new xs" "new @ xs"] by (simp add: splice_at_mset)

lemma not_Local [simp]: "w \<noteq> Local \<longleftrightarrow> w = Incoming"
  by (cases w) simp_all

lemma apply_insert_applied:
  assumes "apply_insert co st nonce now nid aft i content vv w ts d = Inr (Applied op, d')"
  obtains ord pos enc where
    "newline \<notin> set content" "length content \<le> max_line_bytes co"
    "tbl_get (lines d) i = None" "tbl_get (note_line_order d) nid = Some ord"
    "count_live_lines_on nid d < max_lines_per_note co"
    "position_after (o_order ord) aft = Some pos" "advances_writer (o_vv ord) vv w"
    "store_encrypt st nonce content = Inr enc" "tbl_get (notes_tbl d) nid \<noteq> None"
    "op = Insert aft i content vv w ts"
    "d' = d\<lparr>lines := tbl_put i \<lparr>l_id = i, l_note_id = nid, l_content = enc, l_created_at = now,
            l_updated_at = ts, l_deleted_at = None, l_vv = vv, l_last_writer = w\<rparr> (lines d),
          note_line_order := tbl_upd nid (\<lambda>o1. o1\<lparr>o_order := splice_at pos [i] (o_order ord),
            o_vv := merge_vv (o_vv ord) vv, o_last_writer := w, o_updated_at := ts\<rparr>)
            (note_line_order d)\<rparr>"
  using assms
  by (auto simp: apply_insert_def then_get_line res_simps get_note_order_on_def insert_line_on_def
      Let_def set_note_order_on_def split: if_splits option.splits sum.splits)

lemma apply_update_applied:
  assumes "apply_update co st nonce nid i content vv w ts d = Inr (Applied op, d')"
  obtains l enc where
    "newline \<notin> set content" "length content \<le> max_line_bytes co"
    "tbl_get (lines d) i = Some l" "l_note_id l = nid" "advances_writer (l_vv l) vv w"
    "line_winner co l vv ts w = Incoming"
    "store_encrypt st nonce content = Inr enc" "op = Update i content vv w ts"
    "d' = d\<lparr>lines := tbl_put i (l\<lparr>l_content := enc, l_vv := merge_vv (l_vv l) vv,
            l_last_writer := w, l_updated_at := ts, l_deleted_at := None\<rparr>) (lines d)\<rparr>"
  using assms
  by (auto simp: apply_update_def then_get_line res_simps update_line_on_def Let_def
      line_winner_def split: if_splits option.splits sum.splits)

lemma apply_delete_applied:
  assumes "apply_delete co st nid i del vv w ts d = Inr (Applied op, d')"
  obtains l where
    "tbl_get (lines d) i = Some l" "l_note_id l = nid" "advances_writer (l_vv l) vv w"
    "line_winner co l vv ts w = Incoming" "op = Delete i del vv w ts"
    "d' = d\<lparr>lines := tbl_put i (l\<lparr>l_deleted_at := Some del, l_vv := merge_vv (l_vv l) vv,
            l_last_writer := w, l_updated_at := ts\<rparr>) (lines d)\<rparr>"
  using assms
  by (auto simp: apply_delete_def then_get_line res_simps soft_delete_line_on_def Let_def
      line_winner_def split: if_splits option.splits sum.splits)

lemma apply_move_applied:
  assumes "apply_move co nid is aft vv w ts d = Inr (Applied op, d')"
  obtains ord pos where
    "is \<noteq> []" "tbl_get (note_line_order d) nid = Some ord" "set is \<subseteq> set (o_order ord)"
    "advances_writer (o_vv ord) vv w" "op = Move is aft vv w ts"
    "position_after (filter (\<lambda>i. i \<notin> set is) (o_order ord)) aft = Some pos"
    "d' = d\<lparr>note_line_order := tbl_upd nid (\<lambda>o1. o1\<lparr>
            o_order := splice_at pos is (filter (\<lambda>i. i \<notin> set is) (o_order ord)),
            o_vv := merge_vv (o_vv ord) vv, o_last_writer := w, o_updated_at := ts\<rparr>)
            (note_line_order d)\<rparr>"
  using assms
  by (auto simp: apply_move_def res_simps get_note_order_on_def Let_def
      set_note_order_on_def split: if_splits option.splits)

lemma apply_op_not_applied:
  assumes "apply_op co st nonce now nid dev op d = Inr (out, d')" and "\<And>a. out \<noteq> Applied a"
  shows "d' = d"
  using assms
  by (cases op)
    (auto simp: apply_op_def apply_insert_def apply_update_def apply_delete_def apply_move_def
      then_get_line Let_def res_simps split: if_splits option.splits sum.splits)

end
