(* ===== verification/Note_Body.thy ===== *)
theory Note_Body
  imports App_State Collab_Ops
begin

text \<open>
  Whole notes: the snapshot a collaborating client receives on \<open>Join\<close> (\<open>collab.rs\<close>), and the
  HTTP handlers that create, read, import and export a note (\<open>http.rs\<close>). The body is never
  stored: it is put together from the live lines in the note's order.
\<close>

subsection \<open>Snapshots\<close>

record line_snapshot =
  ls_id :: uuid
  ls_content :: string
  ls_created_at :: timestamp
  ls_updated_at :: timestamp
  ls_deleted_at :: "timestamp option"
  ls_vv :: version_vector
  ls_last_writer :: string

record note_lines_snapshot =
  sn_note_id :: uuid
  sn_order :: "uuid list"
  sn_updated_at :: timestamp
  sn_vv :: version_vector
  sn_last_writer :: string
  sn_lines :: "line_snapshot list"

definition line_snapshot_of :: "line \<Rightarrow> line_snapshot" where
  "line_snapshot_of l = \<lparr>ls_id = l_id l, ls_content = l_content l, ls_created_at = l_created_at l,
     ls_updated_at = l_updated_at l, ls_deleted_at = l_deleted_at l, ls_vv = l_vv l,
     ls_last_writer = l_last_writer l\<rparr>"

definition read_snapshot :: "store \<Rightarrow> uuid \<Rightarrow> db \<Rightarrow> note_lines_snapshot result" where
  "read_snapshot st note_id d =
     res_then (ok_or (get_note_order_on note_id d) NotFound) (\<lambda>order.
       res_then (list_lines st note_id d) (\<lambda>ls.
         Inr \<lparr>sn_note_id = note_id, sn_order = o_order order, sn_updated_at = o_updated_at order,
              sn_vv = o_vv order, sn_last_writer = o_last_writer order,
              sn_lines = map line_snapshot_of ls\<rparr>))"

subsection \<open>The body\<close>

definition live_contents :: "uuid list \<Rightarrow> line list \<Rightarrow> string list" where
  "live_contents order ls =
     (let by_id = map_of (rev (map (\<lambda>l. (l_id l, l)) ls))
      in map l_content (filter (\<lambda>l. l_deleted_at l = None) (List.map_filter by_id order)))"

definition materialize_body :: "app_state \<Rightarrow> uuid \<Rightarrow> db \<Rightarrow> string result" where
  "materialize_body app note_id d =
     res_then (ok_or (get_note_order_on note_id d) NotFound) (\<lambda>order.
       res_then (list_lines (app_store app) note_id d) (\<lambda>ls.
         let live = live_contents (o_order order) ls;
             cap = max_note_body_bytes (app_config app);
             separators = length live - 1;
             total = sum_list (map length live) + separators
         in if cap > 0 \<and> total > cap
            then Inl (PayloadTooLarge (''note body is '' @ show_nat total @ '' bytes, exceeds the ''
              @ show_nat cap @ ''-byte limit''))
            else Inr (join_with [newline] live)))"

subsection \<open>Handlers\<close>

definition check_note_quota :: "app_state \<Rightarrow> uuid \<Rightarrow> db \<Rightarrow> unit result" where
  "check_note_quota app user_id d =
     (let limit = max_notes_per_user (app_config app)
      in if limit > 0 \<and> int (count_live_notes_for_user_on user_id d) \<ge> limit
         then Inl (QuotaExceeded (''note limit reached ('' @ show_nat (nat limit) @ '')''))
         else Inr ())"

definition create_note ::
    "app_state \<Rightarrow> string \<Rightarrow> timestamp \<Rightarrow> uuid \<Rightarrow> authed_user \<Rightarrow> uuid option \<Rightarrow> string \<Rightarrow> db \<Rightarrow>
     (note_row \<times> db) result" where
  "create_note app nonce now fresh user body_id title d =
     res_then (check_note_quota app (au_user_id user) d) (\<lambda>_.
       create_note_tx (app_core app) (app_store app) nonce now fresh body_id title (au_user_id user) d)"

definition get_note :: "app_state \<Rightarrow> authed_user \<Rightarrow> uuid \<Rightarrow> db \<Rightarrow> (note_row \<times> string) result" where
  "get_note app user row_id d =
     res_then (get_note_on (app_store app) row_id d) (\<lambda>found.
     res_then (ok_or found NotFound) (\<lambda>n.
     res_then (resolve_note_access_on (app_scheme app) n (au_user_id user) d) (\<lambda>access.
       if \<not> acc_can_read access then Inl Forbidden
       else res_then (materialize_body app row_id d) (\<lambda>body. Inr (n, body)))))"

fun import_lines ::
    "store \<Rightarrow> (nat \<Rightarrow> string) \<Rightarrow> (nat \<Rightarrow> uuid) \<Rightarrow> timestamp \<Rightarrow> uuid \<Rightarrow> version_vector \<Rightarrow> string \<Rightarrow>
     nat \<Rightarrow> string list \<Rightarrow> db \<Rightarrow> (uuid list \<times> db) result" where
  "import_lines st nonces ids now note_id line_vv writer k [] d = Inr ([], d)"
| "import_lines st nonces ids now note_id line_vv writer k (content # rest) d =
     res_then (insert_line_on st (nonces k) now (ids k) note_id content line_vv writer now d) (\<lambda>(l, d1).
       res_then (import_lines st nonces ids now note_id line_vv writer (Suc k) rest d1) (\<lambda>(order, d2).
         Inr (ids k # order, d2)))"

record import_response =
  ir_note_id :: uuid
  ir_line_count :: nat

definition import_note ::
    "app_state \<Rightarrow> (nat \<Rightarrow> string) \<Rightarrow> (nat \<Rightarrow> uuid) \<Rightarrow> timestamp \<Rightarrow> authed_user \<Rightarrow> string \<Rightarrow> string \<Rightarrow> db \<Rightarrow>
     (import_response \<times> db) result" where
  "import_note app nonces ids now user title body d =
     res_then (check_note_quota app (au_user_id user) d) (\<lambda>_.
     res_then (create_note_on (app_store app) (nonces 0) now (ids 0) None title (au_user_id user) d)
       (\<lambda>(n, d1).
     res_then (initialize_note_order_on (app_core app) now (n_id n) (au_user_id user) d1) (\<lambda>d2.
       let writer = uuid_str (app_core app) (au_device_id user);
           ls = split_on newline body
       in res_then (import_lines (app_store app) nonces ids now (n_id n) [writer \<mapsto> 1] writer 1 ls d2)
            (\<lambda>(order, d3).
              Inr (\<lparr>ir_note_id = n_id n, ir_line_count = length ls\<rparr>,
                set_note_order_on (n_id n) order [writer \<mapsto> length ls] writer now d3)))))"

record export_response =
  er_id :: uuid
  er_title :: string
  er_body :: string

definition export_note :: "app_state \<Rightarrow> authed_user \<Rightarrow> uuid \<Rightarrow> db \<Rightarrow> export_response result" where
  "export_note app user row_id d =
     res_then (get_note_on (app_store app) row_id d) (\<lambda>found.
     res_then (ok_or found NotFound) (\<lambda>n.
     res_then (resolve_note_access_on (app_scheme app) n (au_user_id user) d) (\<lambda>access.
       if \<not> acc_can_read access then Inl Forbidden
       else res_then (materialize_body app row_id d) (\<lambda>body.
         Inr \<lparr>er_id = n_id n, er_title = n_title n, er_body = body\<rparr>))))"


subsection \<open>Reading back an imported note\<close>

fun plain_rows :: "(nat \<Rightarrow> string \<Rightarrow> line) \<Rightarrow> nat \<Rightarrow> string list \<Rightarrow> line list" where
  "plain_rows mk k [] = []"
| "plain_rows mk k (c # cs) = mk k c # plain_rows mk (Suc k) cs"

lemma plain_rows_props:
  assumes "\<And>k c. l_content (mk k c) = c \<and> l_id (mk k c) = ids k \<and> l_deleted_at (mk k c) = None"
  shows "map l_content (plain_rows mk k cs) = cs"
    and "map l_id (plain_rows mk k cs) = map ids [k..<k + length cs]"
    and "l \<in> set (plain_rows mk k cs) \<Longrightarrow> l_deleted_at l = None"
  by (induction cs arbitrary: k) (auto simp: assms upt_conv_Cons simp del: upt_Suc)

lemma map_filter_by_id:
  assumes "distinct (map l_id ls)"
  shows "List.map_filter (map_of (rev (map (\<lambda>l. (l_id l, l)) ls))) (map l_id ls) = ls"
proof -
  have d: "distinct (map fst (map (\<lambda>l. (l_id l, l)) ls))" using assms by (simp add: comp_def)
  have "map_of (rev (map (\<lambda>l. (l_id l, l)) ls)) (l_id l) = Some l" if "l \<in> set ls" for l
  proof -
    have "(l_id l, l) \<in> set (rev (map (\<lambda>l. (l_id l, l)) ls))" using that by simp
    moreover have "distinct (map fst (rev (map (\<lambda>l. (l_id l, l)) ls)))"
      using d by (simp add: rev_map [symmetric])
    ultimately show ?thesis by simp
  qed
  then have "map (map_of (rev (map (\<lambda>l. (l_id l, l)) ls)) \<circ> l_id) ls = map Some ls" by simp
  then show ?thesis by (simp add: List.map_filter_def filter_map comp_def map_idI)
qed

lemma live_contents_all:
  assumes "distinct (map l_id ls)" and "\<And>l. l \<in> set ls \<Longrightarrow> l_deleted_at l = None"
  shows "live_contents (map l_id ls) ls = map l_content ls"
  by (simp add: live_contents_def map_filter_by_id [OF assms(1)] filter_True assms(2))

lemma join_length: "length (join_with [c] ls) = sum_list (map length ls) + (length ls - 1)"
  by (induction "[c]" ls rule: join_with.induct) auto

definition import_row :: "uuid \<Rightarrow> timestamp \<Rightarrow> version_vector \<Rightarrow> string \<Rightarrow> uuid \<Rightarrow> string \<Rightarrow> line" where
  "import_row nid now vv w i c = \<lparr>l_id = i, l_note_id = nid, l_content = c, l_created_at = now,
     l_updated_at = now, l_deleted_at = None, l_vv = vv, l_last_writer = w\<rparr>"

lemma import_row_simps [simp]:
  "l_id (import_row nid now vv w i c) = i" "l_content (import_row nid now vv w i c) = c"
  "l_note_id (import_row nid now vv w i c) = nid" "l_deleted_at (import_row nid now vv w i c) = None"
  by (simp_all add: import_row_def)

lemma import_lines_ok:
  assumes "\<And>j. j < length cs \<Longrightarrow> stores st (nonces (k + j)) (cs ! j)"
    and "tbl_get (notes_tbl d) nid \<noteq> None" and "inj ids"
    and "\<And>j. k \<le> j \<Longrightarrow> tbl_get (lines d) (ids j) = None"
  shows "\<exists>rows. import_lines st nonces ids now nid vv w k cs d =
      Inr (map ids [k..<k + length cs], d\<lparr>lines := lines d @ rows\<rparr>)
    \<and> res_map (decrypt_line st) (map snd rows) = Inr (plain_rows (\<lambda>j. import_row nid now vv w (ids j)) k cs)
    \<and> (\<forall>r\<in>set rows. l_note_id (snd r) = nid)"
  using assms
proof (induction cs arbitrary: k d)
  case (Cons c cs)
  from Cons.prems(1) [of 0] obtain s where s: "store_encrypt st (nonces k) c = Inr s" "store_decrypt st s = Inr c"
    by (auto elim: storesE)
  let ?row = "import_row nid now vv w (ids k) s"
  let ?d1 = "d\<lparr>lines := lines d @ [(ids k, ?row)]\<rparr>"
  have new: "tbl_get (lines d) (ids k) = None" using Cons.prems(4) by simp
  have ins: "insert_line_on st (nonces k) now (ids k) nid c vv w now d = Inr (?row\<lparr>l_content := c\<rparr>, ?d1)"
    using Cons.prems(2) new by (auto simp: insert_line_on_def s import_row_def tbl_put_new Let_def)
  have "\<exists>rows. import_lines st nonces ids now nid vv w (Suc k) cs ?d1 =
      Inr (map ids [Suc k..<Suc k + length cs], ?d1\<lparr>lines := lines ?d1 @ rows\<rparr>)
    \<and> res_map (decrypt_line st) (map snd rows) = Inr (plain_rows (\<lambda>j. import_row nid now vv w (ids j)) (Suc k) cs)
    \<and> (\<forall>r\<in>set rows. l_note_id (snd r) = nid)"
  proof (rule Cons.IH)
    show "stores st (nonces (Suc k + j)) (cs ! j)" if "j < length cs" for j
      using Cons.prems(1) [of "Suc j"] that by simp
    show "tbl_get (lines ?d1) (ids j) = None" if "Suc k \<le> j" for j
      using Cons.prems(4) [of j] that \<open>inj ids\<close> by (auto simp: tbl_get_def map_add_def inj_eq)
  qed (use Cons.prems in simp_all)
  then obtain rows where rows: "import_lines st nonces ids now nid vv w (Suc k) cs ?d1 =
      Inr (map ids [Suc k..<Suc k + length cs], ?d1\<lparr>lines := lines ?d1 @ rows\<rparr>)"
    "res_map (decrypt_line st) (map snd rows) = Inr (plain_rows (\<lambda>j. import_row nid now vv w (ids j)) (Suc k) cs)"
    "\<forall>r\<in>set rows. l_note_id (snd r) = nid" by blast
  have "decrypt_line st ?row = Inr (import_row nid now vv w (ids k) c)"
    by (simp add: decrypt_line_def s import_row_def)
  with rows show ?case
    by (intro exI [of _ "(ids k, ?row) # rows"]) (simp add: ins upt_conv_Cons del: upt_Suc)
qed (auto intro!: exI [of _ "[]"])

lemma list_lines_appended:
  assumes "\<And>i l. tbl_get (lines d) i = Some l \<Longrightarrow> l_note_id l \<noteq> nid" and "tbl_ok (lines d)"
    and "\<forall>r\<in>set rows. l_note_id (snd r) = nid"
  shows "list_lines st nid (d\<lparr>lines := lines d @ rows\<rparr>) = res_map (decrypt_line st) (map snd rows)"
proof -
  have "filter (\<lambda>r. l_note_id (snd r) = nid) (lines d) = []"
    using assms(1) tbl_get_in_iff [OF assms(2)] by (fastforce simp: filter_empty_conv)
  with assms(3) show ?thesis by (simp add: list_lines_def tbl_select_def)
qed


text \<open>No line, order or note uses an identifier that the note of this import will draw.\<close>

definition import_fresh :: "(nat \<Rightarrow> uuid) \<Rightarrow> db \<Rightarrow> bool" where
  "import_fresh ids d \<longleftrightarrow> inj ids \<and> tbl_ok (lines d) \<and>
     tbl_get (notes_tbl d) (ids 0) = None \<and> tbl_get (note_line_order d) (ids 0) = None \<and>
     (\<forall>j. tbl_get (lines d) (ids j) = None) \<and>
     (\<forall>i l. tbl_get (lines d) i = Some l \<longrightarrow> l_note_id l \<noteq> ids 0)"

lemma import_note_result:
  assumes fresh: "import_fresh ids d" and "check_note_quota app (au_user_id user) d = Inr ()"
    and "tbl_get (users d) (au_user_id user) \<noteq> None"
    and "stores (app_store app) (nonces 0) title"
    and "\<And>j. j < length (split_on newline body) \<Longrightarrow>
      stores (app_store app) (nonces (Suc j)) (split_on newline body ! j)"
  obtains rows et ord d' where
    "import_note app nonces ids now user title body d =
       Inr (\<lparr>ir_note_id = ids 0, ir_line_count = length (split_on newline body)\<rparr>, d')"
    "lines d' = lines d @ rows" "tbl_get (note_line_order d') (ids 0) = Some ord"
    "o_order ord = map ids [1..<1 + length (split_on newline body)]"
    "tbl_get (notes_tbl d') (ids 0) = Some \<lparr>n_id = ids 0, n_title = et, n_owner_id = au_user_id user,
       n_notebook_id = None, n_is_todo = False, n_todo_due = None, n_todo_completed = None,
       n_created_at = now, n_updated_at = now, n_deleted_at = None\<rparr>"
    "store_decrypt (app_store app) et = Inr title"
    "res_map (decrypt_line (app_store app)) (map snd rows) =
       Inr (plain_rows (\<lambda>j. import_row (ids 0) now [uuid_str (app_core app) (au_device_id user) \<mapsto> 1]
         (uuid_str (app_core app) (au_device_id user)) (ids j)) 1 (split_on newline body))"
    "\<forall>r\<in>set rows. l_note_id (snd r) = ids 0"
proof -
  let ?w = "uuid_str (app_core app) (au_device_id user)"
  from assms(4) obtain et where et: "store_encrypt (app_store app) (nonces 0) title = Inr et"
    "store_decrypt (app_store app) et = Inr title" by (rule storesE)
  define n where "n = \<lparr>n_id = ids 0, n_title = et, n_owner_id = au_user_id user,
       n_notebook_id = None, n_is_todo = False, n_todo_due = None, n_todo_completed = None,
       n_created_at = now, n_updated_at = now, n_deleted_at = None\<rparr>"
  define o0 where "o0 = \<lparr>o_note_id = ids 0, o_order = [], o_updated_at = now, o_vv = Map.empty,
      o_last_writer = uuid_str (app_core app) (au_user_id user)\<rparr>"
  let ?d2 = "d\<lparr>notes_tbl := tbl_put (ids 0) n (notes_tbl d),
      note_line_order := tbl_put (ids 0) o0 (note_line_order d)\<rparr>"
  have c: "create_note_on (app_store app) (nonces 0) now (ids 0) None title (au_user_id user) d =
      Inr (n\<lparr>n_title := title\<rparr>, d\<lparr>notes_tbl := tbl_put (ids 0) n (notes_tbl d)\<rparr>)"
    using fresh assms(3) by (auto simp: create_note_on_def et import_fresh_def n_def Let_def)
  have i: "initialize_note_order_on (app_core app) now (ids 0) (au_user_id user)
      (d\<lparr>notes_tbl := tbl_put (ids 0) n (notes_tbl d)\<rparr>) = Inr ?d2"
    using fresh by (simp add: initialize_note_order_on_def import_fresh_def o0_def)
  have "\<exists>rows. import_lines (app_store app) nonces ids now (ids 0) [?w \<mapsto> 1] ?w 1 (split_on newline body) ?d2 =
      Inr (map ids [1..<1 + length (split_on newline body)], ?d2\<lparr>lines := lines ?d2 @ rows\<rparr>)
    \<and> res_map (decrypt_line (app_store app)) (map snd rows) =
        Inr (plain_rows (\<lambda>j. import_row (ids 0) now [?w \<mapsto> 1] ?w (ids j)) 1 (split_on newline body))
    \<and> (\<forall>r\<in>set rows. l_note_id (snd r) = ids 0)"
    by (rule import_lines_ok) (use assms(5) fresh in \<open>simp_all add: import_fresh_def\<close>)
  then obtain rows where r: "import_lines (app_store app) nonces ids now (ids 0) [?w \<mapsto> 1] ?w 1 (split_on newline body) ?d2 =
      Inr (map ids [1..<1 + length (split_on newline body)], ?d2\<lparr>lines := lines ?d2 @ rows\<rparr>)"
    and rows: "res_map (decrypt_line (app_store app)) (map snd rows) =
        Inr (plain_rows (\<lambda>j. import_row (ids 0) now [?w \<mapsto> 1] ?w (ids j)) 1 (split_on newline body))"
      "\<forall>r\<in>set rows. l_note_id (snd r) = ids 0" by blast
  have nid: "n_id (n\<lparr>n_title := title\<rparr>) = ids 0" by (simp add: n_def)
  have run: "import_note app nonces ids now user title body d =
       Inr (\<lparr>ir_note_id = ids 0, ir_line_count = length (split_on newline body)\<rparr>,
         set_note_order_on (ids 0) (map ids [1..<1 + length (split_on newline body)])
           [?w \<mapsto> length (split_on newline body)] ?w now (?d2\<lparr>lines := lines ?d2 @ rows\<rparr>))"
    unfolding import_note_def assms(2) c res_then_simps prod.case nid i r Let_def ..
  show thesis
    by (rule that [OF run _ _ _ _ et(2) rows])
      (simp add: set_note_order_on_def n_def o0_def del: upt_Suc)+
qed

text \<open>
  The exporting side, from what the importing side left in the database.
\<close>

lemma export_of_rows:
  assumes "tbl_get (note_line_order d') nid = Some ord" and "o_order ord = map l_id rows"
    and "list_lines (app_store app) nid d' = Inr rows" and "distinct (map l_id rows)"
    and "\<And>l. l \<in> set rows \<Longrightarrow> l_deleted_at l = None"
    and "tbl_get (notes_tbl d') nid = Some n" and "n_deleted_at n = None" and "n_id n = nid"
    and "n_owner_id n = au_user_id user" and "store_decrypt (app_store app) (n_title n) = Inr title"
    and "max_note_body_bytes (app_config app) = 0 \<or>
      length (join_with [newline] (map l_content rows)) \<le> max_note_body_bytes (app_config app)"
  shows "export_note app user nid d' =
    Inr \<lparr>er_id = nid, er_title = title, er_body = join_with [newline] (map l_content rows)\<rparr>"
  using assms
  by (auto simp: export_note_def get_note_on_def live_note_def decrypt_note_title_def
      resolve_note_access_on_def is_note_owner_def acc_can_read_def access_owner_def
      materialize_body_def get_note_order_on_def live_contents_all join_length Let_def)

subsection \<open>Properties\<close>

text \<open>
  C34: importing a text and exporting the note gives the text back, byte for byte, with its
  title. The import succeeds when the quota allows it, the account exists, the drawn
  identifiers are new and the at-rest cipher accepts the title and the lines; the export is
  refused only above the configured body size.
\<close>

theorem import_export_roundtrip:
  assumes "crypto_lib_ok (st_lib (app_store app))" and "import_fresh ids d"
    and "check_note_quota app (au_user_id user) d = Inr ()"
    and "tbl_get (users d) (au_user_id user) \<noteq> None"
    and "storable (app_store app) (nonces 0) title"
    and "\<And>j. j < length (split_on newline body) \<Longrightarrow>
      storable (app_store app) (nonces (Suc j)) (split_on newline body ! j)"
    and "max_note_body_bytes (app_config app) = 0 \<or> length body \<le> max_note_body_bytes (app_config app)"
  shows "\<exists>resp d'. import_note app nonces ids now user title body d = Inr (resp, d')
    \<and> ir_line_count resp = length (split_on newline body)
    \<and> export_note app user (ir_note_id resp) d' =
        Inr \<lparr>er_id = ir_note_id resp, er_title = title, er_body = body\<rparr>"
proof (rule import_note_result [OF assms(2,3,4) storable_stores [OF assms(1,5)]
      storable_stores [OF assms(1) assms(6)]], assumption)
  fix rows et ord d'
  let ?w = "uuid_str (app_core app) (au_device_id user)"
  let ?prs = "plain_rows (\<lambda>j. import_row (ids 0) now [?w \<mapsto> 1] ?w (ids j)) 1 (split_on newline body)"
  assume run: "import_note app nonces ids now user title body d =
       Inr (\<lparr>ir_note_id = ids 0, ir_line_count = length (split_on newline body)\<rparr>, d')"
    and lns: "lines d' = lines d @ rows" and ord: "tbl_get (note_line_order d') (ids 0) = Some ord"
      "o_order ord = map ids [1..<1 + length (split_on newline body)]"
    and row: "tbl_get (notes_tbl d') (ids 0) = Some \<lparr>n_id = ids 0, n_title = et, n_owner_id = au_user_id user,
       n_notebook_id = None, n_is_todo = False, n_todo_due = None, n_todo_completed = None,
       n_created_at = now, n_updated_at = now, n_deleted_at = None\<rparr>"
    and et: "store_decrypt (app_store app) et = Inr title"
    and prs: "res_map (decrypt_line (app_store app)) (map snd rows) = Inr ?prs"
    and own: "\<forall>r\<in>set rows. l_note_id (snd r) = ids 0"
  have ids: "map l_id ?prs = map ids [1..<1 + length (split_on newline body)]"
    and contents: "map l_content ?prs = split_on newline body"
    and live: "\<And>l. l \<in> set ?prs \<Longrightarrow> l_deleted_at l = None"
    by (rule plain_rows_props; simp)+
  have inj: "inj ids" and ok: "tbl_ok (lines d)"
    and other: "\<And>i l. tbl_get (lines d) i = Some l \<Longrightarrow> l_note_id l \<noteq> ids 0"
    using assms(2) by (auto simp: import_fresh_def)
  have "list_lines (app_store app) (ids 0) d' = list_lines (app_store app) (ids 0) (d\<lparr>lines := lines d @ rows\<rparr>)"
    by (simp add: list_lines_def lns)
  also have "\<dots> = Inr ?prs"
    using list_lines_appended [OF other ok own] prs by simp
  finally have ll: "list_lines (app_store app) (ids 0) d' = Inr ?prs" .
  have dist: "distinct (map l_id ?prs)"
    unfolding ids distinct_map by (simp add: inj_on_subset [OF inj])
  have body: "join_with [newline] (map l_content ?prs) = body"
    unfolding contents by (rule join_split)
  from export_of_rows [OF ord(1) ord(2) [folded ids] ll dist live row, of user title]
  have "export_note app user (ids 0) d' = Inr \<lparr>er_id = ids 0, er_title = title, er_body = body\<rparr>"
    unfolding body using et assms(7) by simp
  with run show ?thesis by simp
qed

definition demo_ids :: "nat \<Rightarrow> uuid" where
  "demo_ids j = 100 + j"

definition demo_authed :: authed_user where
  "demo_authed = \<lparr>au_user_id = 1, au_device_id = 1, au_email = ''a''\<rparr>"

definition demo_users_db :: db where
  "demo_users_db = empty_db\<lparr>users := [(1, \<lparr>u_id = 1, u_email = ''a'', u_password_hash = ''h'',
     u_display_name = ''n'', u_created_at = 0, u_email_verified_at = None\<rparr>)]\<rparr>"

theorem import_export_roundtrip_witness:
  "\<exists>resp d'. import_note demo_app (\<lambda>_. replicate 12 CHR ''n'') demo_ids 9 demo_authed ''t''
       [CHR ''a'', newline, CHR ''b''] demo_users_db = Inr (resp, d')
     \<and> ir_line_count resp = 2
     \<and> export_note demo_app demo_authed (ir_note_id resp) d' =
         Inr \<lparr>er_id = ir_note_id resp, er_title = ''t'', er_body = [CHR ''a'', newline, CHR ''b'']\<rparr>"
proof -
  have spl: "split_on newline [CHR ''a'', newline, CHR ''b''] = [''a'', ''b'']"
    by (simp add: newline_def)
  have "import_fresh demo_ids demo_users_db"
    by (simp add: import_fresh_def demo_ids_def demo_users_db_def empty_db_def inj_def)
  moreover have "check_note_quota demo_app (au_user_id demo_authed) demo_users_db = Inr ()"
    by (simp add: check_note_quota_def demo_config_def demo_users_db_def empty_db_def
        count_live_notes_for_user_on_def tbl_count_def)
  moreover have "tbl_get (users demo_users_db) (au_user_id demo_authed) \<noteq> None"
    by (simp add: demo_users_db_def demo_authed_def tbl_get_def)
  moreover have "\<And>j. j < length [''a'', ''b''] \<Longrightarrow>
      storable plain_store (replicate 12 CHR ''n'') ([''a'', ''b''] ! j)"
    by (auto simp: less_Suc_eq is_prefix_def ENC_PREFIX_def)
  ultimately show ?thesis
    using import_export_roundtrip [of demo_app demo_ids demo_users_db demo_authed
        "\<lambda>_. replicate 12 CHR ''n''" "''t''" "[CHR ''a'', newline, CHR ''b'']" 9, unfolded spl]
    by (simp add: demo_config_def is_prefix_def ENC_PREFIX_def numeral_2_eq_2 del: split_on.simps)
qed

end
