(* ===== verification/Versioned_Cell.thy ===== *)
theory Versioned_Cell
  imports Database
begin

text \<open>
  The contract of an independently versioned entity: a row with a version vector, a
  timestamp and a writer that an incoming write replaces when it is admitted and wins the
  resolution. Lines, notebooks and tags are such cells; each provides this locale in its own
  theory. From the contract alone, two concurrent writes reach the
  same visible state in either order of arrival.
\<close>

lemma vv_le_cong: "vv_get a = vv_get a' \<Longrightarrow> vv_get b = vv_get b' \<Longrightarrow> vv_le a b = vv_le a' b'"
  by (simp add: vv_le_def)

lemma resolver_incoming:
  assumes "resolver_ok co" and "vv_le lv iv" and "\<not> vv_le iv lv"
  shows "resolve co lv lt lw iv it iw = Incoming"
  using assms unfolding resolver_ok_def by blast

lemma resolver_concurrent:
  assumes "resolver_ok co" and "vv_concurrent lv iv"
  shows "resolve co lv lt lw iv it iw = (if later lt lw it iw then Incoming else Local)"
  using assms unfolding resolver_ok_def by blast

locale lww_cell =
  fixes vv_of :: "'s \<Rightarrow> version_vector"
    and ts_of :: "'s \<Rightarrow> timestamp"
    and writer_of :: "'s \<Rightarrow> string"
    and p_vv :: "'p \<Rightarrow> version_vector"
    and p_ts :: "'p \<Rightarrow> timestamp"
    and p_writer :: "'p \<Rightarrow> string"
    and admit :: "'s \<Rightarrow> 'p \<Rightarrow> bool"
    and overwrite :: "'p \<Rightarrow> 's \<Rightarrow> 's"
    and view :: "'s \<Rightarrow> 'v"
  assumes write_ts: "ts_of (overwrite p s) = p_ts p"
    and write_writer: "writer_of (overwrite p s) = p_writer p"
    and write_vv: "vv_le (vv_of s) (p_vv p) \<Longrightarrow> vv_get (vv_of (overwrite p s)) = vv_get (p_vv p)"
    and write_view: "view (overwrite p s) = view (overwrite p s')"
    and admit_advance: "vv_get (vv_of s) (p_writer p) < vv_get (p_vv p) (p_writer p) \<Longrightarrow> admit s p"
begin

definition step :: "core \<Rightarrow> 'p \<Rightarrow> 's \<Rightarrow> 's" where
  "step co p s =
     (if admit s p \<and> resolve co (vv_of s) (ts_of s) (writer_of s) (p_vv p) (p_ts p) (p_writer p) = Incoming
      then overwrite p s else s)"

lemma step_newer:
  assumes "resolver_ok co" and "vv_le (vv_of s) (p_vv p)"
    and "vv_get (vv_of s) (p_writer p) < vv_get (p_vv p) (p_writer p)"
  shows "step co p s = overwrite p s"
proof -
  from assms(3) have "\<not> vv_le (p_vv p) (vv_of s)" by (auto simp: vv_le_def not_le)
  with assms show ?thesis by (simp add: step_def admit_advance resolver_incoming)
qed

lemma step_after:
  assumes "resolver_ok co" and "vv_le (vv_of s) (p_vv p)"
    and conc: "vv_concurrent (p_vv p) (p_vv q)"
    and adv: "vv_get (p_vv p) (p_writer q) < vv_get (p_vv q) (p_writer q)"
  shows "step co q (overwrite p s) =
    (if later (p_ts p) (p_writer p) (p_ts q) (p_writer q) then overwrite q (overwrite p s) else overwrite p s)"
proof -
  have eq: "vv_get (vv_of (overwrite p s)) = vv_get (p_vv p)" by (rule write_vv [OF assms(2)])
  then have "vv_concurrent (vv_of (overwrite p s)) (p_vv q)"
    using conc by (simp add: vv_concurrent_def vv_le_def)
  moreover have "admit (overwrite p s) q" by (rule admit_advance) (simp add: eq adv)
  ultimately show ?thesis
    by (simp add: step_def resolver_concurrent [OF assms(1)] write_ts write_writer)
qed

lemma converge:
  assumes ok: "resolver_ok co"
    and p: "vv_le (vv_of s) (p_vv p)" "vv_get (vv_of s) (p_writer p) < vv_get (p_vv p) (p_writer p)"
    and q: "vv_le (vv_of s) (p_vv q)" "vv_get (vv_of s) (p_writer q) < vv_get (p_vv q) (p_writer q)"
    and pq: "vv_get (p_vv q) (p_writer p) < vv_get (p_vv p) (p_writer p)"
    and qp: "vv_get (p_vv p) (p_writer q) < vv_get (p_vv q) (p_writer q)"
  shows "view (step co q (step co p s)) = view (step co p (step co q s))"
proof -
  from pq qp have conc: "vv_concurrent (p_vv p) (p_vv q)" "vv_concurrent (p_vv q) (p_vv p)"
    by (auto simp: vv_concurrent_def vv_le_def not_le)
  from pq qp have "p_writer p \<noteq> p_writer q" by auto
  then have tie: "later (p_ts q) (p_writer q) (p_ts p) (p_writer p) \<longleftrightarrow>
      \<not> later (p_ts p) (p_writer p) (p_ts q) (p_writer q)"
    using later_total later_asym by blast
  show ?thesis
    unfolding step_newer [OF ok p] step_newer [OF ok q]
      step_after [OF ok p(1) conc(1) qp] step_after [OF ok q(1) conc(2) pq] tie
    using write_view by auto
qed

lemma step_replay:
  assumes "resolver_ok co" and "vv_le (vv_of s) (p_vv p)"
    and "vv_get (vv_of s) (p_writer p) < vv_get (p_vv p) (p_writer p)"
  shows "view (step co p (step co p s)) = view (step co p s)"
proof (cases "step co p (overwrite p s) = overwrite p s")
  case False
  then have "step co p (overwrite p s) = overwrite p (overwrite p s)" by (auto simp: step_def split: if_splits)
  with write_view show ?thesis by (simp add: step_newer [OF assms])
qed (simp add: step_newer [OF assms])

end

text \<open>
  A register keeps the vector of the write it holds. When time agrees with causality (a write
  that has seen another carries a later stamp), any number of writes, in any order, leave
  the latest one.
\<close>

locale lww_register = lww_cell vv_of ts_of writer_of p_vv p_ts p_writer admit overwrite view
  for vv_of :: "'s \<Rightarrow> version_vector" and ts_of :: "'s \<Rightarrow> timestamp" and writer_of :: "'s \<Rightarrow> string"
    and p_vv :: "'p \<Rightarrow> version_vector" and p_ts :: "'p \<Rightarrow> timestamp" and p_writer :: "'p \<Rightarrow> string"
    and admit :: "'s \<Rightarrow> 'p \<Rightarrow> bool" and overwrite :: "'p \<Rightarrow> 's \<Rightarrow> 's" and view :: "'s \<Rightarrow> 'v" +
  assumes replace_vv: "vv_of (overwrite p s) = p_vv p"
    and admit_all: "admit s p"
begin

definition before :: "'p \<Rightarrow> 'p \<Rightarrow> bool" where
  "before p q \<longleftrightarrow> later (p_ts p) (p_writer p) (p_ts q) (p_writer q)"

definition older :: "'s \<Rightarrow> 'p \<Rightarrow> bool" where
  "older s q \<longleftrightarrow> later (ts_of s) (writer_of s) (p_ts q) (p_writer q)"

definition distinguished :: "version_vector \<Rightarrow> timestamp \<Rightarrow> string \<Rightarrow> version_vector \<Rightarrow> timestamp \<Rightarrow> string \<Rightarrow> bool" where
  "distinguished v t w v' t' w' \<longleftrightarrow> (t, w) \<noteq> (t', w') \<and> \<not> (vv_le v v' \<and> vv_le v' v) \<and>
     (vv_le v v' \<longrightarrow> later t w t' w') \<and> (vv_le v' v \<longrightarrow> later t' w' t w)"

definition causal :: "'s \<Rightarrow> 'p set \<Rightarrow> bool" where
  "causal s P \<longleftrightarrow>
     (\<forall>p\<in>P. \<forall>q\<in>P. p \<noteq> q \<longrightarrow> distinguished (p_vv p) (p_ts p) (p_writer p) (p_vv q) (p_ts q) (p_writer q)) \<and>
     (\<forall>p\<in>P. distinguished (vv_of s) (ts_of s) (writer_of s) (p_vv p) (p_ts p) (p_writer p))"

lemma distinguished_sym: "distinguished v t w v' t' w' \<Longrightarrow> distinguished v' t' w' v t w"
  unfolding distinguished_def by auto

lemma distinguished_total: "distinguished v t w v' t' w' \<Longrightarrow> later t w t' w' \<noteq> later t' w' t w"
  unfolding distinguished_def using later_total later_asym by blast

lemma step_latest:
  assumes "resolver_ok co"
    and d: "distinguished (vv_of s) (ts_of s) (writer_of s) (p_vv p) (p_ts p) (p_writer p)"
  shows "step co p s = (if older s p then overwrite p s else s)"
proof -
  have r: "resolve co (vv_of s) (ts_of s) (writer_of s) (p_vv p) (p_ts p) (p_writer p) =
      (if older s p then Incoming else Local)"
  proof (cases "vv_concurrent (vv_of s) (p_vv p)")
    case True
    then show ?thesis using resolver_concurrent [OF assms(1) True] by (simp add: older_def)
  next
    case False
    with d consider "vv_le (vv_of s) (p_vv p)" "\<not> vv_le (p_vv p) (vv_of s)"
      | "vv_le (p_vv p) (vv_of s)" "\<not> vv_le (vv_of s) (p_vv p)"
      unfolding vv_concurrent_def distinguished_def by blast
    then show ?thesis
    proof cases
      case 1
      with d have "older s p" by (simp add: distinguished_def older_def)
      then show ?thesis using resolver_incoming [OF assms(1) 1] by simp
    next
      case 2
      with d distinguished_total [OF d] have "\<not> older s p" by (simp add: distinguished_def older_def)
      moreover have "resolve co (vv_of s) (ts_of s) (writer_of s) (p_vv p) (p_ts p) (p_writer p) = Local"
        using assms(1) 2 unfolding resolver_ok_def by blast
      ultimately show ?thesis by simp
    qed
  qed
  show ?thesis unfolding step_def r by (simp add: admit_all)
qed

lemma older_overwrite: "older (overwrite p s) q = before p q"
  by (simp add: older_def before_def write_ts write_writer)

lemma causal_after:
  assumes "causal s P" and "p \<in> P"
  shows "causal (overwrite p s) (P - {p})"
proof -
  have "distinguished (p_vv p) (p_ts p) (p_writer p) (p_vv q) (p_ts q) (p_writer q)" if "q \<in> P" "q \<noteq> p" for q
    using assms that unfolding causal_def by (metis (no_types))
  then show ?thesis using assms unfolding causal_def replace_vv write_ts write_writer by auto
qed

lemma causal_before: "causal s P \<Longrightarrow> p \<in> P \<Longrightarrow> q \<in> P \<Longrightarrow> p \<noteq> q \<Longrightarrow> before p q \<longleftrightarrow> \<not> before q p"
  unfolding causal_def before_def using distinguished_total by blast

lemma causal_older: "causal s P \<Longrightarrow> p \<in> P \<Longrightarrow> \<not> older s p \<Longrightarrow> later (p_ts p) (p_writer p) (ts_of s) (writer_of s)"
  unfolding causal_def older_def using distinguished_total by blast

lemma causal_subset: "causal s P \<Longrightarrow> Q \<subseteq> P \<Longrightarrow> causal s Q"
  unfolding causal_def by blast

lemma run_latest:
  assumes "resolver_ok co" and "causal s (set ps)" and "distinct ps"
  shows "(fold (step co) ps s = s \<and> (\<forall>p\<in>set ps. \<not> older s p))
    \<or> (\<exists>p\<in>set ps. \<exists>s'. fold (step co) ps s = overwrite p s' \<and> older s p
        \<and> (\<forall>q\<in>set ps. q = p \<or> before q p))"
  using assms(2,3)
proof (induction ps arbitrary: s)
  case (Cons p ps)
  have st: "step co p s = (if older s p then overwrite p s else s)"
    using Cons.prems(1) by (intro step_latest assms(1)) (simp add: causal_def)
  show ?case
  proof (cases "older s p")
    case True
    have "causal (overwrite p s) (set ps)"
      using causal_after [OF Cons.prems(1), of p] Cons.prems(2) by simp
    from Cons.IH [OF this] Cons.prems(2)
    have "(fold (step co) ps (overwrite p s) = overwrite p s \<and> (\<forall>q\<in>set ps. \<not> before p q))
      \<or> (\<exists>q\<in>set ps. \<exists>s'. fold (step co) ps (overwrite p s) = overwrite q s' \<and> before p q
          \<and> (\<forall>r\<in>set ps. r = q \<or> before r q))"
      by (simp add: older_overwrite)
    then show ?thesis
    proof (elim disjE conjE bexE exE)
      assume keep: "fold (step co) ps (overwrite p s) = overwrite p s" and "\<forall>q\<in>set ps. \<not> before p q"
      moreover have "before q p" if "q \<in> set ps" for q
        using that calculation(2) causal_before [OF Cons.prems(1), of q p] Cons.prems(2) by auto
      ultimately show ?thesis using True by (auto simp: st)
    next
      fix q s' assume "q \<in> set ps" "fold (step co) ps (overwrite p s) = overwrite q s'" "before p q"
        "\<forall>r\<in>set ps. r = q \<or> before r q"
      moreover have "older s q" using True \<open>before p q\<close> later_trans unfolding older_def before_def by blast
      ultimately show ?thesis using True by (auto simp: st)
    qed
  next
    case False
    have p: "before p q" if "older s q" for q
      using causal_older [OF Cons.prems(1) _ False] that later_trans unfolding before_def older_def by auto
    have "causal s (set ps)" by (rule causal_subset [OF Cons.prems(1)]) auto
    from Cons.IH [OF this] Cons.prems(2) have
      "(fold (step co) ps s = s \<and> (\<forall>p\<in>set ps. \<not> older s p))
      \<or> (\<exists>q\<in>set ps. \<exists>s'. fold (step co) ps s = overwrite q s' \<and> older s q
          \<and> (\<forall>r\<in>set ps. r = q \<or> before r q))" by simp
    then show ?thesis
    proof (elim disjE conjE bexE exE)
      fix q s' assume "q \<in> set ps" "fold (step co) ps s = overwrite q s'" "older s q"
        "\<forall>r\<in>set ps. r = q \<or> before r q"
      with p [of q] False show ?thesis by (auto simp: st)
    qed (use False in \<open>simp add: st\<close>)
  qed
qed simp

lemma run_order_irrelevant:
  assumes "resolver_ok co" and "causal s (set ps)" and "distinct ps" and "distinct qs" and "set qs = set ps"
  shows "view (fold (step co) qs s) = view (fold (step co) ps s)"
proof -
  have c: "causal s (set qs)" using assms(2,5) by simp
  note P = run_latest [OF assms(1,2,3)] and Q = run_latest [OF assms(1) c assms(4), unfolded assms(5)]
  have uniq: "p = q" if "p \<in> set ps" "q \<in> set ps" "\<forall>r\<in>set ps. r = p \<or> before r p"
    "\<forall>r\<in>set ps. r = q \<or> before r q" for p q
  proof (rule ccontr)
    assume "p \<noteq> q"
    with that have "before q p" "before p q" by auto
    with later_asym show False unfolding before_def by blast
  qed
  from P Q show ?thesis
  proof (elim disjE conjE bexE exE)
    fix p s1 q s2
    assume "p \<in> set ps" "fold (step co) ps s = overwrite p s1" "\<forall>r\<in>set ps. r = p \<or> before r p"
      and "q \<in> set ps" "fold (step co) qs s = overwrite q s2" "\<forall>r\<in>set ps. r = q \<or> before r q"
    then have "q = p" using uniq by blast
    then show ?thesis using \<open>fold (step co) ps s = overwrite p s1\<close> \<open>fold (step co) qs s = overwrite q s2\<close>
        write_view [of p s1 s2] by simp
  qed auto
qed

end

end
