(* ===== verification/Collab_Lines.thy ===== *)
theory Collab_Lines
  imports Collab_Ops Versioned_Cell "HOL-Library.Sublist"
begin

text \<open>
  The invariants of a note's lines and order, kept by every line operation, and the
  properties of single operations: what they may touch, that version vectors only grow,
  that a replayed operation changes nothing.
\<close>

definition note_lines :: "db \<Rightarrow> uuid \<Rightarrow> uuid set" where
  "note_lines d n = {i. \<exists>l. tbl_get (lines d) i = Some l \<and> l_note_id l = n}"

definition lines_ok :: "db \<Rightarrow> bool" where
  "lines_ok d \<longleftrightarrow> tbl_ok (lines d) \<and> tbl_ok (note_line_order d) \<and>
     (\<forall>i l. tbl_get (lines d) i = Some l \<longrightarrow> l_id l = i) \<and>
     (\<forall>n ord. tbl_get (note_line_order d) n = Some ord \<longrightarrow>
        o_note_id ord = n \<and> set (o_order ord) = note_lines d n)"

definition orders_distinct :: "db \<Rightarrow> bool" where
  "orders_distinct d \<longleftrightarrow>
     (\<forall>n ord. tbl_get (note_line_order d) n = Some ord \<longrightarrow> distinct (o_order ord))"

fun op_moves_distinct :: "line_op \<Rightarrow> bool" where
  "op_moves_distinct (Move is _ _ _ _) = distinct is"
| "op_moves_distinct _ = True"

text \<open>The only rows an operation on note \<open>nid\<close> may write.\<close>

definition touches_only :: "uuid \<Rightarrow> db \<Rightarrow> db \<Rightarrow> bool" where
  "touches_only nid d d' \<longleftrightarrow>
     (\<exists>ls os. d' = d\<lparr>lines := ls, note_line_order := os\<rparr>) \<and>
     (\<forall>i l. l_note_id l \<noteq> nid \<longrightarrow> (tbl_get (lines d') i = Some l \<longleftrightarrow> tbl_get (lines d) i = Some l)) \<and>
     (\<forall>n. n \<noteq> nid \<longrightarrow> tbl_get (note_line_order d') n = tbl_get (note_line_order d) n)"

text \<open>The version vectors of lines and orders never go back, and no line disappears.\<close>

definition vvs_grow :: "db \<Rightarrow> db \<Rightarrow> bool" where
  "vvs_grow d d' \<longleftrightarrow>
     (\<forall>i l. tbl_get (lines d) i = Some l \<longrightarrow>
        (\<exists>l'. tbl_get (lines d') i = Some l' \<and> vv_le (l_vv l) (l_vv l') \<and> l_note_id l' = l_note_id l)) \<and>
     (\<forall>n ord. tbl_get (note_line_order d) n = Some ord \<longrightarrow>
        (\<exists>ord'. tbl_get (note_line_order d') n = Some ord' \<and> vv_le (o_vv ord) (o_vv ord')))"

lemma touches_only_refl [simp, intro]: "touches_only nid d d"
proof -
  have "d = d\<lparr>lines := lines d, note_line_order := note_line_order d\<rparr>" by simp
  then show ?thesis unfolding touches_only_def by blast
qed

lemma touches_only_trans:
  assumes "touches_only nid d d1" and "touches_only nid d1 d2"
  shows "touches_only nid d d2"
proof -
  from assms obtain ls os ls' os' where
    d1: "d1 = d\<lparr>lines := ls, note_line_order := os\<rparr>" and
    d2: "d2 = d1\<lparr>lines := ls', note_line_order := os'\<rparr>"
    by (auto simp: touches_only_def)
  then have "d2 = d\<lparr>lines := ls', note_line_order := os'\<rparr>" by simp
  moreover have "\<forall>i l. l_note_id l \<noteq> nid \<longrightarrow>
      (tbl_get (lines d2) i = Some l \<longleftrightarrow> tbl_get (lines d) i = Some l)"
    and "\<forall>n. n \<noteq> nid \<longrightarrow> tbl_get (note_line_order d2) n = tbl_get (note_line_order d) n"
    using assms by (simp_all add: touches_only_def)
  ultimately show ?thesis unfolding touches_only_def by blast
qed

lemma vvs_grow_refl [simp, intro]: "vvs_grow d d"
  by (simp add: vvs_grow_def)

lemma vvs_grow_trans:
  assumes "vvs_grow d d1" and "vvs_grow d1 d2"
  shows "vvs_grow d d2"
  unfolding vvs_grow_def
proof (intro conjI allI impI)
  fix i l assume "tbl_get (lines d) i = Some l"
  with assms(1) obtain l1 where l1: "tbl_get (lines d1) i = Some l1" "vv_le (l_vv l) (l_vv l1)"
      "l_note_id l1 = l_note_id l"
    unfolding vvs_grow_def by blast
  with assms(2) obtain l2 where "tbl_get (lines d2) i = Some l2" "vv_le (l_vv l1) (l_vv l2)"
      "l_note_id l2 = l_note_id l1"
    unfolding vvs_grow_def by blast
  with l1 show "\<exists>l'. tbl_get (lines d2) i = Some l' \<and> vv_le (l_vv l) (l_vv l') \<and> l_note_id l' = l_note_id l"
    by (auto intro: vv_le_trans)
next
  fix n ord assume "tbl_get (note_line_order d) n = Some ord"
  with assms(1) obtain o1 where o1: "tbl_get (note_line_order d1) n = Some o1" "vv_le (o_vv ord) (o_vv o1)"
    unfolding vvs_grow_def by blast
  with assms(2) obtain o2 where "tbl_get (note_line_order d2) n = Some o2" "vv_le (o_vv o1) (o_vv o2)"
    unfolding vvs_grow_def by blast
  with o1 show "\<exists>ord'. tbl_get (note_line_order d2) n = Some ord' \<and> vv_le (o_vv ord) (o_vv ord')"
    by (auto intro: vv_le_trans)
qed

lemma lines_ok_order:
  "lines_ok d \<Longrightarrow> tbl_get (note_line_order d) n = Some ord \<Longrightarrow> set (o_order ord) = note_lines d n"
  by (simp add: lines_ok_def)

lemma note_lines_keep:
  assumes "tbl_get (lines d) i = Some l" and "l_note_id l' = l_note_id l"
  shows "note_lines (d\<lparr>lines := tbl_put i l' (lines d)\<rparr>) n = note_lines d n"
  using assms by (auto simp: note_lines_def split: if_splits)

lemma note_lines_new:
  assumes "tbl_get (lines d) i = None"
  shows "note_lines (d\<lparr>lines := tbl_put i l (lines d)\<rparr>) n =
    (if n = l_note_id l then insert i (note_lines d n) else note_lines d n)"
  using assms by (auto simp: note_lines_def split: if_splits)

lemma note_lines_order_upd [simp]: "note_lines (d\<lparr>note_line_order := t\<rparr>) n = note_lines d n"
  by (simp add: note_lines_def)

lemma lines_ok_put:
  assumes "lines_ok d" and "tbl_get (lines d) i = Some l"
    and "l_note_id l' = l_note_id l" and "l_id l' = l_id l"
  shows "lines_ok (d\<lparr>lines := tbl_put i l' (lines d)\<rparr>)"
  using assms note_lines_keep [OF assms(2,3)] by (auto simp: lines_ok_def)

lemma lines_ok_set_order:
  assumes "lines_ok d" and "set xs = note_lines d nid"
  shows "lines_ok (d\<lparr>note_line_order := tbl_upd nid
    (\<lambda>o1. o1\<lparr>o_order := xs, o_vv := vv, o_last_writer := w, o_updated_at := ts\<rparr>) (note_line_order d)\<rparr>)"
  using assms by (auto simp: lines_ok_def note_lines_def split: if_splits)

lemma orders_distinct_set_order:
  assumes "orders_distinct d" and "distinct xs"
  shows "orders_distinct (d\<lparr>note_line_order := tbl_upd nid
    (\<lambda>o1. o1\<lparr>o_order := xs, o_vv := vv, o_last_writer := w, o_updated_at := ts\<rparr>) (note_line_order d)\<rparr>)"
  using assms by (auto simp: orders_distinct_def split: if_splits)

lemma orders_distinct_lines [simp]: "orders_distinct (d\<lparr>lines := t\<rparr>) = orders_distinct d"
  by (simp add: orders_distinct_def)

subsection \<open>One operation\<close>

lemma apply_op_body_applied:
  assumes "apply_op co st nonce now nid dev op d = Inr (Applied a, d')"
  shows "apply_op_body co st nonce now nid op d = Inr (Applied a, d')"
    and "op_last_writer op = uuid_str co dev"
  using assms by (auto simp: apply_op_def split: if_splits)

lemma apply_op_applied_same:
  assumes "apply_op co st nonce now nid dev op d = Inr (Applied a, d')"
  shows "a = op"
  using apply_op_body_applied(1) [OF assms]
  by (cases op) (auto elim: apply_insert_applied apply_update_applied apply_delete_applied apply_move_applied)

lemma touches_put:
  assumes "\<And>l. tbl_get (lines d) i = Some l \<Longrightarrow> l_note_id l = nid" and "l_note_id l' = nid"
  shows "touches_only nid d (d\<lparr>lines := tbl_put i l' (lines d)\<rparr>)"
proof -
  have "d\<lparr>lines := t\<rparr> = d\<lparr>lines := t, note_line_order := note_line_order d\<rparr>" for t by simp
  then have "\<exists>ls os. d\<lparr>lines := tbl_put i l' (lines d)\<rparr> = d\<lparr>lines := ls, note_line_order := os\<rparr>"
    by blast
  with assms show ?thesis by (auto simp: touches_only_def)
qed

lemma touches_order:
  "touches_only nid d (d\<lparr>note_line_order := tbl_upd nid f (note_line_order d)\<rparr>)"
proof -
  have "d\<lparr>note_line_order := t\<rparr> = d\<lparr>lines := lines d, note_line_order := t\<rparr>" for t by simp
  then have "\<exists>ls os. d\<lparr>note_line_order := tbl_upd nid f (note_line_order d)\<rparr> =
      d\<lparr>lines := ls, note_line_order := os\<rparr>"
    by blast
  then show ?thesis by (simp add: touches_only_def)
qed

lemma grow_put:
  assumes "\<And>l. tbl_get (lines d) i = Some l \<Longrightarrow> vv_le (l_vv l) (l_vv l') \<and> l_note_id l' = l_note_id l"
  shows "vvs_grow d (d\<lparr>lines := tbl_put i l' (lines d)\<rparr>)"
  using assms by (simp add: vvs_grow_def)

lemma grow_order:
  assumes "\<And>ord. tbl_get (note_line_order d) nid = Some ord \<Longrightarrow> vv_le (o_vv ord) (o_vv (f ord))"
  shows "vvs_grow d (d\<lparr>note_line_order := tbl_upd nid f (note_line_order d)\<rparr>)"
  using assms by (simp add: vvs_grow_def)

lemma insert_lines_ok:
  assumes "lines_ok d" and new: "tbl_get (lines d) i = None"
    and l: "l_note_id l = nid" "l_id l = i" and xs: "set xs = insert i (note_lines d nid)"
  shows "lines_ok (d\<lparr>lines := tbl_put i l (lines d), note_line_order := tbl_upd nid
    (\<lambda>o1. o1\<lparr>o_order := xs, o_vv := vv, o_last_writer := w, o_updated_at := ts\<rparr>) (note_line_order d)\<rparr>)"
  using assms note_lines_new [OF new, of l]
  by (auto simp: lines_ok_def split: if_splits)

lemmas apply_op_elims = apply_insert_applied apply_update_applied apply_delete_applied
  apply_move_applied

text \<open>The effect of one operation, case by case, in terms of the relations above.\<close>

definition op_effect :: "uuid \<Rightarrow> line_op \<Rightarrow> db \<Rightarrow> db \<Rightarrow> bool" where
  "op_effect nid op d d' \<longleftrightarrow> touches_only nid d d' \<and> vvs_grow d d' \<and>
     (lines_ok d \<longrightarrow> lines_ok d') \<and>
     (lines_ok d \<and> orders_distinct d \<and> op_moves_distinct op \<longrightarrow> orders_distinct d')"

lemma insert_effect:
  assumes "apply_insert co st nonce now nid aft i content vv w ts d = Inr (Applied a, d')"
  shows "op_effect nid (Insert aft i content vv w ts) d d'"
  using assms
proof (rule apply_insert_applied)
  fix ord :: note_order and pos enc
  let ?l = "\<lparr>l_id = i, l_note_id = nid, l_content = enc, l_created_at = now, l_updated_at = ts,
      l_deleted_at = None, l_vv = vv, l_last_writer = w\<rparr>"
  let ?f = "\<lambda>o1. o1\<lparr>o_order := splice_at pos [i] (o_order ord), o_vv := merge_vv (o_vv ord) vv,
      o_last_writer := w, o_updated_at := ts\<rparr>"
  let ?d1 = "d\<lparr>lines := tbl_put i ?l (lines d)\<rparr>"
  assume new: "tbl_get (lines d) i = None"
    and ord: "tbl_get (note_line_order d) nid = Some ord"
    and d': "d' = d\<lparr>lines := tbl_put i ?l (lines d),
      note_line_order := tbl_upd nid ?f (note_line_order d)\<rparr>"
  have step: "d' = ?d1\<lparr>note_line_order := tbl_upd nid ?f (note_line_order ?d1)\<rparr>"
    by (simp add: d')
  have "touches_only nid d d'"
    unfolding step by (rule touches_only_trans [OF touches_put touches_order]) (simp_all add: new)
  moreover have "vvs_grow d d'"
    unfolding step by (rule vvs_grow_trans [OF grow_put grow_order]) (simp_all add: new ord)
  moreover have "lines_ok d'" if "lines_ok d"
    unfolding d' by (rule insert_lines_ok) (simp_all add: that new lines_ok_order [OF that ord])
  moreover have "orders_distinct d'" if "lines_ok d" "orders_distinct d"
  proof -
    have "i \<notin> set (o_order ord)"
      using new lines_ok_order [OF that(1) ord] by (simp add: note_lines_def)
    moreover have "distinct (o_order ord)" using that(2) ord by (simp add: orders_distinct_def)
    ultimately show ?thesis
      unfolding step by (intro orders_distinct_set_order) (simp_all add: splice_at_distinct that)
  qed
  ultimately show ?thesis by (simp add: op_effect_def)
qed

lemma put_effect:
  assumes "tbl_get (lines d) i = Some l" and "l_note_id l = nid"
    and "l_note_id l' = l_note_id l" and "l_id l' = l_id l" and "vv_le (l_vv l) (l_vv l')"
  shows "op_effect nid op d (d\<lparr>lines := tbl_put i l' (lines d)\<rparr>)"
  using assms by (auto simp: op_effect_def intro!: touches_put grow_put lines_ok_put)

lemma move_effect:
  assumes "apply_move co nid is aft vv w ts d = Inr (Applied a, d')"
  shows "op_effect nid (Move is aft vv w ts) d d'"
  using assms
proof (rule apply_move_applied)
  fix ord :: note_order and pos
  let ?rest = "filter (\<lambda>i. i \<notin> set is) (o_order ord)"
  assume ord: "tbl_get (note_line_order d) nid = Some ord" and sub: "set is \<subseteq> set (o_order ord)"
    and d': "d' = d\<lparr>note_line_order := tbl_upd nid (\<lambda>o1. o1\<lparr>o_order := splice_at pos is ?rest,
      o_vv := merge_vv (o_vv ord) vv, o_last_writer := w, o_updated_at := ts\<rparr>) (note_line_order d)\<rparr>"
  have "lines_ok d'" if "lines_ok d"
    unfolding d' using sub lines_ok_order [OF that ord]
    by (intro lines_ok_set_order that) auto
  moreover have "orders_distinct d'" if "orders_distinct d" "distinct is"
    unfolding d' using that ord
    by (intro orders_distinct_set_order) (auto simp: splice_at_distinct orders_distinct_def)
  moreover have "vvs_grow d d'" unfolding d' by (rule grow_order) (simp add: ord)
  ultimately show ?thesis by (simp add: op_effect_def d' touches_order)
qed

lemma apply_op_effect:
  assumes "apply_op co st nonce now nid dev op d = Inr (out, d')"
  shows "op_effect nid op d d'"
proof (cases out)
  case (Applied a)
  from apply_op_body_applied(1) [OF assms [unfolded Applied]] show ?thesis
    by (cases op) (auto intro: insert_effect move_effect
        elim!: apply_update_applied apply_delete_applied intro!: put_effect)
qed (use assms in \<open>auto simp: op_effect_def dest: apply_op_not_applied\<close>)

subsection \<open>A batch\<close>

lemma apply_ops_effect:
  assumes "apply_ops co st nonces now nid dev k ops d = Inr (applied, errs, d')"
  shows "touches_only nid d d' \<and> vvs_grow d d' \<and> (lines_ok d \<longrightarrow> lines_ok d') \<and>
    (lines_ok d \<and> orders_distinct d \<and> list_all op_moves_distinct ops \<longrightarrow> orders_distinct d')"
  using assms
proof (induction ops arbitrary: k d applied errs)
  case (Cons op ops)
  then obtain out d1 rest where
    hd: "apply_op co st (nonces k) now nid dev op d = Inr (out, d1)" and
    rest: "apply_ops co st nonces now nid dev (Suc k) ops d1 = Inr rest" and
    eq: "note_outcome out rest = (applied, errs, d')"
    by (auto simp: res_simps)
  from eq have "snd (snd rest) = d'" by (metis note_outcome_db snd_conv)
  with rest obtain applied1 errs1 where
    tl: "apply_ops co st nonces now nid dev (Suc k) ops d1 = Inr (applied1, errs1, d')"
    by (cases rest) auto
  from apply_op_effect [OF hd] Cons.IH [OF tl] show ?case
    unfolding op_effect_def list.pred_inject
    by (blast intro: touches_only_trans vvs_grow_trans)
qed auto

subsection \<open>A line as a versioned cell\<close>

text \<open>
  \<open>Update\<close> and \<open>Delete\<close> write one line: a new stored content, or a tombstone that keeps the
  content. What a client sees of a line is its tombstone, its content while it is live, and
  who wrote it when.
\<close>

datatype line_edit =
    SetLine string version_vector string timestamp
  | TombLine timestamp version_vector string timestamp

fun edit_vv :: "line_edit \<Rightarrow> version_vector" where
  "edit_vv (SetLine _ vv _ _) = vv"
| "edit_vv (TombLine _ vv _ _) = vv"

fun edit_writer :: "line_edit \<Rightarrow> string" where
  "edit_writer (SetLine _ _ w _) = w"
| "edit_writer (TombLine _ _ w _) = w"

fun edit_ts :: "line_edit \<Rightarrow> timestamp" where
  "edit_ts (SetLine _ _ _ ts) = ts"
| "edit_ts (TombLine _ _ _ ts) = ts"

fun edit_row :: "line_edit \<Rightarrow> line \<Rightarrow> line" where
  "edit_row (SetLine enc vv w ts) l = l\<lparr>l_content := enc, l_vv := merge_vv (l_vv l) vv,
     l_last_writer := w, l_updated_at := ts, l_deleted_at := None\<rparr>"
| "edit_row (TombLine del vv w ts) l = l\<lparr>l_deleted_at := Some del, l_vv := merge_vv (l_vv l) vv,
     l_last_writer := w, l_updated_at := ts\<rparr>"

definition edit_admitted :: "line \<Rightarrow> line_edit \<Rightarrow> bool" where
  "edit_admitted l p \<longleftrightarrow> advances_writer (l_vv l) (edit_vv p) (edit_writer p)"

definition line_view ::
    "line \<Rightarrow> timestamp option \<times> string option \<times> string \<times> timestamp" where
  "line_view l = (l_deleted_at l, if l_deleted_at l = None then Some (l_content l) else None,
     l_last_writer l, l_updated_at l)"

interpretation line_cell: lww_cell l_vv l_updated_at l_last_writer edit_vv edit_ts edit_writer
  edit_admitted edit_row line_view
proof (unfold_locales, goal_cases)
  case (1 p s) show ?case by (cases p) simp_all
next
  case (2 p s) show ?case by (cases p) simp_all
next
  case (3 s p) then show ?case by (cases p) (simp_all add: merge_vv_absorb)
next
  case (4 p s s') show ?case by (cases p) (simp_all add: line_view_def)
next
  case (5 s p) then show ?case by (simp add: edit_admitted_def advances_writer_def)
qed

text \<open>The edit an operation makes of line \<open>i\<close>, once its content is accepted and encrypted.\<close>

inductive op_edits :: "core \<Rightarrow> store \<Rightarrow> string \<Rightarrow> uuid \<Rightarrow> line_op \<Rightarrow> line_edit \<Rightarrow> bool"
  for co st nonce i where
  update: "newline \<notin> set c \<Longrightarrow> length c \<le> max_line_bytes co \<Longrightarrow> store_encrypt st nonce c = Inr enc \<Longrightarrow>
     op_edits co st nonce i (Update i c vv w ts) (SetLine enc vv w ts)"
| delete: "op_edits co st nonce i (Delete i del vv w ts) (TombLine del vv w ts)"

lemma op_edits_writer: "op_edits co st nonce i op e \<Longrightarrow> op_last_writer op = edit_writer e"
  by (induction rule: op_edits.induct) simp_all

lemma line_step_eq:
  "line_cell.step co e l =
     (if advances_writer (l_vv l) (edit_vv e) (edit_writer e)
         \<and> resolve co (l_vv l) (l_updated_at l) (l_last_writer l) (edit_vv e) (edit_ts e) (edit_writer e) = Incoming
      then edit_row e l else l)"
  unfolding line_cell.step_def edit_admitted_def ..

lemma apply_op_edit:
  assumes "op_edits co st nonce i op e" and "tbl_get (lines d) i = Some l" and "l_note_id l = nid"
    and "op_last_writer op = uuid_str co dev"
    and "apply_op co st nonce now nid dev op d = Inr (out, d')"
  shows "tbl_get (lines d') i = Some (line_cell.step co e l)"
  using assms
proof (induction rule: op_edits.induct)
  case (update c enc vv w ts)
  then show ?case
    by (cases "store_decrypt st (l_content l)")
      (auto simp: apply_op_def apply_update_def then_get_line update_line_on_def Let_def
        line_winner_def line_step_eq split: if_splits)
next
  case (delete del vv w ts)
  then show ?case
    by (cases "store_decrypt st (l_content l)")
      (auto simp: apply_op_def apply_delete_def then_get_line soft_delete_line_on_def Let_def res_simps
        line_winner_def line_step_eq split: if_splits)
qed

lemma step_note_id: "l_note_id (line_cell.step co e l) = l_note_id l"
  by (cases e) (simp_all add: line_step_eq)

subsection \<open>A small note, for closed instances\<close>

definition demo_user :: "uuid \<Rightarrow> user" where
  "demo_user u = \<lparr>u_id = u, u_email = show_nat u, u_password_hash = ''h'', u_display_name = ''n'',
     u_created_at = 0, u_email_verified_at = None\<rparr>"

definition demo_note :: note_row where
  "demo_note = \<lparr>n_id = 5, n_title = ''t'', n_owner_id = 1, n_notebook_id = None, n_is_todo = False,
     n_todo_due = None, n_todo_completed = None, n_created_at = 0, n_updated_at = 0,
     n_deleted_at = None\<rparr>"

definition demo_order :: note_order where
  "demo_order = \<lparr>o_note_id = 5, o_order = [], o_updated_at = 0, o_vv = Map.empty, o_last_writer = ''u''\<rparr>"

definition demo_db :: db where
  "demo_db = empty_db\<lparr>users := [(1, demo_user 1), (2, demo_user 2)], notes_tbl := [(5, demo_note)],
     note_line_order := [(5, demo_order)]\<rparr>"

definition demo_ops :: "line_op list" where
  "demo_ops = [Insert None 7 ''a'' [''u'' \<mapsto> 1] ''u'' 1, Insert (Some 7) 8 ''b'' [''u'' \<mapsto> 2] ''u'' 2,
     Move [8] None [''u'' \<mapsto> 3] ''u'' 3]"

lemmas op_eval = apply_op_def apply_insert_def apply_update_def apply_delete_def apply_move_def
  get_line_on_def decrypt_line_def get_note_order_on_def set_note_order_on_def insert_line_on_def
  update_line_on_def soft_delete_line_on_def count_live_lines_on_def Let_def newline_def
  position_after_def splice_at_def order_winner_def line_winner_def advances_writer_def
  ref_core_def ref_resolve_def vv_le_single merge_vv_least later_def tbl_defs

lemmas demo_defs = demo_db_def demo_note_def demo_order_def empty_db_def demo_user_def

lemma demo_db_ok: "lines_ok demo_db" "orders_distinct demo_db"
  by (auto simp: lines_ok_def orders_distinct_def note_lines_def demo_defs tbl_defs split: if_splits)

lemma demo_ops_run:
  "\<exists>a e d. apply_ops ref_core plain_store (\<lambda>_. []) 9 5 1 0 demo_ops demo_db = Inr (a, e, d)
    \<and> map_option o_order (tbl_get (note_line_order d) 5) = Some [8, 7] \<and> e = []"
  by (simp add: demo_ops_def demo_defs op_eval is_prefix_def ENC_PREFIX_def)

definition demo_line :: line where
  "demo_line = \<lparr>l_id = 7, l_note_id = 5, l_content = ''a'', l_created_at = 0, l_updated_at = 1,
     l_deleted_at = None, l_vv = [''u'' \<mapsto> 1], l_last_writer = ''u''\<rparr>"

definition demo_db7 :: db where
  "demo_db7 = demo_db\<lparr>lines := [(7, demo_line)],
     note_line_order := [(5, demo_order\<lparr>o_order := [7], o_vv := [''u'' \<mapsto> 1], o_updated_at := 1\<rparr>)]\<rparr>"

definition edit_u :: line_op where
  "edit_u = Update 7 ''b'' [''u'' \<mapsto> 2] ''u'' 5"

definition edit_uu :: line_op where
  "edit_uu = Delete 7 6 [''u'' \<mapsto> 1, ''uu'' \<mapsto> 1] ''uu'' 6"

lemmas demo7_defs = demo_db7_def demo_line_def edit_u_def edit_uu_def demo_defs

lemma vv_le_two: "k \<noteq> k' \<Longrightarrow> vv_le [k \<mapsto> n, k' \<mapsto> m] b \<longleftrightarrow> n \<le> vv_get b k \<and> m \<le> vv_get b k'"
  by (auto simp: vv_le_def)

lemmas edit_eval = apply_op_def apply_update_def apply_delete_def get_line_on_def decrypt_line_def
  update_line_on_def soft_delete_line_on_def Let_def newline_def line_winner_def advances_writer_def
  ref_core_def ref_resolve_def vv_le_single vv_le_two merge_vv_least later_def tbl_defs
  is_prefix_def ENC_PREFIX_def

lemma demo_edits_run:
  "\<exists>a d1 b d12. apply_op ref_core plain_store [] 9 5 1 edit_u demo_db7 = Inr (Applied a, d1)
     \<and> apply_op ref_core plain_store [] 9 5 2 edit_uu d1 = Inr (b, d12)"
  "\<exists>a d2 b d21. apply_op ref_core plain_store [] 9 5 2 edit_uu demo_db7 = Inr (a, d2)
     \<and> apply_op ref_core plain_store [] 9 5 1 edit_u d2 = Inr (b, d21)"
  "\<exists>a d1 b d11. apply_op ref_core plain_store [] 9 5 1 edit_u demo_db7 = Inr (Applied a, d1)
     \<and> apply_op ref_core plain_store [] 9 5 1 edit_u d1 = Inr (b, d11)"
  by (simp_all add: demo7_defs edit_eval)

subsection \<open>Replays and signatures\<close>

lemma advances_writer_merge [simp]: "\<not> advances_writer (merge_vv a b) b w"
  by (simp add: advances_writer_def)

lemma replay_not_applied:
  assumes "apply_op co st nonce now nid dev op d = Inr (Applied a, d')"
  shows "apply_op co st nonce' now' nid dev op d' \<noteq> Inr (Applied b, d'')"
proof
  assume "apply_op co st nonce' now' nid dev op d' = Inr (Applied b, d'')"
  from apply_op_body_applied(1) [OF assms] apply_op_body_applied(1) [OF this] show False
    by (cases op) (auto elim!: apply_op_elims)
qed

lemma apply_op_out_cases:
  assumes "apply_op co st nonce now nid dev op d = Inr (out, d')"
  obtains "out = Applied op" "op_last_writer op = uuid_str co dev"
    | "\<And>a. out \<noteq> Applied a" "d' = d"
proof (cases out)
  case (Applied a)
  with assms apply_op_applied_same apply_op_body_applied(2) that(1) show thesis by blast
qed (use assms that(2) apply_op_not_applied in blast)+

lemma apply_ops_applied_signed:
  assumes "apply_ops co st nonces now nid dev k ops d = Inr (applied, errs, d')"
  shows "subseq applied ops \<and> (\<forall>a\<in>set applied. op_last_writer a = uuid_str co dev)
    \<and> (applied = [] \<longrightarrow> d' = d)"
  using assms
proof (induction ops arbitrary: k d applied errs d')
  case (Cons op ops)
  then obtain out d1 applied1 errs1 d2 where
    hd: "apply_op co st (nonces k) now nid dev op d = Inr (out, d1)" and
    tl: "apply_ops co st nonces now nid dev (Suc k) ops d1 = Inr (applied1, errs1, d2)" and
    eq: "note_outcome out (applied1, errs1, d2) = (applied, errs, d')"
    by (auto simp: res_simps)
  from hd show ?case
    using Cons.IH [OF tl] eq
    by (cases rule: apply_op_out_cases) (cases out; auto)+
qed auto

subsection \<open>Properties\<close>

text \<open>
  C2: a batch of line operations that the server accepts keeps the lines and the order of
  every note consistent: an order lists exactly the identifiers of the note's lines (live
  and tombstoned), and it lists none twice as long as no \<open>Move\<close> of the batch names a line
  twice.
\<close>

theorem apply_ops_consistent:
  assumes "lines_ok d"
    and "apply_ops co st nonces now note_id device_id k ops d = Inr (applied, errs, d')"
  shows "lines_ok d' \<and> (orders_distinct d \<and> list_all op_moves_distinct ops \<longrightarrow> orders_distinct d')"
  using apply_ops_effect [OF assms(2)] assms(1) by blast

theorem apply_ops_consistent_witness:
  "\<exists>a e d'. apply_ops ref_core plain_store (\<lambda>_. []) 9 5 1 0 demo_ops demo_db = Inr (a, e, d')
     \<and> lines_ok d' \<and> orders_distinct d'"
proof -
  from demo_ops_run obtain a e d' where
    run: "apply_ops ref_core plain_store (\<lambda>_. []) 9 5 1 0 demo_ops demo_db = Inr (a, e, d')"
    by blast
  have "list_all op_moves_distinct demo_ops" by (simp add: demo_ops_def)
  with apply_ops_consistent [OF demo_db_ok(1) run] demo_db_ok(2) run show ?thesis by blast
qed

text \<open>
  C10: operations on one note are isolated from the rest of the database: no line of another
  note, no other note's order and no row of any other table is written, whatever the batch
  contains (for instance an \<open>Update\<close> naming a line of a note the sender cannot write).
\<close>

theorem apply_ops_isolated:
  assumes "apply_ops co st nonces now note_id device_id k ops d = Inr (applied, errs, d')"
  shows "(\<exists>ls os. d' = d\<lparr>lines := ls, note_line_order := os\<rparr>) \<and>
    (\<forall>i l. l_note_id l \<noteq> note_id \<longrightarrow> (tbl_get (lines d') i = Some l \<longleftrightarrow> tbl_get (lines d) i = Some l)) \<and>
    (\<forall>n. n \<noteq> note_id \<longrightarrow> tbl_get (note_line_order d') n = tbl_get (note_line_order d) n)"
  using apply_ops_effect [OF assms] unfolding touches_only_def by blast

theorem apply_ops_isolated_witness:
  "\<exists>a e d'. apply_ops ref_core plain_store (\<lambda>_. []) 9 5 1 0 demo_ops demo_db = Inr (a, e, d')
     \<and> tbl_get (note_line_order d') 6 = tbl_get (note_line_order demo_db) 6"
proof -
  from demo_ops_run obtain a e d' where
    run: "apply_ops ref_core plain_store (\<lambda>_. []) 9 5 1 0 demo_ops demo_db = Inr (a, e, d')"
    by blast
  with apply_ops_isolated [OF run] show ?thesis by auto
qed

text \<open>
  The version vectors of a note's lines and of its order only grow, and a line operation
  never removes a line (deletion is a tombstone).
\<close>

theorem apply_ops_monotone:
  assumes "apply_ops co st nonces now note_id device_id k ops d = Inr (applied, errs, d')"
    and "tbl_get (lines d) i = Some l"
  shows "\<exists>l'. tbl_get (lines d') i = Some l' \<and> vv_le (l_vv l) (l_vv l') \<and> l_note_id l' = l_note_id l"
  using apply_ops_effect [OF assms(1)] assms(2) unfolding vvs_grow_def by blast

theorem apply_ops_monotone_witness:
  "\<exists>a e d'. apply_ops ref_core plain_store (\<lambda>_. []) 9 5 1 0 [edit_u] demo_db7 = Inr (a, e, d')
     \<and> (\<exists>l'. tbl_get (lines d') 7 = Some l' \<and> vv_le [''u'' \<mapsto> 1] (l_vv l'))"
proof -
  from demo_edits_run(1) obtain a e d' where
    run: "apply_ops ref_core plain_store (\<lambda>_. []) 9 5 1 0 [edit_u] demo_db7 = Inr (a, e, d')"
    by auto
  have "tbl_get (lines demo_db7) 7 = Some demo_line" by (simp add: demo_db7_def tbl_defs)
  from apply_ops_monotone [OF run this] run show ?thesis by (auto simp: demo_line_def)
qed

text \<open>
  C35: delivering an operation again is harmless: once applied, the same operation is never
  applied a second time, and the second attempt leaves the database as it was.
\<close>

theorem apply_op_replay:
  assumes "apply_op co st nonce now note_id device_id op d = Inr (Applied a, d')"
    and "apply_op co st nonce' now' note_id device_id op d' = Inr (out, d'')"
  shows "d'' = d' \<and> (\<forall>b. out \<noteq> Applied b)"
  using replay_not_applied [OF assms(1)] assms(2) by (blast elim: apply_op_out_cases)

theorem apply_op_replay_witness:
  "\<exists>a d1 b d2. apply_op ref_core plain_store [] 9 5 1 edit_u demo_db7 = Inr (Applied a, d1)
     \<and> apply_op ref_core plain_store [] 9 5 1 edit_u d1 = Inr (b, d2) \<and> d2 = d1"
proof -
  from demo_edits_run(3) obtain a d1 b d2 where
    run: "apply_op ref_core plain_store [] 9 5 1 edit_u demo_db7 = Inr (Applied a, d1)"
    "apply_op ref_core plain_store [] 9 5 1 edit_u d1 = Inr (b, d2)" by blast
  from apply_op_replay [OF run] run show ?thesis by blast
qed

text \<open>
  Only operations signed by the connection's device are applied, they are applied in the
  order of the message, and a batch of which nothing is applied leaves the database as it was.
\<close>

theorem apply_ops_signed:
  assumes "apply_ops co st nonces now note_id device_id k ops d = Inr (applied, errs, d')"
  shows "subseq applied ops \<and> (\<forall>a\<in>set applied. op_last_writer a = uuid_str co device_id)
    \<and> (applied = [] \<longrightarrow> d' = d)"
  using apply_ops_applied_signed [OF assms] .

theorem apply_ops_signed_witness:
  "\<exists>a e d'. apply_ops ref_core plain_store (\<lambda>_. []) 9 5 1 0 demo_ops demo_db = Inr (a, e, d')
     \<and> subseq a demo_ops"
proof -
  from demo_ops_run obtain a e d' where
    run: "apply_ops ref_core plain_store (\<lambda>_. []) 9 5 1 0 demo_ops demo_db = Inr (a, e, d')"
    by blast
  from apply_ops_signed [OF run] run show ?thesis by blast
qed

text \<open>
  C11: two devices edit the same line concurrently (each has seen the stored version of the
  line and not the other's edit). Whichever operation the server receives first, the line
  ends up the same to a reader: same tombstone, same stored content while it is live, same
  writer and time.
\<close>

theorem concurrent_edits_converge:
  assumes "resolver_ok co" and "tbl_get (lines d) i = Some l" and "l_note_id l = note_id"
    and "op_edits co st np i p ep" and "op_last_writer p = uuid_str co dp"
    and "op_edits co st nq i q eq" and "op_last_writer q = uuid_str co dq"
    and "vv_le (l_vv l) (edit_vv ep)" and "advances_writer (l_vv l) (edit_vv ep) (edit_writer ep)"
    and "vv_le (l_vv l) (edit_vv eq)" and "advances_writer (l_vv l) (edit_vv eq) (edit_writer eq)"
    and "advances_writer (edit_vv eq) (edit_vv ep) (edit_writer ep)"
    and "advances_writer (edit_vv ep) (edit_vv eq) (edit_writer eq)"
    and "apply_op co st np now note_id dp p d = Inr (op1, d1)"
    and "apply_op co st nq now note_id dq q d1 = Inr (op2, d12)"
    and "apply_op co st nq now note_id dq q d = Inr (oq1, d2)"
    and "apply_op co st np now note_id dp p d2 = Inr (oq2, d21)"
  shows "\<exists>a b. tbl_get (lines d12) i = Some a \<and> tbl_get (lines d21) i = Some b
    \<and> line_view a = line_view b"
proof -
  have pq: "tbl_get (lines d12) i = Some (line_cell.step co eq (line_cell.step co ep l))"
    by (rule apply_op_edit [OF assms(6) apply_op_edit [OF assms(4,2,3,5,14)] _ assms(7,15)])
      (simp add: step_note_id assms)
  have qp: "tbl_get (lines d21) i = Some (line_cell.step co ep (line_cell.step co eq l))"
    by (rule apply_op_edit [OF assms(4) apply_op_edit [OF assms(6,2,3,7,16)] _ assms(5,17)])
      (simp add: step_note_id assms)
  have "line_view (line_cell.step co eq (line_cell.step co ep l)) =
      line_view (line_cell.step co ep (line_cell.step co eq l))"
    using assms(8-13) unfolding advances_writer_def by (intro line_cell.converge assms(1))
  with pq qp show ?thesis by blast
qed

theorem concurrent_edits_converge_witness:
  "\<exists>o1 d1 o2 d12 o3 d2 o4 d21 a b.
     apply_op ref_core plain_store [] 9 5 1 edit_u demo_db7 = Inr (o1, d1)
     \<and> apply_op ref_core plain_store [] 9 5 2 edit_uu d1 = Inr (o2, d12)
     \<and> apply_op ref_core plain_store [] 9 5 2 edit_uu demo_db7 = Inr (o3, d2)
     \<and> apply_op ref_core plain_store [] 9 5 1 edit_u d2 = Inr (o4, d21)
     \<and> tbl_get (lines d12) 7 = Some a \<and> tbl_get (lines d21) 7 = Some b \<and> line_view a = line_view b"
proof -
  from demo_edits_run(1,2) obtain o1 d1 o2 d12 o3 d2 o4 d21 where
    r: "apply_op ref_core plain_store [] 9 5 1 edit_u demo_db7 = Inr (o1, d1)"
    "apply_op ref_core plain_store [] 9 5 2 edit_uu d1 = Inr (o2, d12)"
    "apply_op ref_core plain_store [] 9 5 2 edit_uu demo_db7 = Inr (o3, d2)"
    "apply_op ref_core plain_store [] 9 5 1 edit_u d2 = Inr (o4, d21)" by blast
  have l: "tbl_get (lines demo_db7) 7 = Some demo_line" "l_note_id demo_line = 5"
    by (simp_all add: demo_db7_def demo_line_def tbl_defs)
  have e: "op_edits ref_core plain_store [] 7 edit_u (SetLine ''b'' [''u'' \<mapsto> 2] ''u'' 5)"
    "op_edits ref_core plain_store [] 7 edit_uu (TombLine 6 [''u'' \<mapsto> 1, ''uu'' \<mapsto> 1] ''uu'' 6)"
    unfolding edit_u_def edit_uu_def
    by (auto intro!: op_edits.intros simp: newline_def ref_core_def)
  have w: "op_last_writer edit_u = uuid_str ref_core 1" "op_last_writer edit_uu = uuid_str ref_core 2"
    by (simp_all add: edit_u_def edit_uu_def ref_core_def eval_nat_numeral)
  have "\<exists>a b. tbl_get (lines d12) 7 = Some a \<and> tbl_get (lines d21) 7 = Some b \<and> line_view a = line_view b"
    by (rule concurrent_edits_converge [OF ref_core_ok l e(1) w(1) e(2) w(2) _ _ _ _ _ _ r])
      (simp_all add: demo_line_def vv_le_single advances_writer_def)
  with r show ?thesis by blast
qed

subsection \<open>Two gaps\<close>

text \<open>
  A \<open>Move\<close> that names a line twice is accepted and leaves the line twice in the order.
\<close>

theorem move_duplicates_order:
  "\<exists>op d'. apply_op ref_core plain_store [] 9 5 1 (Move [7, 7] None [''u'' \<mapsto> 3] ''u'' 5) demo_db7
       = Inr (Applied op, d') \<and> map_option o_order (get_note_order_on 5 d') = Some [7, 7]"
  by (simp add: demo7_defs op_eval vv_le_single)

definition full_db :: db where
  "full_db = demo_db7\<lparr>lines := [(7, demo_line), (8, demo_line\<lparr>l_id := 8\<rparr>),
     (10, demo_line\<lparr>l_id := 10, l_deleted_at := Some 3\<rparr>)],
     note_line_order := [(5, demo_order\<lparr>o_order := [7, 8, 10], o_vv := [''u'' \<mapsto> 1], o_updated_at := 1\<rparr>)]\<rparr>"

text \<open>
  The limit on the live lines of a note is checked for \<open>Insert\<close> only: an \<open>Update\<close> of a
  tombstoned line makes it live again in a note that is already at the limit.
\<close>

theorem update_revives_past_limit:
  "count_live_lines_on 5 full_db = max_lines_per_note ref_core \<and>
   (\<exists>op d'. apply_op ref_core plain_store [] 9 5 1 (Update 10 ''b'' [''u'' \<mapsto> 2] ''u'' 5) full_db
       = Inr (Applied op, d') \<and> count_live_lines_on 5 d' > max_lines_per_note ref_core)"
  by (simp add: full_db_def demo7_defs edit_eval count_live_lines_on_def)

end
