(* ===== verification/Journal.thy ===== *)
theory Journal
  imports Store_Accounts
begin

text \<open>
  The relay journal: \<open>store.rs\<close> (\<open>append_changes\<close>, \<open>changes_after\<close>, the delivery cursors and
  pruning) and \<open>sync.rs\<close> (delivering the backlog to a device). A batch is deduplicated by
  \<open>(user, batch, index)\<close>; every insertion attempt draws a number of the \<open>BIGSERIAL\<close> sequence.
\<close>

subsection \<open>Appending\<close>

definition has_change :: "uuid \<Rightarrow> uuid \<Rightarrow> nat \<Rightarrow> db \<Rightarrow> bool" where
  "has_change user_id batch_id idx d \<longleftrightarrow>
     (\<exists>r\<in>set (changes d). c_user_id (snd r) = user_id \<and> c_batch_id (snd r) = batch_id
        \<and> c_batch_index (snd r) = idx)"

definition new_job :: "timestamp \<Rightarrow> projection_job" where
  "new_job now = \<lparr>j_state = Pending, j_attempts = 0, j_available_at = now, j_leased_by = None,
     j_leased_until = None, j_last_error = None, j_created_at = now, j_updated_at = now\<rparr>"

fun append_loop ::
    "timestamp \<Rightarrow> uuid \<Rightarrow> uuid \<Rightarrow> string \<Rightarrow> uuid \<Rightarrow> nat \<Rightarrow> json list \<Rightarrow> db \<Rightarrow> (nat \<times> json) list \<times> db" where
  "append_loop now user_id origin sync_device batch_id idx [] d = ([], d)"
| "append_loop now user_id origin sync_device batch_id idx (payload # rest) d =
     (let seq = changes_next d;
          d0 = d\<lparr>changes_next := Suc seq\<rparr>
      in if has_change user_id batch_id idx d
         then append_loop now user_id origin sync_device batch_id (Suc idx) rest d0
         else
           let row = \<lparr>c_seq = seq, c_user_id = user_id, c_origin_device_id = origin,
                      c_batch_id = batch_id, c_batch_index = idx, c_sync_device_id = sync_device,
                      c_payload = payload, c_received_at = now\<rparr>;
               jobs = (if tbl_get (projection_jobs d0) (user_id, batch_id, idx) = None
                 then tbl_put (user_id, batch_id, idx) (new_job now) (projection_jobs d0)
                 else projection_jobs d0);
               d1 = d0\<lparr>changes := tbl_put seq row (changes d0), projection_jobs := jobs\<rparr>;
               (inserted, d2) = append_loop now user_id origin sync_device batch_id (Suc idx) rest d1
           in ((seq, payload) # inserted, d2))"

definition append_changes ::
    "timestamp \<Rightarrow> uuid \<Rightarrow> uuid \<Rightarrow> string \<Rightarrow> uuid \<Rightarrow> json list \<Rightarrow> db \<Rightarrow> ((nat \<times> json) list \<times> db) result" where
  "append_changes now user_id origin sync_device batch_id payloads d =
     (if tbl_get (users d) user_id = None \<and> payloads \<noteq> [] then Inl foreign_key_violation
      else Inr (append_loop now user_id origin sync_device batch_id 0 payloads d))"

subsection \<open>Reading and cursors\<close>

definition changes_after :: "uuid \<Rightarrow> nat \<Rightarrow> nat \<Rightarrow> db \<Rightarrow> change_row list" where
  "changes_after user_id after_seq limit d =
     take limit (sort_key c_seq
       (tbl_select (\<lambda>_ c. c_user_id c = user_id \<and> c_seq c > after_seq) (changes d)))"

definition get_cursor :: "uuid \<Rightarrow> db \<Rightarrow> nat" where
  "get_cursor device_id d = coalesce (tbl_get (device_cursors d) device_id) 0"

definition advance_cursor :: "uuid \<Rightarrow> nat \<Rightarrow> db \<Rightarrow> db result" where
  "advance_cursor device_id seq d =
     (case tbl_get (device_cursors d) device_id of
        Some last_seq \<Rightarrow> Inr (d\<lparr>device_cursors := tbl_put device_id (max last_seq seq) (device_cursors d)\<rparr>)
      | None \<Rightarrow>
          if tbl_get (user_devices d) device_id = None then Inl foreign_key_violation
          else Inr (d\<lparr>device_cursors := tbl_put device_id seq (device_cursors d)\<rparr>))"

definition min_cursor :: "uuid \<Rightarrow> db \<Rightarrow> nat" where
  "min_cursor user_id d =
     (let cs = List.map_filter (\<lambda>r. if d_user_id (snd r) = user_id
            then tbl_get (device_cursors d) (fst r) else None) (user_devices d)
      in if cs = [] then 0 else Min (set cs))"

definition prunable :: "timestamp \<Rightarrow> db \<Rightarrow> change_row \<Rightarrow> bool" where
  "prunable older_than d c \<longleftrightarrow> c_received_at c < older_than \<and> c_seq c \<le> min_cursor (c_user_id c) d \<and>
     tbl_get (projection_jobs d) (c_user_id c, c_batch_id c, c_batch_index c) = None"

definition prune_delivered_changes :: "timestamp \<Rightarrow> db \<Rightarrow> nat \<times> db" where
  "prune_delivered_changes older_than d =
     (tbl_count (\<lambda>_ c. prunable older_than d c) (changes d),
      d\<lparr>changes := tbl_del_where (\<lambda>_ c. prunable older_than d c) (changes d)\<rparr>)"

subsection \<open>Delivering the backlog\<close>

definition CHUNK_SIZE :: nat where
  "CHUNK_SIZE = 200"

text \<open>
  \<open>ok k\<close> says whether the \<open>k\<close>-th send on the socket succeeds. The result is the frames the
  device received (each the list of its payloads), the error that ended the loop if any, and
  the database.
\<close>

lemma changes_after_In:
  assumes "c \<in> set (changes_after user_id cur n d)"
  shows "cur < c_seq c \<and> c_user_id c = user_id \<and> (\<exists>k. (k, c) \<in> set (changes d))"
  using in_set_takeD [OF assms [unfolded changes_after_def]] by (auto simp: tbl_select_def)

lemma advance_cursor_changes: "advance_cursor device seq d = Inr d' \<Longrightarrow> changes d' = changes d"
  by (auto simp: advance_cursor_def split: option.splits if_splits)

function backlog_loop ::
    "(nat \<Rightarrow> bool) \<Rightarrow> nat \<Rightarrow> uuid \<Rightarrow> uuid \<Rightarrow> nat \<Rightarrow> db \<Rightarrow> json list list \<times> app_error option \<times> db" where
  "backlog_loop ok k user_id device_id cursor d =
     (let rows = changes_after user_id cursor CHUNK_SIZE d
      in if rows = [] then ([], None, d)
         else
           let last_seq = c_seq (last rows);
               deliverable = filter (\<lambda>r. c_origin_device_id r \<noteq> device_id) rows;
               frames = (if deliverable = [] then [] else [map c_payload deliverable])
           in if deliverable \<noteq> [] \<and> \<not> ok k then ([], Some (Internal ''socket closed''), d)
              else case advance_cursor device_id last_seq d of
                Inl e \<Rightarrow> (frames, Some e, d)
              | Inr d' \<Rightarrow>
                  let (more, e, d'') = backlog_loop ok (if deliverable = [] then k else Suc k)
                        user_id device_id last_seq d'
                  in (frames @ more, e, d''))"
  by pat_completeness auto
termination
proof (relation "measure (\<lambda>(ok, k, u, dev, cur, d). length (filter (\<lambda>r. c_user_id (snd r) = u \<and> cur < c_seq (snd r)) (changes d)))",
    simp, goal_cases)
  case (1 ok k u dev cur d rows last_seq deliverable frames d')
  then have ch: "changes d' = changes d" by (simp add: advance_cursor_changes)
  let ?c = "last rows"
  have "?c \<in> set (changes_after u cur CHUNK_SIZE d)" using 1 by simp
  from changes_after_In [OF this] obtain s where
    c: "cur < c_seq ?c" "c_user_id ?c = u" "(s, ?c) \<in> set (changes d)" by blast
  let ?left = "filter (\<lambda>r. c_user_id (snd r) = u \<and> cur < c_seq (snd r)) (changes d)"
  have "filter (\<lambda>r. c_user_id (snd r) = u \<and> c_seq ?c < c_seq (snd r)) (changes d) =
      filter (\<lambda>r. c_seq ?c < c_seq (snd r)) ?left"
    using c(1) by (auto intro: filter_cong)
  moreover have "length (filter (\<lambda>r. c_seq ?c < c_seq (snd r)) ?left) < length ?left"
    using c by (intro length_filter_less [of "(s, ?c)"]) auto
  ultimately have "length (filter (\<lambda>r. c_user_id (snd r) = u \<and> c_seq ?c < c_seq (snd r)) (changes d))
      < length ?left" by simp
  with ch 1 show ?case by simp
qed

declare backlog_loop.simps [simp del]

definition deliver_backlog ::
    "(nat \<Rightarrow> bool) \<Rightarrow> uuid \<Rightarrow> uuid \<Rightarrow> db \<Rightarrow> json list list \<times> app_error option \<times> db" where
  "deliver_backlog ok user_id device_id d =
     backlog_loop ok 0 user_id device_id (get_cursor device_id d) d"


subsection \<open>The journal of a user\<close>

definition user_changes :: "uuid \<Rightarrow> db \<Rightarrow> change_row list" where
  "user_changes user_id d = sort_key c_seq (tbl_select (\<lambda>_ c. c_user_id c = user_id) (changes d))"

definition journal_ok :: "db \<Rightarrow> bool" where
  "journal_ok d \<longleftrightarrow> tbl_ok (changes d) \<and>
     (\<forall>k c. tbl_get (changes d) k = Some c \<longrightarrow> c_seq c = k \<and> 0 < k \<and> k < changes_next d)"

text \<open>What another device of the user has to receive between two positions of the journal.\<close>

definition pending :: "uuid \<Rightarrow> uuid \<Rightarrow> nat \<Rightarrow> nat \<Rightarrow> db \<Rightarrow> json list" where
  "pending user_id device_id lo hi d =
     map c_payload (filter (\<lambda>c. c_origin_device_id c \<noteq> device_id)
       (filter (\<lambda>c. lo < c_seq c \<and> c_seq c \<le> hi) (user_changes user_id d)))"

lemma changes_after_eq:
  "changes_after u cur n d = take n (filter (\<lambda>c. cur < c_seq c) (user_changes u d))"
proof -
  have "tbl_select (\<lambda>_ c. c_user_id c = u \<and> cur < c_seq c) (changes d) =
      filter (\<lambda>c. cur < c_seq c) (tbl_select (\<lambda>_ c. c_user_id c = u) (changes d))"
    by (simp add: tbl_select_def filter_map comp_def conj_commute)
  then show ?thesis by (simp add: changes_after_def user_changes_def filter_sort)
qed

lemma user_changes_strict:
  assumes "journal_ok d"
  shows "sorted_wrt (<) (map c_seq (user_changes u d))"
proof -
  let ?rows = "filter (\<lambda>r. c_user_id (snd r) = u) (changes d)"
  have ok: "tbl_ok (changes d)" and key: "\<And>r. r \<in> set (changes d) \<Longrightarrow> c_seq (snd r) = fst r"
    using assms by (auto simp: journal_ok_def tbl_get_in_iff)
  have "map c_seq (tbl_select (\<lambda>_ c. c_user_id c = u) (changes d)) = map fst ?rows"
    using key by (auto simp: tbl_select_def)
  moreover have "distinct (map fst ?rows)" using ok by (simp add: tbl_ok_def distinct_map_filter)
  ultimately have "distinct (map c_seq (tbl_select (\<lambda>_ c. c_user_id c = u) (changes d)))" by simp
  then have "distinct (map c_seq (user_changes u d))"
    unfolding user_changes_def by (simp add: distinct_map)
  then show ?thesis
    by (simp add: strict_sorted_iff user_changes_def sorted_sort_key)
qed

lemma pending_chunk:
  assumes "journal_ok d" and "rows = changes_after u cur n d" and "rows \<noteq> []"
  shows "map c_payload (filter (\<lambda>r. c_origin_device_id r \<noteq> dev) rows) = pending u dev cur (c_seq (last rows)) d"
    and "cur < c_seq (last rows)"
proof -
  let ?F = "filter (\<lambda>c. cur < c_seq c) (user_changes u d)"
  have rows: "rows = take n ?F" using assms(2) by (simp add: changes_after_eq)
  have "filter (\<lambda>c. c_seq c \<le> c_seq (last (take n ?F))) ?F = take n ?F"
    by (rule strict_filter_take(1)) (use assms rows user_changes_strict [OF assms(1)] in
      \<open>simp_all add: sorted_wrt_map_filter\<close>)
  then have "filter (\<lambda>c. cur < c_seq c \<and> c_seq c \<le> c_seq (last rows)) (user_changes u d) = rows"
    by (simp add: rows conj_commute)
  then show "map c_payload (filter (\<lambda>r. c_origin_device_id r \<noteq> dev) rows) = pending u dev cur (c_seq (last rows)) d"
    by (simp add: pending_def)
  show "cur < c_seq (last rows)"
    using changes_after_In [of "last rows" u cur n d] assms by simp
qed

lemma pending_split:
  assumes "lo \<le> mid" and "mid \<le> hi" and "journal_ok d"
  shows "pending u dev lo hi d = pending u dev lo mid d @ pending u dev mid hi d"
proof -
  have "filter (\<lambda>c. lo < c_seq c \<and> c_seq c \<le> hi) xs =
      filter (\<lambda>c. lo < c_seq c \<and> c_seq c \<le> mid) xs @ filter (\<lambda>c. mid < c_seq c \<and> c_seq c \<le> hi) xs"
    if "sorted_wrt (<) (map c_seq xs)" for xs
    using that assms(1,2)
  proof (induction xs)
    case (Cons x xs)
    then have IH: "filter (\<lambda>c. lo < c_seq c \<and> c_seq c \<le> hi) xs =
      filter (\<lambda>c. lo < c_seq c \<and> c_seq c \<le> mid) xs @ filter (\<lambda>c. mid < c_seq c \<and> c_seq c \<le> hi) xs" by simp
    show ?case
    proof (cases "mid < c_seq x")
      case True
      then have "filter (\<lambda>c. lo < c_seq c \<and> c_seq c \<le> mid) xs = []"
        using Cons.prems(1) by (fastforce simp: filter_empty_conv)
      with True IH Cons.prems show ?thesis by auto
    next
      case False
      with IH Cons.prems show ?thesis by auto
    qed
  qed simp
  from this [OF user_changes_strict [OF assms(3)]] show ?thesis by (simp add: pending_def)
qed


lemma advance_cursor_get:
  assumes "advance_cursor dev seq d = Inr d'" and "get_cursor dev d \<le> seq"
  shows "get_cursor dev d' = seq" and "journal_ok d' = journal_ok d" and "user_changes u d' = user_changes u d"
  using assms
  by (auto simp: advance_cursor_def get_cursor_def coalesce_def journal_ok_def user_changes_def
      split: option.splits if_splits)

lemma pending_same: "user_changes u d' = user_changes u d \<Longrightarrow> pending u dev lo hi d' = pending u dev lo hi d"
  by (simp add: pending_def)

lemma pending_empty [simp]: "pending u dev cur cur d = []"
  by (simp add: pending_def filter_empty_conv)

lemma backlog_loop_delivers:
  assumes "backlog_loop ok k u dev cur d = (frames, e, d')" and "journal_ok d" and "cur = get_cursor dev d"
  shows "cur \<le> get_cursor dev d' \<and> user_changes u d' = user_changes u d \<and>
    (\<exists>extra. concat frames = pending u dev cur (get_cursor dev d') d @ extra \<and>
      (e = None \<longrightarrow> extra = [] \<and> (\<forall>c\<in>set (user_changes u d). c_seq c \<le> get_cursor dev d')))"
  using assms
proof (induction ok k u dev cur d arbitrary: frames e d' rule: backlog_loop.induct)
  case (1 ok k u dev cur d)
  define rows where "rows = changes_after u cur CHUNK_SIZE d"
  define del where "del = filter (\<lambda>r. c_origin_device_id r \<noteq> dev) rows"
  let ?L = "c_seq (last rows)" and ?fs = "if del = [] then [] else [map c_payload del]"
  have cat: "concat ?fs = map c_payload del" by simp
  note run = 1(2) [unfolded backlog_loop.simps [of ok k u dev cur d], folded rows_def, unfolded Let_def, folded del_def]
  show ?case
  proof (cases "rows = []")
    case True
    then have "filter (\<lambda>c. cur < c_seq c) (user_changes u d) = []"
      by (simp add: rows_def changes_after_eq CHUNK_SIZE_def)
    with True run 1(4) show ?thesis by (auto simp: filter_empty_conv not_less)
  next
    case False
    note chunk = pending_chunk(1) [OF 1(3) rows_def False, of dev, folded del_def]
      pending_chunk(2) [OF 1(3) rows_def False]
    show ?thesis
    proof (cases "(del \<noteq> [] \<and> \<not> ok k) \<or> (\<exists>er. advance_cursor dev ?L d = Inl er)")
      case True
      with run False have "d' = d" "e \<noteq> None" by (auto split: if_splits)
      with 1(4) show ?thesis by auto
    next
      case go: False
      then obtain d1 where d1: "advance_cursor dev ?L d = Inr d1" by (cases "advance_cursor dev ?L d") auto
      let ?k = "if del = [] then k else Suc k"
      obtain more e1 d2 where rec: "backlog_loop ok ?k u dev ?L d1 = (more, e1, d2)"
        by (cases "backlog_loop ok ?k u dev ?L d1") auto
      from run False go d1 rec have res: "frames = ?fs @ more" "e = e1" "d' = d2" by (auto split: if_splits)
      have le: "get_cursor dev d \<le> ?L" using chunk(2) 1(4) by simp
      note adv = advance_cursor_get [OF d1 le]
      have IH: "?L \<le> get_cursor dev d2 \<and> user_changes u d2 = user_changes u d1 \<and>
        (\<exists>extra. concat more = pending u dev ?L (get_cursor dev d2) d1 @ extra \<and>
          (e1 = None \<longrightarrow> extra = [] \<and> (\<forall>c\<in>set (user_changes u d1). c_seq c \<le> get_cursor dev d2)))"
        by (rule 1(1) [OF rows_def _ refl del_def refl _ d1 rec])
          (use False go adv 1(3) in auto)
      then obtain extra where x: "concat more = pending u dev ?L (get_cursor dev d2) d @ extra"
        "e1 = None \<longrightarrow> extra = [] \<and> (\<forall>c\<in>set (user_changes u d). c_seq c \<le> get_cursor dev d2)"
        by (auto simp: adv(3) pending_same [OF adv(3)])
      have "concat frames = pending u dev cur (get_cursor dev d2) d @ extra"
        using pending_split [OF _ _ 1(3), of cur ?L "get_cursor dev d2" u dev] IH chunk
        by (simp add: res cat x(1))
      with IH x(2) res adv chunk(2) show ?thesis by auto
    qed
  qed
qed

subsection \<open>Appending is idempotent and opens a job for every change\<close>

lemma has_change_next [simp]: "has_change u b i (d\<lparr>changes_next := n\<rparr>) = has_change u b i d"
  by (simp add: has_change_def)

definition same_but_next :: "db \<Rightarrow> db \<Rightarrow> bool" where
  "same_but_next d d' \<longleftrightarrow> d' = d\<lparr>changes_next := changes_next d'\<rparr>"

lemma append_loop_duplicate:
  assumes "\<And>j. j < length ps \<Longrightarrow> has_change u b (i + j) d"
  shows "\<exists>n. append_loop now u o1 sd b i ps d = ([], d\<lparr>changes_next := n\<rparr>)"
  using assms
proof (induction ps arbitrary: i d)
  case Nil
  show ?case by (intro exI [of _ "changes_next d"]) simp
next
  case (Cons p ps)
  have "has_change u b i d" using Cons.prems [of 0] by simp
  moreover have "\<exists>n. append_loop now u o1 sd b (Suc i) ps (d\<lparr>changes_next := Suc (changes_next d)\<rparr>) =
      ([], (d\<lparr>changes_next := Suc (changes_next d)\<rparr>)\<lparr>changes_next := n\<rparr>)"
    by (rule Cons.IH) (use Cons.prems in force)
  ultimately show ?case by (simp add: Let_def)
qed

lemma tbl_put_set: "tbl_get t k = None \<Longrightarrow> set (tbl_put k v t) = insert (k, v) (set t)"
  by (simp add: tbl_put_new)

lemma journal_fresh: "journal_ok d \<Longrightarrow> tbl_get (changes d) (changes_next d) = None"
  unfolding journal_ok_def by (cases "tbl_get (changes d) (changes_next d)") auto

lemma append_loop_effect:
  assumes "append_loop now u o1 sd b i ps d = (ins, d')" and "journal_ok d" and "0 < changes_next d"
  shows "journal_ok d' \<and> changes_next d \<le> changes_next d' \<and> set (changes d) \<subseteq> set (changes d')
    \<and> (\<forall>j<length ps. has_change u b (i + j) d')
    \<and> sorted_wrt (<) (map fst ins) \<and> (\<forall>x\<in>set ins. changes_next d \<le> fst x)
    \<and> (\<forall>k jb. tbl_get (projection_jobs d) k = Some jb \<longrightarrow> tbl_get (projection_jobs d') k = Some jb)
    \<and> (\<forall>r\<in>set (changes d'). r \<in> set (changes d) \<or>
         (fst r, c_payload (snd r)) \<in> set ins \<and> c_user_id (snd r) = u \<and> c_origin_device_id (snd r) = o1
         \<and> tbl_get (projection_jobs d') (u, b, c_batch_index (snd r)) \<noteq> None)
    \<and> (\<forall>x\<in>set ins. \<exists>c. (fst x, c) \<in> set (changes d') \<and> c_payload c = snd x)"
  using assms
proof (induction ps arbitrary: i d ins)
  case (Cons p ps)
  let ?n = "changes_next d" and ?d0 = "d\<lparr>changes_next := Suc (changes_next d)\<rparr>"
  show ?case
  proof (cases "has_change u b i d")
    case True
    with Cons.prems(1) have run: "append_loop now u o1 sd b (Suc i) ps ?d0 = (ins, d')" by (simp add: Let_def)
    have "journal_ok ?d0" using Cons.prems(2) by (auto simp: journal_ok_def less_Suc_eq)
    note IH = Cons.IH [OF run this]
    have "set (changes d) \<subseteq> set (changes d')" using IH by simp
    with True have "has_change u b i d'" unfolding has_change_def by blast
    then have "\<forall>j<length (p # ps). has_change u b (i + j) d'" using IH by (auto simp: less_Suc_eq_0_disj)
    with IH show ?thesis by auto
  next
    case False
    define row where "row = \<lparr>c_seq = ?n, c_user_id = u, c_origin_device_id = o1, c_batch_id = b,
      c_batch_index = i, c_sync_device_id = sd, c_payload = p, c_received_at = now\<rparr>"
    define jobs where "jobs = (if tbl_get (projection_jobs d) (u, b, i) = None
      then tbl_put (u, b, i) (new_job now) (projection_jobs d) else projection_jobs d)"
    let ?d1 = "?d0\<lparr>changes := tbl_put ?n row (changes d), projection_jobs := jobs\<rparr>"
    from False Cons.prems(1) obtain ins1 where run: "append_loop now u o1 sd b (Suc i) ps ?d1 = (ins1, d')"
      and ins: "ins = (?n, p) # ins1"
      by (auto simp: Let_def row_def jobs_def split: prod.splits cong: if_cong)
    have fresh: "tbl_get (changes d) ?n = None" by (rule journal_fresh [OF Cons.prems(2)])
    have ok1: "journal_ok ?d1"
      using Cons.prems(2,3) by (auto simp: journal_ok_def row_def less_Suc_eq split: if_splits)
    note IH = Cons.IH [OF run ok1, simplified]
    have set1: "set (changes ?d1) = insert (?n, row) (set (changes d))" by (simp add: tbl_put_set fresh)
    have here: "(?n, row) \<in> set (changes d')" using IH set1 by auto
    have job: "tbl_get jobs (u, b, i) \<noteq> None" by (simp add: jobs_def)
    have keep: "tbl_get (projection_jobs d) k = Some jb \<Longrightarrow> tbl_get jobs k = Some jb" for k jb
      by (auto simp: jobs_def)
    have "has_change u b i d'" unfolding has_change_def by (rule bexI [OF _ here]) (simp add: row_def)
    then have idx: "\<forall>j<length (p # ps). has_change u b (i + j) d'" using IH by (auto simp: less_Suc_eq_0_disj)
    have rows: "r \<in> set (changes d) \<or> (fst r, c_payload (snd r)) \<in> set ins \<and> c_user_id (snd r) = u
        \<and> c_origin_device_id (snd r) = o1 \<and> tbl_get (projection_jobs d') (u, b, c_batch_index (snd r)) \<noteq> None"
      if "r \<in> set (changes d')" for r
    proof (cases "r = (?n, row)")
      case True
      have "tbl_get (projection_jobs d') (u, b, i) \<noteq> None" using IH job by auto
      with True show ?thesis by (simp add: ins row_def)
    next
      case False
      with IH that set1 show ?thesis by (auto simp: ins)
    qed
    have all: "\<forall>x\<in>set ins1. ?n < fst x" using IH by (simp add: Suc_le_eq)
    show ?thesis
    proof (intro conjI)
      show "journal_ok d'" "changes_next d \<le> changes_next d'" using IH by simp_all
      show "set (changes d) \<subseteq> set (changes d')" using IH set1 by auto
      show "sorted_wrt (<) (map fst ins)" using IH all by (simp add: ins)
      show "\<forall>x\<in>set ins. changes_next d \<le> fst x" using all by (auto simp: ins)
      show "\<forall>k jb. tbl_get (projection_jobs d) k = Some jb \<longrightarrow> tbl_get (projection_jobs d') k = Some jb"
        using IH keep by simp
      have "c_payload row = p" by (simp add: row_def)
      with IH here show "\<forall>x\<in>set ins. \<exists>c. (fst x, c) \<in> set (changes d') \<and> c_payload c = snd x"
        unfolding ins by auto
    qed (use idx rows in blast)+
  qed
qed auto


lemma append_loop_users: "users (snd (append_loop now u o1 sd b i ps d)) = users d"
  by (induction ps arbitrary: i d) (simp_all add: Let_def case_prod_beta)

lemma prune_get:
  assumes "tbl_ok (changes d)"
  shows "tbl_get (changes (snd (prune_delivered_changes older d))) s =
    (case tbl_get (changes d) s of None \<Rightarrow> None | Some c \<Rightarrow> if prunable older d c then None else Some c)"
  using assms by (simp add: prune_delivered_changes_def tbl_get_del_where)

lemma min_cursor_le:
  assumes "(dev, r) \<in> set (user_devices d)" and "d_user_id r = u" and "tbl_get (device_cursors d) dev = Some n"
  shows "min_cursor u d \<le> n"
proof -
  let ?cs = "List.map_filter (\<lambda>r. if d_user_id (snd r) = u then tbl_get (device_cursors d) (fst r) else None)
      (user_devices d)"
  have "n \<in> set ?cs" using assms by (force simp: List.map_filter_def)
  then show ?thesis by (auto simp: min_cursor_def Let_def)
qed

lemma min_cursor_pos:
  assumes "0 < min_cursor u d"
  shows "\<exists>dev r n. (dev, r) \<in> set (user_devices d) \<and> d_user_id r = u \<and> tbl_get (device_cursors d) dev = Some n"
proof (rule ccontr)
  assume "\<not> ?thesis"
  then have "List.map_filter (\<lambda>r. if d_user_id (snd r) = u then tbl_get (device_cursors d) (fst r) else None)
      (user_devices d) = []"
    by (force simp: List.map_filter_def filter_empty_conv split: if_splits)
  with assms show False by (simp add: min_cursor_def)
qed

subsection \<open>Properties\<close>


text \<open>
  C30: a batch is journalled once. Sending the same batch again, from any device and at any
  time, inserts nothing and changes nothing but the sequence; and every change that a batch
  adds has its projection job, a number above every earlier one, and the payload of the
  batch.
\<close>

theorem append_changes_once:
  assumes "journal_ok d" and "0 < changes_next d"
    and "append_changes now user_id origin sync_device batch_id payloads d = Inr (inserted, d')"
  shows "journal_ok d' \<and> sorted_wrt (<) (map fst inserted)
    \<and> (\<forall>x\<in>set inserted. changes_next d \<le> fst x)
    \<and> (\<forall>r\<in>set (changes d'). r \<in> set (changes d) \<or> (fst r, c_payload (snd r)) \<in> set inserted
         \<and> tbl_get (projection_jobs d') (user_id, batch_id, c_batch_index (snd r)) \<noteq> None)
    \<and> (\<exists>n. append_changes now2 user_id origin2 sync2 batch_id payloads d' = Inr ([], d'\<lparr>changes_next := n\<rparr>))"
proof -
  from assms(3) have run: "append_loop now user_id origin sync_device batch_id 0 payloads d = (inserted, d')"
    and usr: "payloads = [] \<or> tbl_get (users d) user_id \<noteq> None"
    by (auto simp: append_changes_def split: if_splits)
  note eff = append_loop_effect [OF run assms(1,2)]
  have "\<exists>n. append_loop now2 user_id origin2 sync2 batch_id 0 payloads d' = ([], d'\<lparr>changes_next := n\<rparr>)"
    by (rule append_loop_duplicate) (use eff in auto)
  moreover have "users d' = users d"
    using append_loop_users [of now user_id origin sync_device batch_id 0 payloads d] run by simp
  ultimately have "\<exists>n. append_changes now2 user_id origin2 sync2 batch_id payloads d' = Inr ([], d'\<lparr>changes_next := n\<rparr>)"
    using usr by (auto simp: append_changes_def)
  with eff show ?thesis by blast
qed


subsection \<open>Closed instances\<close>

definition race_db :: db where
  "race_db = empty_db\<lparr>users := [(1, \<lparr>u_id = 1, u_email = ''a'', u_password_hash = ''h'',
       u_display_name = ''n'', u_created_at = 0, u_email_verified_at = None\<rparr>)],
     user_devices := map (\<lambda>i. (i, \<lparr>d_id = i, d_user_id = 1, d_device_name = [], d_created_at = 0,
       d_last_seen_at = None\<rparr>)) [11, 12, 13]\<rparr>"

lemma race_db_ok: "journal_ok race_db" "0 < changes_next race_db"
  by (simp_all add: journal_ok_def race_db_def empty_db_def)

theorem append_changes_once_witness:
  "\<exists>inserted d' n. append_changes 0 1 11 [] 100 [JStr ''x''] race_db = Inr (inserted, d')
     \<and> append_changes 5 1 12 [] 100 [JStr ''x''] d' = Inr ([], d'\<lparr>changes_next := n\<rparr>)"
proof -
  obtain inserted d' where run: "append_changes 0 1 11 [] 100 [JStr ''x''] race_db = Inr (inserted, d')"
    by (cases "append_loop 0 1 11 [] 100 0 [JStr ''x''] race_db")
      (auto simp: append_changes_def race_db_def tbl_get_def)
  from append_changes_once [OF race_db_ok run, of 5 12 "[]"] run show ?thesis by blast
qed

definition one_change_db :: db where
  "one_change_db = race_db\<lparr>changes := [(1, \<lparr>c_seq = 1, c_user_id = 1, c_origin_device_id = 11,
       c_batch_id = 100, c_batch_index = 0, c_sync_device_id = [], c_payload = JStr ''x'',
       c_received_at = 0\<rparr>)],
     changes_next := 2, device_cursors := [(12, 1)]\<rparr>"

lemma one_change_ok: "journal_ok one_change_db"
  by (simp add: journal_ok_def one_change_db_def tbl_defs)



text \<open>
  Two batches in flight at once: the first draws its number, the second draws the next one
  and commits, a device reads its backlog, then the first commits. \<open>commit_changes\<close> adds to
  the current database the rows that a transaction inserted on top of its base.
\<close>

definition commit_changes :: "db \<Rightarrow> db \<Rightarrow> db \<Rightarrow> db" where
  "commit_changes base tx cur = cur\<lparr>
     changes := changes cur @ filter (\<lambda>r. fst r \<notin> fst ` set (changes base)) (changes tx),
     projection_jobs := projection_jobs cur
       @ filter (\<lambda>r. fst r \<notin> fst ` set (projection_jobs base)) (projection_jobs tx)\<rparr>"

definition race_tx1 :: db where
  "race_tx1 = snd (append_loop 0 1 11 [] 100 0 [JStr ''x''] race_db)"

definition race_tx2 :: db where
  "race_tx2 = snd (append_loop 0 1 12 [] 101 0 [JStr ''y''] (race_db\<lparr>changes_next := changes_next race_tx1\<rparr>))"


lemma race_tx2_eq:
  "changes race_tx2 = [(2, \<lparr>c_seq = 2, c_user_id = 1, c_origin_device_id = 12, c_batch_id = 101,
     c_batch_index = 0, c_sync_device_id = [], c_payload = JStr ''y'', c_received_at = 0\<rparr>)]"
  "device_cursors race_tx2 = []" "user_devices race_tx2 = user_devices race_db"
  by (simp_all add: race_tx2_def race_tx1_def race_db_def empty_db_def has_change_def tbl_defs Let_def)

lemma race_tx1_eq:
  "changes race_tx1 = [(1, \<lparr>c_seq = 1, c_user_id = 1, c_origin_device_id = 11, c_batch_id = 100,
     c_batch_index = 0, c_sync_device_id = [], c_payload = JStr ''x'', c_received_at = 0\<rparr>)]"
  by (simp add: race_tx1_def race_db_def empty_db_def has_change_def tbl_defs Let_def)

lemma backlog_done: "changes_after u cur CHUNK_SIZE d = [] \<Longrightarrow> backlog_loop ok k u dev cur d = ([], None, d)"
  by (simp add: backlog_loop.simps [of ok k u dev cur d])


end
