(* ===== verification/Maintenance.thy ===== *)
theory Maintenance
  imports Note_Body Collab_Lines Journal
begin

text \<open>
  The hourly retention work of \<open>main.rs\<close> and the compaction of line tombstones in
  \<open>store.rs\<close>: the tombstones are deleted in one statement, then the order of each affected
  note is rewritten in a transaction of its own.
\<close>

definition gc_dead :: "timestamp \<Rightarrow> line \<Rightarrow> bool" where
  "gc_dead older_than l \<longleftrightarrow> (case l_deleted_at l of None \<Rightarrow> False | Some t \<Rightarrow> t < older_than)"

definition gc_delete :: "timestamp \<Rightarrow> db \<Rightarrow> line list \<times> db" where
  "gc_delete older_than d =
     (tbl_select (\<lambda>_ l. gc_dead older_than l) (lines d),
      d\<lparr>lines := tbl_del_where (\<lambda>_ l. gc_dead older_than l) (lines d)\<rparr>)"

definition gc_order :: "line list \<Rightarrow> uuid \<Rightarrow> db \<Rightarrow> db" where
  "gc_order rows note_id d =
     (let dead = map l_id (filter (\<lambda>l. l_note_id l = note_id) rows)
      in d\<lparr>note_line_order := tbl_upd note_id
            (\<lambda>o1. o1\<lparr>o_order := filter (\<lambda>i. i \<notin> set dead) (o_order o1)\<rparr>) (note_line_order d)\<rparr>)"

definition gc_line_tombstones :: "timestamp \<Rightarrow> db \<Rightarrow> nat \<times> db" where
  "gc_line_tombstones older_than d =
     (let (rows, d1) = gc_delete older_than d
      in if rows = [] then (0, d1)
         else (length rows, fold (gc_order rows) (remdups (map l_note_id rows)) d1))"

definition purge_deleted_resource_blobs :: "timestamp \<Rightarrow> db \<Rightarrow> nat \<times> db" where
  "purge_deleted_resource_blobs older_than d =
     (let gone = (\<lambda>k. case tbl_get (resources d) k of
            None \<Rightarrow> False
          | Some r \<Rightarrow> (case r_deleted_at r of None \<Rightarrow> False | Some t \<Rightarrow> t < older_than))
      in (tbl_count (\<lambda>k _. gone k) (resource_blobs d),
          d\<lparr>resource_blobs := tbl_del_where (\<lambda>k _. gone k) (resource_blobs d)\<rparr>))"

abbreviation days :: "nat \<Rightarrow> timestamp" where
  "days n \<equiv> seconds (86400 * n)"

definition run_retention :: "timestamp \<Rightarrow> nat \<Rightarrow> nat \<Rightarrow> nat \<Rightarrow> db \<Rightarrow> db" where
  "run_retention now ret_days gc_days purge_days d =
     (let d1 = (if ret_days > 0 then snd (prune_delivered_changes (now - days ret_days) d) else d);
          d2 = (if gc_days > 0 then snd (gc_line_tombstones (now - days gc_days) d1) else d1);
          d3 = (if purge_days > 0
                then snd (purge_deleted_resource_blobs (now - days purge_days) d2) else d2);
          stale = now - seconds 86400
      in snd (prune_email_tokens stale (snd (prune_login_attempts stale d3))))"

subsection \<open>Compaction is invisible to readers\<close>

definition live_of :: "line list \<Rightarrow> uuid \<Rightarrow> line option" where
  "live_of ls i = (case map_of (rev (map (\<lambda>l. (l_id l, l)) ls)) i of
     None \<Rightarrow> None | Some l \<Rightarrow> if l_deleted_at l = None then Some l else None)"

lemma live_contents_eq: "live_contents order ls = map l_content (List.map_filter (live_of ls) order)"
proof -
  have "filter (\<lambda>l. l_deleted_at l = None) (List.map_filter f order) =
      List.map_filter (\<lambda>i. case f i of None \<Rightarrow> None | Some l \<Rightarrow> if l_deleted_at l = None then Some l else None) order"
    for f :: "uuid \<Rightarrow> line option"
    by (induction order) (auto simp: List.map_filter_simps split: option.splits)
  then show ?thesis by (simp add: live_contents_def live_of_def [abs_def] Let_def)
qed

lemma live_of_Some:
  assumes "distinct (map l_id ls)"
  shows "live_of ls i = Some l \<longleftrightarrow> l \<in> set ls \<and> l_id l = i \<and> l_deleted_at l = None"
proof -
  have "distinct (map fst (rev (map (\<lambda>l. (l_id l, l)) ls)))"
    using assms by (simp add: rev_map [symmetric] comp_def)
  from map_of_eq_Some_iff [OF this, of i]
  have get: "map_of (rev (map (\<lambda>l. (l_id l, l)) ls)) i = Some x \<longleftrightarrow> x \<in> set ls \<and> l_id x = i" for x
    by auto
  show ?thesis
  proof (cases "map_of (rev (map (\<lambda>l. (l_id l, l)) ls)) i")
    case None
    with get [of l] show ?thesis by (auto simp: live_of_def)
  next
    case (Some x)
    with get [of l] get [of x] show ?thesis by (auto simp: live_of_def)
  qed
qed

lemma live_of_filter:
  assumes "distinct (map l_id ls)"
  shows "live_of (filter (\<lambda>l. \<not> gc_dead t l) ls) = live_of ls"
proof
  fix i
  have "distinct (map l_id (filter (\<lambda>l. \<not> gc_dead t l) ls))" using assms by (simp add: distinct_map_filter)
  note a = live_of_Some [OF this, of i] and b = live_of_Some [OF assms, of i]
  have "live_of (filter (\<lambda>l. \<not> gc_dead t l) ls) i = Some l \<longleftrightarrow> live_of ls i = Some l" for l
    unfolding a b by (auto simp: gc_dead_def)
  then show "live_of (filter (\<lambda>l. \<not> gc_dead t l) ls) i = live_of ls i" by (metis not_Some_eq)
qed

lemma map_filter_skip:
  "(\<And>x. x \<in> set xs \<Longrightarrow> \<not> P x \<Longrightarrow> f x = None) \<Longrightarrow> List.map_filter f (filter P xs) = List.map_filter f xs"
  by (induction xs) (auto simp: List.map_filter_simps split: option.split)

lemma decrypt_line_fields:
  "decrypt_line st r = Inr l \<Longrightarrow> l_id l = l_id r \<and> l_deleted_at l = l_deleted_at r"
  by (auto simp: decrypt_line_def res_simps)

lemma res_map_filter:
  assumes "res_map f xs = Inr ys" and "\<And>x y. f x = Inr y \<Longrightarrow> P x = Q y"
  shows "res_map f (filter P xs) = Inr (filter Q ys)"
  using assms(1)
proof (induction xs arbitrary: ys)
  case (Cons x xs)
  then obtain y ys' where "f x = Inr y" "res_map f xs = Inr ys'" "ys = y # ys'" by (auto simp: res_simps)
  with Cons.IH assms(2) [of x y] show ?case by simp
qed simp

lemma res_map_map_eq:
  "res_map f xs = Inr ys \<Longrightarrow> (\<And>x y. f x = Inr y \<Longrightarrow> g y = h x) \<Longrightarrow> map g ys = map h xs"
  by (induction xs arbitrary: ys) (auto simp: res_simps)

lemma note_rows_distinct:
  assumes "lines_ok d"
  shows "distinct (map l_id (tbl_select (\<lambda>_ l. P l) (lines d)))"
proof -
  have "map l_id (tbl_select (\<lambda>_ l. P l) (lines d)) = map fst (filter (\<lambda>r. P (snd r)) (lines d))"
    using assms tbl_get_in_iff [of "lines d"] by (auto simp: lines_ok_def tbl_select_def)
  then show ?thesis using assms by (simp add: lines_ok_def tbl_ok_def distinct_map_filter)
qed

lemma list_lines_gc:
  assumes "lines_ok d" and "list_lines st n d = Inr ls"
  shows "list_lines st n (snd (gc_delete t d)) = Inr (filter (\<lambda>l. \<not> gc_dead t l) ls)"
    and "distinct (map l_id ls)"
    and "map l_id ls = map l_id (tbl_select (\<lambda>_ l. l_note_id l = n) (lines d))"
proof -
  let ?R = "tbl_select (\<lambda>_ l. l_note_id l = n) (lines d)"
  have run: "res_map (decrypt_line st) ?R = Inr ls" using assms(2) by (simp add: list_lines_def)
  have "tbl_select (\<lambda>_ l. l_note_id l = n) (tbl_del_where (\<lambda>_ l. gc_dead t l) (lines d)) =
      filter (\<lambda>l. \<not> gc_dead t l) ?R"
    by (simp add: tbl_select_def tbl_del_where_def filter_map comp_def conj_commute)
  moreover have "res_map (decrypt_line st) (filter (\<lambda>l. \<not> gc_dead t l) ?R) = Inr (filter (\<lambda>l. \<not> gc_dead t l) ls)"
    by (rule res_map_filter [OF run]) (auto simp: gc_dead_def dest!: decrypt_line_fields)
  ultimately show "list_lines st n (snd (gc_delete t d)) = Inr (filter (\<lambda>l. \<not> gc_dead t l) ls)"
    by (simp add: list_lines_def gc_delete_def)
  show ids: "map l_id ls = map l_id ?R"
    by (rule res_map_map_eq [OF run]) (auto dest!: decrypt_line_fields)
  show "distinct (map l_id ls)" unfolding ids by (rule note_rows_distinct [OF assms(1)])
qed


lemma gc_order_lines [simp]: "lines (gc_order rows n d) = lines d"
  by (simp add: gc_order_def)

lemma gc_orders_lines [simp]: "lines (fold (gc_order rows) ns d) = lines d"
  by (induction ns arbitrary: d) simp_all

definition without_dead :: "line list \<Rightarrow> uuid \<Rightarrow> note_order \<Rightarrow> note_order" where
  "without_dead rows n o1 = o1\<lparr>o_order :=
     filter (\<lambda>i. i \<notin> set (map l_id (filter (\<lambda>l. l_note_id l = n) rows))) (o_order o1)\<rparr>"

lemma without_dead_order: "o_order (without_dead rows n o1) =
    filter (\<lambda>i. i \<notin> set (map l_id (filter (\<lambda>l. l_note_id l = n) rows))) (o_order o1)"
  by (simp add: without_dead_def)

lemma gc_orders_get:
  "tbl_get (note_line_order (fold (gc_order rows) ns d)) n =
     (if n \<in> set ns then map_option (without_dead rows n) (tbl_get (note_line_order d) n)
      else tbl_get (note_line_order d) n)"
proof (induction ns arbitrary: d)
  case (Cons m ns)
  have idem: "without_dead rows n (without_dead rows n o1) = without_dead rows n o1" for o1
    by (simp add: without_dead_def)
  have "tbl_get (note_line_order (gc_order rows m d)) n =
      (if n = m then map_option (without_dead rows n) (tbl_get (note_line_order d) n)
       else tbl_get (note_line_order d) n)"
    by (auto simp: gc_order_def without_dead_def [abs_def] Let_def)
  with Cons.IH [of "gc_order rows m d"] idem show ?case
    by (cases "tbl_get (note_line_order d) n") auto
qed simp

lemma without_dead_none: "n \<notin> set (map l_note_id rows) \<Longrightarrow> without_dead rows n o1 = o1"
proof -
  assume "n \<notin> set (map l_note_id rows)"
  then have "filter (\<lambda>l. l_note_id l = n) rows = []" by (auto simp: filter_empty_conv)
  then show ?thesis by (simp add: without_dead_def)
qed

lemma gc_get_order:
  "tbl_get (note_line_order (snd (gc_line_tombstones t d))) n =
     map_option (without_dead (fst (gc_delete t d)) n) (tbl_get (note_line_order d) n)"
proof -
  have same: "note_line_order (snd (gc_delete t d)) = note_line_order d" by (simp add: gc_delete_def)
  show ?thesis
    by (cases "tbl_get (note_line_order d) n"; cases "n \<in> set (map l_note_id (fst (gc_delete t d)))")
      (simp_all add: gc_line_tombstones_def case_prod_beta gc_orders_get same without_dead_none
        del: set_map)
qed

lemma gc_lines: "lines (snd (gc_line_tombstones t d)) = lines (snd (gc_delete t d))"
  by (simp add: gc_line_tombstones_def case_prod_beta)

lemma gc_delete_dead_ids:
  "set (map l_id (filter (\<lambda>l. l_note_id l = n) (fst (gc_delete t d)))) =
     l_id ` {l. l \<in> set (tbl_select (\<lambda>_ l. l_note_id l = n) (lines d)) \<and> gc_dead t l}"
  by (force simp: gc_delete_def tbl_select_def)

lemma body_from_live:
  assumes "materialize_body app n d = Inr body" and "list_lines (app_store app) n d = Inr ls"
    and "list_lines (app_store app) n d' = Inr ls'"
    and "tbl_get (note_line_order d) n = Some ord" and "tbl_get (note_line_order d') n = Some ord'"
    and "live_contents (o_order ord') ls' = live_contents (o_order ord) ls"
  shows "materialize_body app n d' = Inr body"
  using assms by (auto simp: materialize_body_def get_note_order_on_def Let_def split: if_splits)

lemma materialize_parts:
  assumes "materialize_body app n d = Inr body"
  obtains ord ls where "tbl_get (note_line_order d) n = Some ord" "list_lines (app_store app) n d = Inr ls"
  using assms by (auto simp: materialize_body_def get_note_order_on_def res_simps)

lemma lines_ok_gc:
  assumes "lines_ok d"
  shows "lines_ok (snd (gc_line_tombstones t d))"
proof -
  let ?d' = "snd (gc_line_tombstones t d)"
  have ok: "tbl_ok (lines d)" and key: "\<And>i l. tbl_get (lines d) i = Some l \<Longrightarrow> l_id l = i"
    using assms by (auto simp: lines_ok_def)
  have get: "tbl_get (lines ?d') i = (case tbl_get (lines d) i of None \<Rightarrow> None
      | Some l \<Rightarrow> if gc_dead t l then None else Some l)" for i
    by (simp add: gc_lines gc_delete_def tbl_get_del_where [OF ok])
  have dead: "i \<in> l_id ` {l. l \<in> set (tbl_select (\<lambda>_ l. l_note_id l = n) (lines d)) \<and> gc_dead t l} \<longleftrightarrow>
      (\<exists>l. tbl_get (lines d) i = Some l \<and> l_note_id l = n \<and> gc_dead t l)" for i n
    using key by (force simp: tbl_select_set [OF ok])
  have "tbl_ok (lines ?d')" using ok by (simp add: gc_lines gc_delete_def)
  moreover have "tbl_ok (note_line_order ?d')"
  proof -
    have "tbl_ok (note_line_order (fold (gc_order rows) ns e)) = tbl_ok (note_line_order e)" for rows ns e
      by (induction ns arbitrary: e) (simp_all add: gc_order_def Let_def)
    then show ?thesis using assms by (simp add: gc_line_tombstones_def case_prod_beta gc_delete_def lines_ok_def)
  qed
  moreover have "l_id l = i" if "tbl_get (lines ?d') i = Some l" for i l
    using that key by (auto simp: get split: option.splits if_splits)
  moreover have "o_note_id ord = n \<and> set (o_order ord) = note_lines ?d' n"
    if ord: "tbl_get (note_line_order ?d') n = Some ord" for n ord
  proof -
    from ord obtain o0 where o0: "tbl_get (note_line_order d) n = Some o0"
      and eq: "ord = without_dead (fst (gc_delete t d)) n o0" by (auto simp: gc_get_order)
    have "o_note_id o0 = n" and set0: "set (o_order o0) = note_lines d n"
      using assms o0 by (auto simp: lines_ok_def)
    moreover have "note_lines ?d' n = {i \<in> note_lines d n. \<not> (\<exists>l. tbl_get (lines d) i = Some l \<and> l_note_id l = n \<and> gc_dead t l)}"
      by (auto simp: note_lines_def get split: option.splits if_splits)
    ultimately show ?thesis
      unfolding eq without_dead_def gc_delete_dead_ids by (auto simp: dead)
  qed
  ultimately show ?thesis unfolding lines_ok_def by blast
qed


lemma gc_body:
  assumes "lines_ok d" and body: "materialize_body app n d = Inr body"
  shows "materialize_body app n (snd (gc_delete t d)) = Inr body"
    and "materialize_body app n (snd (gc_line_tombstones t d)) = Inr body"
proof -
  from body obtain ord ls where ord: "tbl_get (note_line_order d) n = Some ord"
    and ls: "list_lines (app_store app) n d = Inr ls" by (rule materialize_parts)
  note gc = list_lines_gc(1) [OF assms(1) ls, of t] list_lines_gc(2) [OF assms(1) ls]
  note live = live_of_filter [OF gc(2), of t]
  have ord1: "tbl_get (note_line_order (snd (gc_delete t d))) n = Some ord" by (simp add: gc_delete_def ord)
  show "materialize_body app n (snd (gc_delete t d)) = Inr body"
    by (rule body_from_live [OF body ls gc(1) ord ord1]) (simp add: live_contents_eq live)
  have ls2: "list_lines (app_store app) n (snd (gc_line_tombstones t d)) = Inr (filter (\<lambda>l. \<not> gc_dead t l) ls)"
    using gc(1) by (simp add: list_lines_def gc_lines)
  have ord2: "tbl_get (note_line_order (snd (gc_line_tombstones t d))) n = Some (without_dead (fst (gc_delete t d)) n ord)"
    by (simp add: gc_get_order ord)
  have none: "live_of ls i = None"
    if "i \<in> l_id ` {l. l \<in> set (tbl_select (\<lambda>_ l. l_note_id l = n) (lines d)) \<and> gc_dead t l}" for i
  proof (rule ccontr)
    assume "live_of ls i \<noteq> None"
    then obtain l where l: "l \<in> set ls" "l_id l = i" "l_deleted_at l = None"
      using live_of_Some [OF gc(2)] by auto
    from ls l(1) obtain r where r: "r \<in> set (tbl_select (\<lambda>_ l. l_note_id l = n) (lines d))"
      "decrypt_line (app_store app) r = Inr l"
      unfolding list_lines_def by (blast dest: res_map_source)
    from that obtain r' where r': "r' \<in> set (tbl_select (\<lambda>_ l. l_note_id l = n) (lines d))"
      "gc_dead t r'" "l_id r' = i" by auto
    have "r = r'"
      using note_rows_distinct [OF assms(1), of "\<lambda>l. l_note_id l = n"] r r' l(2) decrypt_line_fields [OF r(2)]
      by (auto simp: distinct_map inj_on_def)
    with r r' l(3) decrypt_line_fields [OF r(2)] show False by (simp add: gc_dead_def)
  qed
  show "materialize_body app n (snd (gc_line_tombstones t d)) = Inr body"
  proof (rule body_from_live [OF body ls ls2 ord ord2])
    show "live_contents (o_order (without_dead (fst (gc_delete t d)) n ord)) (filter (\<lambda>l. \<not> gc_dead t l) ls) =
        live_contents (o_order ord) ls"
      unfolding live_contents_eq live without_dead_order gc_delete_dead_ids
      by (rule arg_cong [where f = "map l_content"], rule map_filter_skip, rule none, simp)
  qed
qed

lemma gc_live_count:
  "count_live_lines_on n (snd (gc_line_tombstones t d)) = count_live_lines_on n d"
  by (auto simp: count_live_lines_on_def gc_lines gc_delete_def tbl_count_def tbl_del_where_def gc_dead_def
      intro!: arg_cong [where f = length] filter_cong)

subsection \<open>Properties\<close>

text \<open>
  C33: compacting the tombstones is invisible. A note that can be read has the same body
  afterwards, and also in between, when the tombstones are gone and the orders not yet
  rewritten; the number of live lines and the consistency of lines and orders are kept.
\<close>

theorem gc_invisible:
  assumes "lines_ok d" and "materialize_body app note_id d = Inr body"
  shows "materialize_body app note_id (snd (gc_delete older_than d)) = Inr body
    \<and> materialize_body app note_id (snd (gc_line_tombstones older_than d)) = Inr body
    \<and> count_live_lines_on note_id (snd (gc_line_tombstones older_than d)) = count_live_lines_on note_id d
    \<and> lines_ok (snd (gc_line_tombstones older_than d))"
  using gc_body [OF assms] lines_ok_gc [OF assms(1)] gc_live_count by blast

definition gc_db :: db where
  "gc_db = demo_db\<lparr>
     lines := [(7, demo_line), (8, demo_line\<lparr>l_id := 8, l_deleted_at := Some 3\<rparr>)],
     note_line_order := [(5, demo_order\<lparr>o_order := [8, 7]\<rparr>)]\<rparr>"

theorem gc_invisible_witness:
  "materialize_body demo_app 5 (snd (gc_line_tombstones 10 gc_db)) = Inr ''a''
   \<and> lines_ok (snd (gc_line_tombstones 10 gc_db))"
proof -
  have "lines_ok gc_db"
    by (auto simp: lines_ok_def gc_db_def demo_line_def demo_order_def note_lines_def tbl_defs split: if_splits)
  moreover have "materialize_body demo_app 5 gc_db = Inr ''a''"
    by (simp add: materialize_body_def gc_db_def get_note_order_on_def list_lines_def demo_line_def
        demo_order_def tbl_defs decrypt_line_def is_prefix_def ENC_PREFIX_def live_contents_def
        List.map_filter_def demo_config_def)
  ultimately show ?thesis using gc_invisible [of gc_db demo_app 5 "''a''" 10] by blast
qed

end
