(* ===== verification/Entities.thy ===== *)
theory Entities
  imports Versioned_Cell Store_Accounts
begin

text \<open>
  \<open>store.rs\<close>, the versioned entities that the projection of the journal writes: notebooks,
  tags, the tags of notes and resources. The incoming models are those of \<open>keeplin_core\<close>,
  with the fields the server reads.
\<close>

definition incoming_wins ::
    "core \<Rightarrow> version_vector \<Rightarrow> timestamp \<Rightarrow> string \<Rightarrow> version_vector \<Rightarrow> timestamp \<Rightarrow> string \<Rightarrow> bool" where
  "incoming_wins co lv lt lw iv it iw \<longleftrightarrow> resolve co lv lt lw iv it iw = Incoming"

record in_notebook =
  inb_id :: uuid
  inb_title :: string
  inb_alias :: "string option"
  inb_created_at :: timestamp
  inb_updated_at :: timestamp
  inb_deleted_at :: "timestamp option"
  inb_vv :: version_vector
  inb_last_writer :: string

record in_tag =
  itg_id :: uuid
  itg_title :: string
  itg_created_at :: timestamp
  itg_updated_at :: timestamp
  itg_deleted_at :: "timestamp option"
  itg_vv :: version_vector
  itg_last_writer :: string
  itg_system :: bool

record in_resource =
  irs_id :: uuid
  irs_note_id :: uuid
  irs_title :: string
  irs_mime_type :: string
  irs_file_name :: string
  irs_size :: "64 word"
  irs_created_at :: timestamp
  irs_deleted_at :: "timestamp option"
  irs_vv :: version_vector
  irs_last_writer :: string
  irs_duration_ms :: "64 word option"
  irs_dimensions :: "(32 word \<times> 32 word) option"

subsection \<open>Notebooks\<close>

definition own_notebook :: "uuid \<Rightarrow> uuid \<Rightarrow> db \<Rightarrow> notebook option" where
  "own_notebook user_id row_id d =
     (case tbl_get (notebooks d) row_id of
        Some nb \<Rightarrow> if nb_user_id nb = user_id then Some nb else None
      | None \<Rightarrow> None)"

definition upsert_notebook_on :: "core \<Rightarrow> uuid \<Rightarrow> in_notebook \<Rightarrow> db \<Rightarrow> (bool \<times> db) result" where
  "upsert_notebook_on co user_id nb d =
     (if (case own_notebook user_id (inb_id nb) d of
            Some row \<Rightarrow> \<not> incoming_wins co (nb_vv row) (nb_updated_at row) (nb_last_writer row)
                          (inb_vv nb) (inb_updated_at nb) (inb_last_writer nb)
          | None \<Rightarrow> False)
      then Inr (False, d)
      else case tbl_get (notebooks d) (inb_id nb) of
        Some row \<Rightarrow>
          if nb_user_id row = user_id
          then Inr (True, d\<lparr>notebooks := tbl_put (inb_id nb)
                 (row\<lparr>nb_title := inb_title nb, nb_alias := inb_alias nb,
                      nb_updated_at := inb_updated_at nb, nb_deleted_at := inb_deleted_at nb,
                      nb_vv := inb_vv nb, nb_last_writer := inb_last_writer nb\<rparr>) (notebooks d)\<rparr>)
          else Inr (True, d)
      | None \<Rightarrow>
          if tbl_get (users d) user_id = None then Inl foreign_key_violation
          else Inr (True, d\<lparr>notebooks := tbl_put (inb_id nb)
                 \<lparr>nb_id = inb_id nb, nb_user_id = user_id, nb_title = inb_title nb,
                  nb_alias = inb_alias nb, nb_created_at = inb_created_at nb,
                  nb_updated_at = inb_updated_at nb, nb_deleted_at = inb_deleted_at nb,
                  nb_vv = inb_vv nb, nb_last_writer = inb_last_writer nb\<rparr> (notebooks d)\<rparr>))"

definition delete_notebook_on ::
    "core \<Rightarrow> uuid \<Rightarrow> uuid \<Rightarrow> timestamp \<Rightarrow> version_vector \<Rightarrow> string \<Rightarrow> db \<Rightarrow> (bool \<times> db) result" where
  "delete_notebook_on co user_id row_id deleted_at vv last_writer d =
     (case own_notebook user_id row_id d of
        Some row \<Rightarrow>
          if \<not> incoming_wins co (nb_vv row) (nb_updated_at row) (nb_last_writer row) vv deleted_at last_writer
          then Inr (False, d)
          else Inr (True, d\<lparr>notebooks := tbl_put row_id
                 (row\<lparr>nb_deleted_at := Some deleted_at, nb_updated_at := deleted_at,
                      nb_vv := vv, nb_last_writer := last_writer\<rparr>) (notebooks d)\<rparr>)
      | None \<Rightarrow>
          if tbl_get (notebooks d) row_id \<noteq> None then Inr (True, d)
          else if tbl_get (users d) user_id = None then Inl foreign_key_violation
          else Inr (True, d\<lparr>notebooks := tbl_put row_id
                 \<lparr>nb_id = row_id, nb_user_id = user_id, nb_title = [], nb_alias = None,
                  nb_created_at = deleted_at, nb_updated_at = deleted_at,
                  nb_deleted_at = Some deleted_at, nb_vv = vv, nb_last_writer = last_writer\<rparr>
                 (notebooks d)\<rparr>))"

subsection \<open>Tags\<close>

definition own_tag :: "uuid \<Rightarrow> uuid \<Rightarrow> db \<Rightarrow> tag option" where
  "own_tag user_id row_id d =
     (case tbl_get (tags d) row_id of
        Some t \<Rightarrow> if t_user_id t = user_id then Some t else None
      | None \<Rightarrow> None)"

definition upsert_tag :: "core \<Rightarrow> uuid \<Rightarrow> in_tag \<Rightarrow> db \<Rightarrow> (bool \<times> db) result" where
  "upsert_tag co user_id t d =
     (if (case own_tag user_id (itg_id t) d of
            Some row \<Rightarrow> \<not> incoming_wins co (t_vv row) (t_updated_at row) (t_last_writer row)
                          (itg_vv t) (itg_updated_at t) (itg_last_writer t)
          | None \<Rightarrow> False)
      then Inr (False, d)
      else case tbl_get (tags d) (itg_id t) of
        Some row \<Rightarrow>
          if t_user_id row = user_id
          then Inr (True, d\<lparr>tags := tbl_put (itg_id t)
                 (row\<lparr>t_title := itg_title t, t_updated_at := itg_updated_at t,
                      t_deleted_at := itg_deleted_at t, t_vv := itg_vv t,
                      t_last_writer := itg_last_writer t, t_system := itg_system t\<rparr>) (tags d)\<rparr>)
          else Inr (True, d)
      | None \<Rightarrow>
          if tbl_get (users d) user_id = None then Inl foreign_key_violation
          else Inr (True, d\<lparr>tags := tbl_put (itg_id t)
                 \<lparr>t_id = itg_id t, t_user_id = user_id, t_title = itg_title t,
                  t_created_at = itg_created_at t, t_updated_at = itg_updated_at t,
                  t_deleted_at = itg_deleted_at t, t_vv = itg_vv t,
                  t_last_writer = itg_last_writer t, t_system = itg_system t\<rparr> (tags d)\<rparr>))"

definition delete_tag ::
    "core \<Rightarrow> uuid \<Rightarrow> uuid \<Rightarrow> timestamp \<Rightarrow> version_vector \<Rightarrow> string \<Rightarrow> db \<Rightarrow> (bool \<times> db) result" where
  "delete_tag co user_id row_id deleted_at vv last_writer d =
     (case own_tag user_id row_id d of
        Some row \<Rightarrow>
          if \<not> incoming_wins co (t_vv row) (t_updated_at row) (t_last_writer row) vv deleted_at last_writer
          then Inr (False, d)
          else Inr (True, d\<lparr>tags := tbl_put row_id
                 (row\<lparr>t_deleted_at := Some deleted_at, t_updated_at := deleted_at,
                      t_vv := vv, t_last_writer := last_writer\<rparr>) (tags d)\<rparr>)
      | None \<Rightarrow>
          if tbl_get (tags d) row_id \<noteq> None then Inr (True, d)
          else if tbl_get (users d) user_id = None then Inl foreign_key_violation
          else Inr (True, d\<lparr>tags := tbl_put row_id
                 \<lparr>t_id = row_id, t_user_id = user_id, t_title = [], t_created_at = deleted_at,
                  t_updated_at = deleted_at, t_deleted_at = Some deleted_at, t_vv = vv,
                  t_last_writer = last_writer, t_system = False\<rparr> (tags d)\<rparr>))"

definition upsert_note_tag ::
    "core \<Rightarrow> uuid \<Rightarrow> uuid \<Rightarrow> uuid \<Rightarrow> timestamp \<Rightarrow> timestamp option \<Rightarrow> version_vector \<Rightarrow> string \<Rightarrow> db \<Rightarrow>
     (bool \<times> db) result" where
  "upsert_note_tag co user_id note_id tag_id updated_at deleted_at vv last_writer d =
     (let k = (user_id, note_id, tag_id);
          row = \<lparr>nt_updated_at = updated_at, nt_deleted_at = deleted_at, nt_vv = vv,
                 nt_last_writer = last_writer\<rparr>
      in case tbl_get (note_tags d) k of
           Some old \<Rightarrow>
             if \<not> incoming_wins co (nt_vv old) (nt_updated_at old) (nt_last_writer old) vv updated_at last_writer
             then Inr (False, d)
             else Inr (True, d\<lparr>note_tags := tbl_put k row (note_tags d)\<rparr>)
         | None \<Rightarrow>
             if tbl_get (users d) user_id = None then Inl foreign_key_violation
             else Inr (True, d\<lparr>note_tags := tbl_put k row (note_tags d)\<rparr>))"

subsection \<open>Resources\<close>

definition own_resource :: "uuid \<Rightarrow> uuid \<Rightarrow> db \<Rightarrow> resource_meta option" where
  "own_resource user_id row_id d =
     (case tbl_get (resources d) row_id of
        Some r \<Rightarrow> if r_user_id r = user_id then Some r else None
      | None \<Rightarrow> None)"

definition resource_ts :: "resource_meta \<Rightarrow> timestamp" where
  "resource_ts r = coalesce (r_deleted_at r) (r_created_at r)"

definition patch_resource :: "in_resource \<Rightarrow> resource_meta \<Rightarrow> resource_meta" where
  "patch_resource res r = r\<lparr>r_title := irs_title res, r_mime_type := irs_mime_type res,
     r_file_name := irs_file_name res, r_size := sint (irs_size res), r_deleted_at := irs_deleted_at res,
     r_vv := irs_vv res, r_last_writer := irs_last_writer res,
     r_duration_ms := map_option sint (irs_duration_ms res),
     r_width := map_option (sint \<circ> fst) (irs_dimensions res),
     r_height := map_option (sint \<circ> snd) (irs_dimensions res)\<rparr>"

definition new_resource :: "uuid \<Rightarrow> in_resource \<Rightarrow> resource_meta" where
  "new_resource user_id res = \<lparr>r_id = irs_id res, r_user_id = user_id, r_note_id = irs_note_id res,
     r_title = irs_title res, r_mime_type = irs_mime_type res, r_file_name = irs_file_name res,
     r_size = sint (irs_size res), r_created_at = irs_created_at res, r_deleted_at = irs_deleted_at res,
     r_vv = irs_vv res, r_last_writer = irs_last_writer res,
     r_duration_ms = map_option sint (irs_duration_ms res),
     r_width = map_option (sint \<circ> fst) (irs_dimensions res),
     r_height = map_option (sint \<circ> snd) (irs_dimensions res)\<rparr>"

definition resource_wins :: "core \<Rightarrow> uuid \<Rightarrow> in_resource \<Rightarrow> db \<Rightarrow> bool" where
  "resource_wins co user_id res d =
     (case own_resource user_id (irs_id res) d of
        Some row \<Rightarrow> incoming_wins co (r_vv row) (resource_ts row) (r_last_writer row)
           (irs_vv res) (coalesce (irs_deleted_at res) (irs_created_at res)) (irs_last_writer res)
      | None \<Rightarrow> True)"

text \<open>The metadata statement on its own keeps the note of an existing row.\<close>

definition upsert_resource_meta :: "core \<Rightarrow> uuid \<Rightarrow> in_resource \<Rightarrow> db \<Rightarrow> (bool \<times> db) result" where
  "upsert_resource_meta co user_id res d =
     (if \<not> resource_wins co user_id res d then Inr (False, d)
      else case tbl_get (resources d) (irs_id res) of
        Some row \<Rightarrow>
          if r_user_id row = user_id
          then Inr (True, d\<lparr>resources := tbl_put (irs_id res) (patch_resource res row) (resources d)\<rparr>)
          else Inr (True, d)
      | None \<Rightarrow>
          if tbl_get (users d) user_id = None then Inl foreign_key_violation
          else Inr (True, d\<lparr>resources := tbl_put (irs_id res) (new_resource user_id res) (resources d)\<rparr>))"

definition put_blob_row :: "uuid \<Rightarrow> string option \<Rightarrow> db \<Rightarrow> db" where
  "put_blob_row row_id data d =
     (case data of
        None \<Rightarrow> d
      | Some bytes \<Rightarrow> d\<lparr>resource_blobs := tbl_put row_id bytes (resource_blobs d)\<rparr>)"

definition apply_resource_create ::
    "core \<Rightarrow> uuid \<Rightarrow> in_resource \<Rightarrow> string option \<Rightarrow> db \<Rightarrow> (bool \<times> db) result" where
  "apply_resource_create co user_id res data d =
     (if \<not> resource_wins co user_id res d then Inr (False, d)
      else case tbl_get (resources d) (irs_id res) of
        Some row \<Rightarrow>
          if r_user_id row = user_id
          then Inr (True, put_blob_row (irs_id res) data (d\<lparr>resources := tbl_put (irs_id res)
                 ((patch_resource res row)\<lparr>r_note_id := irs_note_id res\<rparr>) (resources d)\<rparr>))
          else Inl (Internal ''invalid projection payload: resource id belongs to another user'')
      | None \<Rightarrow>
          if tbl_get (users d) user_id = None then Inl foreign_key_violation
          else Inr (True, put_blob_row (irs_id res) data (d\<lparr>resources := tbl_put (irs_id res)
                 (new_resource user_id res) (resources d)\<rparr>)))"

definition delete_resource ::
    "core \<Rightarrow> uuid \<Rightarrow> uuid \<Rightarrow> timestamp \<Rightarrow> version_vector \<Rightarrow> string \<Rightarrow> db \<Rightarrow> (bool \<times> db) result" where
  "delete_resource co user_id row_id deleted_at vv last_writer d =
     (case own_resource user_id row_id d of
        None \<Rightarrow> Inr (False, d)
      | Some row \<Rightarrow>
          if \<not> incoming_wins co (r_vv row) (resource_ts row) (r_last_writer row) vv deleted_at last_writer
          then Inr (False, d)
          else Inr (True, d\<lparr>resources := tbl_put row_id
                 (row\<lparr>r_deleted_at := Some deleted_at, r_vv := vv, r_last_writer := last_writer\<rparr>)
                 (resources d)\<rparr>))"

definition put_resource_blob_on :: "uuid \<Rightarrow> uuid \<Rightarrow> string \<Rightarrow> db \<Rightarrow> bool \<times> db" where
  "put_resource_blob_on user_id resource_id data d =
     (case own_resource user_id resource_id d of
        Some r \<Rightarrow>
          if r_deleted_at r = None
          then (True, d\<lparr>resource_blobs := tbl_put resource_id data (resource_blobs d)\<rparr>)
          else (False, d)
      | None \<Rightarrow> (False, d))"

definition get_resource_blob :: "uuid \<Rightarrow> db \<Rightarrow> string option" where
  "get_resource_blob resource_id d = tbl_get (resource_blobs d) resource_id"

definition resource_owned_by :: "uuid \<Rightarrow> uuid \<Rightarrow> db \<Rightarrow> bool" where
  "resource_owned_by resource_id user_id d \<longleftrightarrow> own_resource user_id resource_id d \<noteq> None"

definition live_resource_owned_by :: "uuid \<Rightarrow> uuid \<Rightarrow> db \<Rightarrow> bool" where
  "live_resource_owned_by resource_id user_id d =
     (case own_resource user_id resource_id d of Some r \<Rightarrow> r_deleted_at r = None | None \<Rightarrow> False)"

end
