(* ===== verification/Entity_Convergence.thy ===== *)
theory Entity_Convergence
  imports Entities
begin

text \<open>
  Notebooks and tags as registers: each provides \<open>lww_register\<close>, and the
  store's functions take the register's step on the row. From this the order in which a
  user's devices deliver their writes does not matter.
\<close>

subsection \<open>Notebooks\<close>

datatype nb_write =
    NbUpsert in_notebook
  | NbDelete uuid timestamp version_vector string

fun nbw_id :: "nb_write \<Rightarrow> uuid" where
  "nbw_id (NbUpsert nb) = inb_id nb"
| "nbw_id (NbDelete i _ _ _) = i"

fun nbw_vv :: "nb_write \<Rightarrow> version_vector" where
  "nbw_vv (NbUpsert nb) = inb_vv nb"
| "nbw_vv (NbDelete _ _ vv _) = vv"

fun nbw_ts :: "nb_write \<Rightarrow> timestamp" where
  "nbw_ts (NbUpsert nb) = inb_updated_at nb"
| "nbw_ts (NbDelete _ ts _ _) = ts"

fun nbw_writer :: "nb_write \<Rightarrow> string" where
  "nbw_writer (NbUpsert nb) = inb_last_writer nb"
| "nbw_writer (NbDelete _ _ _ w) = w"

fun nbw_row :: "nb_write \<Rightarrow> notebook \<Rightarrow> notebook" where
  "nbw_row (NbUpsert nb) row = row\<lparr>nb_title := inb_title nb, nb_alias := inb_alias nb,
     nb_updated_at := inb_updated_at nb, nb_deleted_at := inb_deleted_at nb,
     nb_vv := inb_vv nb, nb_last_writer := inb_last_writer nb\<rparr>"
| "nbw_row (NbDelete _ ts vv w) row = row\<lparr>nb_deleted_at := Some ts, nb_updated_at := ts,
     nb_vv := vv, nb_last_writer := w\<rparr>"

fun apply_nb :: "core \<Rightarrow> uuid \<Rightarrow> nb_write \<Rightarrow> db \<Rightarrow> (bool \<times> db) result" where
  "apply_nb co u (NbUpsert nb) d = upsert_notebook_on co u nb d"
| "apply_nb co u (NbDelete i ts vv w) d = delete_notebook_on co u i ts vv w d"

fun apply_nbs :: "core \<Rightarrow> uuid \<Rightarrow> nb_write list \<Rightarrow> db \<Rightarrow> db result" where
  "apply_nbs co u [] d = Inr d"
| "apply_nbs co u (p # ps) d = res_then (apply_nb co u p d) (\<lambda>(_, d'). apply_nbs co u ps d')"

text \<open>What a client sees: the tombstone, the title and alias while live, writer and time.\<close>

definition nb_view :: "notebook \<Rightarrow> timestamp option \<times> (string \<times> string option) option \<times> string \<times> timestamp" where
  "nb_view nb = (nb_deleted_at nb,
     if nb_deleted_at nb = None then Some (nb_title nb, nb_alias nb) else None,
     nb_last_writer nb, nb_updated_at nb)"

definition always :: "'s \<Rightarrow> 'p \<Rightarrow> bool" where
  "always s p \<longleftrightarrow> True"

interpretation notebook_cell: lww_register nb_vv nb_updated_at nb_last_writer nbw_vv nbw_ts nbw_writer
  always nbw_row nb_view
proof (unfold_locales, goal_cases)
  case (1 p s) show ?case by (cases p) simp_all
next
  case (2 p s) show ?case by (cases p) simp_all
next
  case (3 s p) show ?case by (cases p) simp_all
next
  case (4 p s s') show ?case by (cases p) (simp_all add: nb_view_def)
next
  case (5 s p) show ?case by (simp add: always_def)
next
  case (6 p s) show ?case by (cases p) simp_all
next
  case (7 s p) show ?case by (simp add: always_def)
qed

lemma nb_step_eq: "notebook_cell.step co p row =
    (if incoming_wins co (nb_vv row) (nb_updated_at row) (nb_last_writer row) (nbw_vv p) (nbw_ts p) (nbw_writer p)
     then nbw_row p row else row)"
  unfolding notebook_cell.step_def by (simp add: always_def incoming_wins_def)

lemma own_notebook_Some:
  "own_notebook u i d = Some row \<longleftrightarrow> tbl_get (notebooks d) i = Some row \<and> nb_user_id row = u"
  by (auto simp: own_notebook_def split: option.splits if_splits)

lemma nbw_row_user [simp]: "nb_user_id (nbw_row p row) = nb_user_id row"
  by (cases p) simp_all

lemma apply_nb_step:
  assumes "own_notebook u (nbw_id p) d = Some row"
  shows "\<exists>b d'. apply_nb co u p d = Inr (b, d') \<and> own_notebook u (nbw_id p) d' = Some (notebook_cell.step co p row)"
proof (cases p)
  case (NbUpsert nb)
  with assms show ?thesis
    by (auto simp: own_notebook_def upsert_notebook_on_def nb_step_eq split: option.splits if_splits)
next
  case (NbDelete i ts vv w)
  with assms show ?thesis
    by (auto simp: own_notebook_def delete_notebook_on_def nb_step_eq split: option.splits if_splits)
qed

lemma apply_nbs_steps:
  assumes "own_notebook u i d = Some row" and "\<forall>p\<in>set ps. nbw_id p = i"
  shows "\<exists>d'. apply_nbs co u ps d = Inr d' \<and> own_notebook u i d' = Some (fold (notebook_cell.step co) ps row)"
  using assms
proof (induction ps arbitrary: d row)
  case (Cons p ps)
  then obtain b d1 where d1: "apply_nb co u p d = Inr (b, d1)"
    "own_notebook u i d1 = Some (notebook_cell.step co p row)"
    using apply_nb_step [of u p d row co] by auto
  from Cons.IH [OF d1(2)] Cons.prems(2) d1(1) show ?case by simp
qed simp

subsection \<open>Tags\<close>

datatype tag_write =
    TgUpsert in_tag
  | TgDelete uuid timestamp version_vector string

fun tgw_id :: "tag_write \<Rightarrow> uuid" where
  "tgw_id (TgUpsert t) = itg_id t"
| "tgw_id (TgDelete i _ _ _) = i"

fun tgw_vv :: "tag_write \<Rightarrow> version_vector" where
  "tgw_vv (TgUpsert t) = itg_vv t"
| "tgw_vv (TgDelete _ _ vv _) = vv"

fun tgw_ts :: "tag_write \<Rightarrow> timestamp" where
  "tgw_ts (TgUpsert t) = itg_updated_at t"
| "tgw_ts (TgDelete _ ts _ _) = ts"

fun tgw_writer :: "tag_write \<Rightarrow> string" where
  "tgw_writer (TgUpsert t) = itg_last_writer t"
| "tgw_writer (TgDelete _ _ _ w) = w"

fun tgw_row :: "tag_write \<Rightarrow> tag \<Rightarrow> tag" where
  "tgw_row (TgUpsert t) row = row\<lparr>t_title := itg_title t, t_updated_at := itg_updated_at t,
     t_deleted_at := itg_deleted_at t, t_vv := itg_vv t,
     t_last_writer := itg_last_writer t, t_system := itg_system t\<rparr>"
| "tgw_row (TgDelete _ ts vv w) row = row\<lparr>t_deleted_at := Some ts, t_updated_at := ts,
     t_vv := vv, t_last_writer := w\<rparr>"

fun apply_tg :: "core \<Rightarrow> uuid \<Rightarrow> tag_write \<Rightarrow> db \<Rightarrow> (bool \<times> db) result" where
  "apply_tg co u (TgUpsert t) d = upsert_tag co u t d"
| "apply_tg co u (TgDelete i ts vv w) d = delete_tag co u i ts vv w d"

fun apply_tgs :: "core \<Rightarrow> uuid \<Rightarrow> tag_write list \<Rightarrow> db \<Rightarrow> db result" where
  "apply_tgs co u [] d = Inr d"
| "apply_tgs co u (p # ps) d = res_then (apply_tg co u p d) (\<lambda>(_, d'). apply_tgs co u ps d')"

definition tag_view :: "tag \<Rightarrow> timestamp option \<times> (string \<times> bool) option \<times> string \<times> timestamp" where
  "tag_view t = (t_deleted_at t, if t_deleted_at t = None then Some (t_title t, t_system t) else None,
     t_last_writer t, t_updated_at t)"

interpretation tag_cell: lww_register t_vv t_updated_at t_last_writer tgw_vv tgw_ts tgw_writer
  always tgw_row tag_view
proof (unfold_locales, goal_cases)
  case (1 p s) show ?case by (cases p) simp_all
next
  case (2 p s) show ?case by (cases p) simp_all
next
  case (3 s p) show ?case by (cases p) simp_all
next
  case (4 p s s') show ?case by (cases p) (simp_all add: tag_view_def)
next
  case (5 s p) show ?case by (simp add: always_def)
next
  case (6 p s) show ?case by (cases p) simp_all
next
  case (7 s p) show ?case by (simp add: always_def)
qed

lemma tg_step_eq: "tag_cell.step co p row =
    (if incoming_wins co (t_vv row) (t_updated_at row) (t_last_writer row) (tgw_vv p) (tgw_ts p) (tgw_writer p)
     then tgw_row p row else row)"
  unfolding tag_cell.step_def by (simp add: always_def incoming_wins_def)

lemma own_tag_Some: "own_tag u i d = Some row \<longleftrightarrow> tbl_get (tags d) i = Some row \<and> t_user_id row = u"
  by (auto simp: own_tag_def split: option.splits if_splits)

lemma tgw_row_user [simp]: "t_user_id (tgw_row p row) = t_user_id row"
  by (cases p) simp_all

lemma apply_tg_step:
  assumes "own_tag u (tgw_id p) d = Some row"
  shows "\<exists>b d'. apply_tg co u p d = Inr (b, d') \<and> own_tag u (tgw_id p) d' = Some (tag_cell.step co p row)"
proof (cases p)
  case (TgUpsert t)
  with assms show ?thesis by (auto simp: own_tag_def upsert_tag_def tg_step_eq split: option.splits if_splits)
next
  case (TgDelete i ts vv w)
  with assms show ?thesis by (auto simp: own_tag_def delete_tag_def tg_step_eq split: option.splits if_splits)
qed

lemma apply_tgs_steps:
  assumes "own_tag u i d = Some row" and "\<forall>p\<in>set ps. tgw_id p = i"
  shows "\<exists>d'. apply_tgs co u ps d = Inr d' \<and> own_tag u i d' = Some (fold (tag_cell.step co) ps row)"
  using assms
proof (induction ps arbitrary: d row)
  case (Cons p ps)
  then obtain b d1 where d1: "apply_tg co u p d = Inr (b, d1)" "own_tag u i d1 = Some (tag_cell.step co p row)"
    using apply_tg_step [of u p d row co] by auto
  from Cons.IH [OF d1(2)] Cons.prems(2) d1(1) show ?case by simp
qed simp

subsection \<open>Properties\<close>

text \<open>
  C29: a notebook ends up the same to a reader whatever the order in which its writes arrive
  (creations, updates and deletions), as long as they are distinct and their time stamps
  agree with causality: the latest write remains, and every write succeeds.
\<close>

theorem notebooks_converge:
  assumes "resolver_ok co" and "own_notebook user_id i d = Some row"
    and "\<And>p. p \<in> set ps \<Longrightarrow> nbw_id p = i"
    and "notebook_cell.causal row (set ps)" and "distinct ps" and "distinct qs" and "set qs = set ps"
  shows "\<exists>d1 d2 a b. apply_nbs co user_id ps d = Inr d1 \<and> own_notebook user_id i d1 = Some a
    \<and> apply_nbs co user_id qs d = Inr d2 \<and> own_notebook user_id i d2 = Some b \<and> nb_view b = nb_view a"
proof -
  have "\<forall>p\<in>set ps. nbw_id p = i" "\<forall>p\<in>set qs. nbw_id p = i" using assms(3,7) by auto
  with apply_nbs_steps [OF assms(2)] obtain d1 d2 where
    "apply_nbs co user_id ps d = Inr d1" "own_notebook user_id i d1 = Some (fold (notebook_cell.step co) ps row)"
    "apply_nbs co user_id qs d = Inr d2" "own_notebook user_id i d2 = Some (fold (notebook_cell.step co) qs row)"
    by metis
  with notebook_cell.run_order_irrelevant [OF assms(1,4,5,6,7)] show ?thesis by blast
qed

definition conv_row :: notebook where
  "conv_row = \<lparr>nb_id = 9, nb_user_id = 1, nb_title = ''n'', nb_alias = None, nb_created_at = 0,
     nb_updated_at = 0, nb_deleted_at = None, nb_vv = Map.empty, nb_last_writer = []\<rparr>"

definition conv_tag :: tag where
  "conv_tag = \<lparr>t_id = 9, t_user_id = 1, t_title = ''n'', t_created_at = 0,
     t_updated_at = 0, t_deleted_at = None, t_vv = Map.empty, t_last_writer = [], t_system = False\<rparr>"

definition conv_db :: db where
  "conv_db = empty_db\<lparr>notebooks := [(9, conv_row)], tags := [(9, conv_tag)]\<rparr>"

definition conv_up :: nb_write where
  "conv_up = NbUpsert \<lparr>inb_id = 9, inb_title = ''m'', inb_alias = None, inb_created_at = 0,
     inb_updated_at = 5, inb_deleted_at = None, inb_vv = [''u'' \<mapsto> 1], inb_last_writer = ''u''\<rparr>"

definition conv_del :: nb_write where
  "conv_del = NbDelete 9 6 [''v'' \<mapsto> 1] ''v''"

lemma vv_single_not_empty: "\<not> vv_le [k \<mapsto> Suc n] Map.empty"
  by (auto simp: vv_le_def intro: exI [of _ k])

theorem notebooks_converge_witness:
  "\<exists>d1 d2 a b. apply_nbs ref_core 1 [conv_up, conv_del] conv_db = Inr d1 \<and> own_notebook 1 9 d1 = Some a
     \<and> apply_nbs ref_core 1 [conv_del, conv_up] conv_db = Inr d2 \<and> own_notebook 1 9 d2 = Some b
     \<and> nb_view b = nb_view a"
proof (rule notebooks_converge [OF ref_core_ok])
  show "own_notebook 1 9 conv_db = Some conv_row"
    by (simp add: own_notebook_def conv_db_def conv_row_def tbl_get_def)
  show "notebook_cell.causal conv_row (set [conv_up, conv_del])"
    by (simp add: notebook_cell.causal_def notebook_cell.distinguished_def conv_up_def conv_del_def
        conv_row_def vv_le_single vv_single_not_empty [of _ 0, simplified] later_def)
qed (auto simp: conv_up_def conv_del_def)

text \<open>The same for a tag.\<close>

theorem tags_converge:
  assumes "resolver_ok co" and "own_tag user_id i d = Some row"
    and "\<And>p. p \<in> set ps \<Longrightarrow> tgw_id p = i"
    and "tag_cell.causal row (set ps)" and "distinct ps" and "distinct qs" and "set qs = set ps"
  shows "\<exists>d1 d2 a b. apply_tgs co user_id ps d = Inr d1 \<and> own_tag user_id i d1 = Some a
    \<and> apply_tgs co user_id qs d = Inr d2 \<and> own_tag user_id i d2 = Some b \<and> tag_view b = tag_view a"
proof -
  have "\<forall>p\<in>set ps. tgw_id p = i" "\<forall>p\<in>set qs. tgw_id p = i" using assms(3,7) by auto
  with apply_tgs_steps [OF assms(2)] obtain d1 d2 where
    "apply_tgs co user_id ps d = Inr d1" "own_tag user_id i d1 = Some (fold (tag_cell.step co) ps row)"
    "apply_tgs co user_id qs d = Inr d2" "own_tag user_id i d2 = Some (fold (tag_cell.step co) qs row)"
    by metis
  with tag_cell.run_order_irrelevant [OF assms(1,4,5,6,7)] show ?thesis by blast
qed


definition conv_tup :: tag_write where
  "conv_tup = TgUpsert \<lparr>itg_id = 9, itg_title = ''m'', itg_created_at = 0,
     itg_updated_at = 5, itg_deleted_at = None, itg_vv = [''u'' \<mapsto> 1], itg_last_writer = ''u'', itg_system = False\<rparr>"

definition conv_tdel :: tag_write where
  "conv_tdel = TgDelete 9 6 [''v'' \<mapsto> 1] ''v''"

theorem tags_converge_witness:
  "\<exists>d1 d2 a b. apply_tgs ref_core 1 [conv_tup, conv_tdel] conv_db = Inr d1 \<and> own_tag 1 9 d1 = Some a
     \<and> apply_tgs ref_core 1 [conv_tdel, conv_tup] conv_db = Inr d2 \<and> own_tag 1 9 d2 = Some b
     \<and> tag_view b = tag_view a"
proof (rule tags_converge [OF ref_core_ok])
  show "own_tag 1 9 conv_db = Some conv_tag"
    by (simp add: own_tag_def conv_db_def conv_tag_def tbl_get_def)
  show "tag_cell.causal conv_tag (set [conv_tup, conv_tdel])"
    by (simp add: tag_cell.causal_def tag_cell.distinguished_def conv_tup_def conv_tdel_def
        conv_tag_def vv_le_single vv_single_not_empty [of _ 0, simplified] later_def)
qed (auto simp: conv_tup_def conv_tdel_def)

end
