(* ===== verification/Authentication.thy ===== *)
theory Authentication
  imports Store_Accounts
begin

text \<open>
  \<open>auth.rs\<close>: passwords, tokens and the middleware that turns the \<open>authorization\<close> header of a
  request into an \<open>authed_user\<close>. Argon2 and the JSON web tokens are libraries: the record
  \<open>auth_lib\<close>, with what the code relies on as \<open>jwt_ok\<close> and \<open>argon_ok\<close>.
\<close>

record claims =
  cl_sub :: uuid
  cl_device_id :: uuid
  cl_email :: string
  cl_exp :: nat

text \<open>
  \<open>jwt_decode\<close> takes the time in seconds, the secret and the token; \<open>Validation::default()\<close>
  refuses a token more than \<open>60\<close> seconds past its \<open>exp\<close>.
\<close>

record auth_lib =
  jwt_encode :: "string \<Rightarrow> claims \<Rightarrow> string + string"
  jwt_decode :: "int \<Rightarrow> string \<Rightarrow> string \<Rightarrow> claims option"
  argon_hash :: "string \<Rightarrow> string \<Rightarrow> string + string"
  argon_parse :: "string \<Rightarrow> string option"
  argon_verify :: "string \<Rightarrow> string \<Rightarrow> bool"

text \<open>\<open>HeaderValue::to_str\<close> succeeds on visible ASCII and tabs.\<close>

definition visible_ascii :: "char \<Rightarrow> bool" where
  "visible_ascii c \<longleftrightarrow> (let b = (of_char c :: nat) in (32 \<le> b \<and> b < 127) \<or> b = 9)"

text \<open>
  A token made with the secret is accepted until it expires and no later than the leeway;
  its compact serialization is ASCII. A hash that was made verifies its password.
\<close>

definition jwt_ok :: "auth_lib \<Rightarrow> bool" where
  "jwt_ok lib \<longleftrightarrow>
     (\<forall>secret c token now. jwt_encode lib secret c = Inr token \<and> now \<le> int (cl_exp c) \<longrightarrow>
        jwt_decode lib now secret token = Some c) \<and>
     (\<forall>secret c token. jwt_encode lib secret c = Inr token \<longrightarrow> list_all visible_ascii token) \<and>
     (\<forall>secret c token now. jwt_decode lib now secret token = Some c \<longrightarrow> now \<le> int (cl_exp c) + 60)"

definition argon_ok :: "auth_lib \<Rightarrow> bool" where
  "argon_ok lib \<longleftrightarrow>
     (\<forall>salt password h. argon_hash lib salt password = Inr h \<longrightarrow>
        argon_parse lib h = None \<and> argon_verify lib password h)"

definition hash_password :: "auth_lib \<Rightarrow> string \<Rightarrow> string \<Rightarrow> string result" where
  "hash_password lib salt password =
     (case argon_hash lib salt password of
        Inr h \<Rightarrow> Inr h
      | Inl e \<Rightarrow> Inl (Internal (''password hash failed: '' @ e)))"

text \<open>\<open>argon_parse\<close> is the error of reading a stored hash, if there is one.\<close>

definition verify_password :: "auth_lib \<Rightarrow> string \<Rightarrow> string \<Rightarrow> bool result" where
  "verify_password lib password h =
     (case argon_parse lib h of
        Some e \<Rightarrow> Inl (Internal (''invalid password hash: '' @ e))
      | None \<Rightarrow> Inr (argon_verify lib password h))"

text \<open>\<open>DateTime::timestamp\<close> (seconds, rounded down) read as a 64-bit \<open>usize\<close>.\<close>

definition unix_secs :: "timestamp \<Rightarrow> int" where
  "unix_secs t = t div 1000000"

definition token_exp :: "timestamp \<Rightarrow> int \<Rightarrow> nat" where
  "token_exp now ttl_days = nat (unix_secs (now + ttl_days * 86400 * 1000000) mod 2 ^ 64)"

definition create_token ::
    "auth_lib \<Rightarrow> timestamp \<Rightarrow> uuid \<Rightarrow> uuid \<Rightarrow> string \<Rightarrow> string \<Rightarrow> int \<Rightarrow> string + string" where
  "create_token lib now user_id device_id email secret ttl_days =
     jwt_encode lib secret \<lparr>cl_sub = user_id, cl_device_id = device_id, cl_email = email,
       cl_exp = token_exp now ttl_days\<rparr>"

definition verify_token :: "auth_lib \<Rightarrow> timestamp \<Rightarrow> string \<Rightarrow> string \<Rightarrow> authed_user result" where
  "verify_token lib now token secret =
     (case jwt_decode lib (unix_secs now) secret token of
        None \<Rightarrow> Inl InvalidToken
      | Some c \<Rightarrow> Inr \<lparr>au_user_id = cl_sub c, au_device_id = cl_device_id c, au_email = cl_email c\<rparr>)"

definition header_str :: "string option \<Rightarrow> string option" where
  "header_str h = (case h of Some v \<Rightarrow> if list_all visible_ascii v then Some v else None | None \<Rightarrow> None)"

definition bearer_token :: "string option \<Rightarrow> string result" where
  "bearer_token h =
     ok_or (case header_str h of Some v \<Rightarrow> strip_prefix ''Bearer '' v | None \<Rightarrow> None) MissingToken"

definition auth_mw ::
    "auth_lib \<Rightarrow> app_state \<Rightarrow> timestamp \<Rightarrow> string option \<Rightarrow> db \<Rightarrow> authed_user result" where
  "auth_mw lib app now header d =
     res_then (bearer_token header) (\<lambda>token.
     res_then (verify_token lib now token (jwt_secret (app_config app))) (\<lambda>user.
       case get_device (au_device_id user) d of
         Some device \<Rightarrow> if d_user_id device = au_user_id user then Inr user else Inl InvalidToken
       | None \<Rightarrow> Inl InvalidToken))"

text \<open>The extractor of the handlers: the middleware's user, if it ran.\<close>

definition from_request_parts :: "authed_user option \<Rightarrow> authed_user result" where
  "from_request_parts ext = ok_or ext MissingToken"

subsection \<open>What the middleware accepts\<close>

lemma token_exp_pos:
  assumes "0 \<le> now" and "0 \<le> ttl_days" and "unix_secs (now + ttl_days * 86400 * 1000000) < 2 ^ 64"
  shows "unix_secs now \<le> int (token_exp now ttl_days)"
proof -
  have mono: "now \<le> now + ttl_days * 86400 * 1000000" using assms(2) by simp
  then have "unix_secs now \<le> unix_secs (now + ttl_days * 86400 * 1000000)"
    unfolding unix_secs_def by (rule zdiv_mono1) simp
  moreover have "0 \<le> unix_secs (now + ttl_days * 86400 * 1000000)"
    using assms(1) mono by (simp add: unix_secs_def pos_imp_zdiv_nonneg_iff)
  ultimately show ?thesis using assms(3) by (simp add: token_exp_def)
qed

lemma verify_created:
  assumes "jwt_ok lib" and "create_token lib now u dev em secret ttl = Inr token"
    and "unix_secs later_now \<le> int (token_exp now ttl)"
  shows "verify_token lib later_now token secret = Inr \<lparr>au_user_id = u, au_device_id = dev, au_email = em\<rparr>"
proof -
  have "jwt_decode lib (unix_secs later_now) secret token = Some \<lparr>cl_sub = u, cl_device_id = dev,
      cl_email = em, cl_exp = token_exp now ttl\<rparr>"
    using assms unfolding jwt_ok_def create_token_def by fastforce
  then show ?thesis by (simp add: verify_token_def)
qed

lemma auth_mw_Inr:
  "auth_mw lib app now header d = Inr au \<longleftrightarrow>
     (\<exists>token. bearer_token header = Inr token \<and>
        verify_token lib now token (jwt_secret (app_config app)) = Inr au) \<and>
     (\<exists>device. tbl_get (user_devices d) (au_device_id au) = Some device \<and> d_user_id device = au_user_id au)"
proof (cases "bearer_token header")
  case (Inr token)
  then show ?thesis
    by (cases "verify_token lib now token (jwt_secret (app_config app))")
      (auto simp: auth_mw_def get_device_def split: option.splits if_splits)
qed (simp add: auth_mw_def)

lemma bearer_token_made:
  assumes "jwt_ok lib" and "create_token lib now u dev em secret ttl = Inr token"
  shows "bearer_token (Some (''Bearer '' @ token)) = Inr token"
proof -
  have "list_all visible_ascii token" using assms unfolding jwt_ok_def create_token_def by blast
  then have "list_all visible_ascii (''Bearer '' @ token)" by (simp add: visible_ascii_def)
  then show ?thesis
    using strip_prefix_append [of "''Bearer ''" token] unfolding bearer_token_def header_str_def by simp
qed

lemma drop_devices_get:
  assumes "tbl_ok (user_devices d)"
  shows "tbl_get (user_devices (snd (drop_devices P d))) k =
    (case tbl_get (user_devices d) k of None \<Rightarrow> None | Some r \<Rightarrow> if P k r then None else Some r)"
  using assms by (simp add: drop_devices_def tbl_get_del_where)

text \<open>Deleting the devices of a user refuses every token of the user and no other.\<close>

lemma auth_mw_devices_dropped:
  assumes "tbl_ok (user_devices d)" and "user_devices d' = user_devices (snd (delete_all_device_rows u d))"
  shows "auth_mw lib app now header d' = Inr au \<longleftrightarrow>
    auth_mw lib app now header d = Inr au \<and> au_user_id au \<noteq> u"
  using assms by (auto simp: auth_mw_Inr delete_all_device_rows_def drop_devices_get split: option.splits if_splits)

end
