(* ===== verification/Mail.thy ===== *)
theory Mail
  imports Store_Accounts
begin

text \<open>
  \<open>mail.rs\<close>: mail is handed to a webhook over HTTP. The HTTP client and the rendering of
  times, identifiers and status codes are the fields of \<open>mail_env\<close>; a mailer without a webhook
  sends nothing. The result of a send comes with the requests that were made.
\<close>

record webhook_request =
  wr_url :: string
  wr_bearer :: "string option"
  wr_body :: json

record mail_env =
  me_post :: "webhook_request \<Rightarrow> string + nat"
  me_status_str :: "nat \<Rightarrow> string"
  me_time_str :: "timestamp \<Rightarrow> string"
  me_uuid_str :: "uuid \<Rightarrow> string"

record mailer =
  webhook_url :: "string option"
  webhook_token :: "string option"

definition mailer_of :: "config \<Rightarrow> mailer" where
  "mailer_of cfg = \<lparr>webhook_url = mail_webhook_url cfg, webhook_token = mail_webhook_token cfg\<rparr>"

definition mailer_enabled :: "mailer \<Rightarrow> bool" where
  "mailer_enabled m \<longleftrightarrow> webhook_url m \<noteq> None"

definition deliver :: "mail_env \<Rightarrow> webhook_request \<Rightarrow> (string + unit) \<times> webhook_request list" where
  "deliver env req =
     (case me_post env req of
        Inr code \<Rightarrow>
          if 200 \<le> code \<and> code < 300 then (Inr (), [req])
          else (Inl (''mail webhook answered '' @ me_status_str env code), [req])
      | Inl e \<Rightarrow> (Inl (''mail webhook unreachable: '' @ e), [req]))"

definition mail_send ::
    "mail_env \<Rightarrow> mailer \<Rightarrow> mail_kind \<Rightarrow> string \<Rightarrow> string \<Rightarrow> string \<Rightarrow> timestamp \<Rightarrow>
     (string + unit) \<times> webhook_request list" where
  "mail_send env m kind to display_name token expires_at =
     (case webhook_url m of
        None \<Rightarrow> (Inl ''mail webhook not configured'', [])
      | Some url \<Rightarrow> deliver env \<lparr>wr_url = url, wr_bearer = webhook_token m,
          wr_body = JObj [(''kind'', JStr (mail_kind_str kind)), (''to'', JStr to),
            (''display_name'', JStr display_name), (''token'', JStr token),
            (''expires_at'', JStr (me_time_str env expires_at))]\<rparr>)"

definition send_notice ::
    "mail_env \<Rightarrow> mailer \<Rightarrow> mail_kind \<Rightarrow> string \<Rightarrow> string \<Rightarrow> string \<Rightarrow> uuid \<Rightarrow>
     (string + unit) \<times> webhook_request list" where
  "send_notice env m kind to display_name resource_kind resource_id =
     (case webhook_url m of
        None \<Rightarrow> (Inr (), [])
      | Some url \<Rightarrow> deliver env \<lparr>wr_url = url, wr_bearer = webhook_token m,
          wr_body = JObj [(''kind'', JStr (mail_kind_str kind)), (''to'', JStr to),
            (''display_name'', JStr display_name), (''resource_kind'', JStr resource_kind),
            (''resource_id'', JStr (me_uuid_str env resource_id))]\<rparr>)"

end
