(* ===== verification/Accounts.thy ===== *)
theory Accounts
  imports Authentication Mail Sharing
begin

text \<open>
  \<open>http.rs\<close>, the account handlers: registration, login with its lockout, devices, passwords,
  deletion of the account and the two flows with an e-mailed token. What a handler draws from
  its environment (time, salt, fresh identifiers, the random token) and the libraries it calls
  are the fields of \<open>acc_env\<close>. A handler returns its answer, the database and, where it may
  send mail, the requests to the webhook.
\<close>

record acc_env =
  ae_lib :: auth_lib
  ae_mail :: mail_env
  ae_now :: timestamp
  ae_salt :: string
  ae_fresh :: uuid
  ae_token :: string
  ae_token_id :: uuid
  ae_token_hash :: "string \<Rightarrow> string"

definition at_sign :: char where
  "at_sign = CHR ''@''"

definition is_valid_email :: "string \<Rightarrow> bool" where
  "is_valid_email email =
     (case split_on at_sign email of
        [local, domain] \<Rightarrow>
          local \<noteq> [] \<and> length domain \<ge> 3 \<and> CHR ''.'' \<in> set domain \<and>
          hd domain \<noteq> CHR ''.'' \<and> last domain \<noteq> CHR ''.''
      | _ \<Rightarrow> False)"

definition json_ok :: json where
  "json_ok = JObj [(''ok'', JBool True)]"

subsection \<open>Mail flows\<close>

definition send_flow_mail ::
    "acc_env \<Rightarrow> app_state \<Rightarrow> user \<Rightarrow> mail_kind \<Rightarrow> db \<Rightarrow> unit result \<times> db \<times> webhook_request list" where
  "send_flow_mail env app u kind d =
     (case create_email_token (ae_token_hash env) (ae_now env) (ae_token_id env) (ae_token env)
             (u_id u) kind (email_token_ttl_secs (app_config app)) d of
        Inl e \<Rightarrow> (Inl e, d, [])
      | Inr ((token, expires_at), d') \<Rightarrow>
          (case mail_send (ae_mail env) (mailer_of (app_config app)) kind (u_email u)
                  (u_display_name u) token expires_at of
             (Inr _, reqs) \<Rightarrow> (Inr (), d', reqs)
           | (Inl m, reqs) \<Rightarrow> (Inl (Internal m), d', reqs)))"

definition verify_request ::
    "acc_env \<Rightarrow> app_state \<Rightarrow> authed_user \<Rightarrow> db \<Rightarrow> json result \<times> db \<times> webhook_request list" where
  "verify_request env app user d =
     (if \<not> mailer_enabled (mailer_of (app_config app))
      then (Inl (NotImplemented ''mail webhook not configured''), d, [])
      else case get_user_by_id_on (au_user_id user) d of
        None \<Rightarrow> (Inl NotFound, d, [])
      | Some stored \<Rightarrow>
          if u_email_verified_at stored \<noteq> None
          then (Inr (JObj [(''ok'', JBool True), (''already_verified'', JBool True)]), d, [])
          else case send_flow_mail env app stored VerifyEmail d of
            (Inl e, d', reqs) \<Rightarrow> (Inl e, d', reqs)
          | (Inr _, d', reqs) \<Rightarrow> (Inr json_ok, d', reqs))"

definition verify_confirm :: "acc_env \<Rightarrow> string \<Rightarrow> db \<Rightarrow> json result \<times> db" where
  "verify_confirm env token d =
     (case consume_email_token (ae_token_hash env) (ae_now env) VerifyEmail token d of
        (None, d') \<Rightarrow> (Inl (BadRequest ''invalid or expired token''), d')
      | (Some user_id, d') \<Rightarrow> (Inr json_ok, mark_email_verified (ae_now env) user_id d'))"

definition reset_request ::
    "acc_env \<Rightarrow> app_state \<Rightarrow> string \<Rightarrow> db \<Rightarrow> json result \<times> db \<times> webhook_request list" where
  "reset_request env app email d =
     (if \<not> mailer_enabled (mailer_of (app_config app))
      then (Inl (NotImplemented ''mail webhook not configured''), d, [])
      else case get_user_by_email_on (normalize_email app email) d of
        None \<Rightarrow> (Inr json_ok, d, [])
      | Some u \<Rightarrow> (case send_flow_mail env app u PasswordReset d of (_, d', reqs) \<Rightarrow> (Inr json_ok, d', reqs)))"

definition reset_confirm :: "acc_env \<Rightarrow> string \<Rightarrow> string \<Rightarrow> db \<Rightarrow> json result \<times> db" where
  "reset_confirm env token new_password d =
     (if length new_password < 8 then (Inl (BadRequest ''password too short''), d)
      else case consume_email_token (ae_token_hash env) (ae_now env) PasswordReset token d of
        (None, d1) \<Rightarrow> (Inl (BadRequest ''invalid or expired token''), d1)
      | (Some user_id, d1) \<Rightarrow>
          (case hash_password (ae_lib env) (ae_salt env) new_password of
             Inl e \<Rightarrow> (Inl e, d1)
           | Inr h \<Rightarrow>
               let d2 = update_password user_id h d1;
                   d3 = snd (delete_all_device_rows user_id d2)
               in (Inr json_ok,
                   case get_user_by_id_on user_id d3 of
                     Some u \<Rightarrow> clear_login_failures (u_email u) d3
                   | None \<Rightarrow> d3)))"

subsection \<open>Registration and login\<close>

record register_body =
  rb_email :: string
  rb_password :: string
  rb_display_name :: "string option"

definition chosen_name :: "string option \<Rightarrow> string \<Rightarrow> string" where
  "chosen_name display_name email =
     (case display_name of
        Some n \<Rightarrow> if trim n \<noteq> [] then n else hd (split_on at_sign email)
      | None \<Rightarrow> hd (split_on at_sign email))"

definition register ::
    "acc_env \<Rightarrow> app_state \<Rightarrow> register_body \<Rightarrow> db \<Rightarrow> user result \<times> db \<times> webhook_request list" where
  "register env app body d =
     (if \<not> registration_enabled (app_config app) then (Inl Forbidden, d, [])
      else if length (rb_password body) < 8 then (Inl (BadRequest ''password too short''), d, [])
      else
        let email = normalize_email app (rb_email body)
        in if \<not> is_valid_email email then (Inl (BadRequest ''invalid email''), d, [])
           else case res_then (hash_password (ae_lib env) (ae_salt env) (rb_password body)) (\<lambda>h.
                  create_user (ae_now env) (ae_fresh env) email h (chosen_name (rb_display_name body) email) d) of
             Inl e \<Rightarrow> (Inl e, d, [])
           | Inr (u, d1) \<Rightarrow>
               if mailer_enabled (mailer_of (app_config app))
               then (case send_flow_mail env app u VerifyEmail d1 of (_, d2, reqs) \<Rightarrow> (Inr u, d2, reqs))
               else (Inr u, d1, []))"

record login_body =
  lb_email :: string
  lb_password :: string
  lb_device_name :: string

definition lockout_enabled :: "app_state \<Rightarrow> bool" where
  "lockout_enabled app \<longleftrightarrow> login_max_failures (app_config app) > 0"

definition record_failure :: "acc_env \<Rightarrow> app_state \<Rightarrow> string \<Rightarrow> db \<Rightarrow> db" where
  "record_failure env app email d =
     (if lockout_enabled app
      then record_login_failure (ae_now env) email (login_max_failures (app_config app))
             (login_lockout_secs (app_config app)) d
      else d)"

text \<open>The device row is created only while the password is still the one that was verified.\<close>

definition login_tx :: "acc_env \<Rightarrow> uuid \<Rightarrow> string \<Rightarrow> string \<Rightarrow> db \<Rightarrow> (user_device \<times> db) result" where
  "login_tx env user_id verified_hash device_name d =
     res_then (ok_or (get_user_by_id_on user_id d) InvalidToken) (\<lambda>stored.
       if u_password_hash stored \<noteq> verified_hash then Inl InvalidToken
       else create_device_on (ae_now env) (ae_fresh env) user_id device_name d)"

definition login_device ::
    "acc_env \<Rightarrow> app_state \<Rightarrow> world \<Rightarrow> user \<Rightarrow> string \<Rightarrow> db \<Rightarrow> (string \<times> uuid) result \<times> db" where
  "login_device env app w u device_name d =
     (case serializable w (login_tx env (u_id u) (u_password_hash u) device_name) d of
        (Inl e, d') \<Rightarrow> (Inl e, d')
      | (Inr device, d') \<Rightarrow>
          (case create_token (ae_lib env) (ae_now env) (u_id u) (d_id device) (u_email u)
                  (jwt_secret (app_config app)) (token_ttl_days (app_config app)) of
             Inl e \<Rightarrow> (Inl (Internal e), d')
           | Inr token \<Rightarrow> (Inr (token, d_id device), d')))"

definition login ::
    "acc_env \<Rightarrow> app_state \<Rightarrow> world \<Rightarrow> login_body \<Rightarrow> db \<Rightarrow> (string \<times> uuid) result \<times> db" where
  "login env app w body d =
     (let email = normalize_email app (lb_email body)
      in if lockout_enabled app \<and> login_locked (ae_now env) email d then (Inl TooManyAttempts, d)
         else case get_user_by_email_on email d of
           None \<Rightarrow> (Inl InvalidToken, record_failure env app email d)
         | Some u \<Rightarrow>
             (case verify_password (ae_lib env) (lb_password body) (u_password_hash u) of
                Inl e \<Rightarrow> (Inl e, d)
              | Inr False \<Rightarrow> (Inl InvalidToken, record_failure env app email d)
              | Inr True \<Rightarrow>
                  if email_verification_required (app_config app) \<and> u_email_verified_at u = None
                  then (Inl (BadRequest ''email not verified''), d)
                  else login_device env app w u (lb_device_name body)
                    (if lockout_enabled app then clear_login_failures email d else d)))"

subsection \<open>Devices, password, account\<close>

definition create_device ::
    "acc_env \<Rightarrow> app_state \<Rightarrow> authed_user \<Rightarrow> string \<Rightarrow> db \<Rightarrow> (string \<times> uuid \<times> string) result \<times> db" where
  "create_device env app user device_name d =
     (case create_device_on (ae_now env) (ae_fresh env) (au_user_id user) device_name d of
        Inl e \<Rightarrow> (Inl e, d)
      | Inr (device, d') \<Rightarrow>
          (case create_token (ae_lib env) (ae_now env) (au_user_id user) (d_id device) (au_email user)
                  (jwt_secret (app_config app)) (token_ttl_days (app_config app)) of
             Inl e \<Rightarrow> (Inl (Internal e), d')
           | Inr token \<Rightarrow> (Inr (token, d_id device, d_device_name device), d')))"

definition delete_device :: "authed_user \<Rightarrow> uuid \<Rightarrow> db \<Rightarrow> json result \<times> db" where
  "delete_device user device_id d =
     (case delete_device_row device_id (au_user_id user) d of
        (False, d') \<Rightarrow> (Inl NotFound, d')
      | (True, d') \<Rightarrow> (Inr json_ok, d'))"

definition list_devices :: "authed_user \<Rightarrow> db \<Rightarrow> user_device list" where
  "list_devices user d = list_devices_by_user (au_user_id user) d"

definition delete_all_devices :: "authed_user \<Rightarrow> db \<Rightarrow> json \<times> db" where
  "delete_all_devices user d =
     (case delete_all_device_rows (au_user_id user) d of
        (removed, d') \<Rightarrow> (JObj [(''ok'', JBool True), (''revoked'', JNum (int removed))], d'))"

definition change_password ::
    "acc_env \<Rightarrow> authed_user \<Rightarrow> string \<Rightarrow> string \<Rightarrow> db \<Rightarrow> json result \<times> db" where
  "change_password env user current_password new_password d =
     (if length new_password < 8 then (Inl (BadRequest ''password too short''), d)
      else case res_then (ok_or (get_user_by_id_on (au_user_id user) d) NotFound) (\<lambda>stored.
             res_then (verify_password (ae_lib env) current_password (u_password_hash stored)) (\<lambda>ok.
               if \<not> ok then Inl InvalidToken
               else hash_password (ae_lib env) (ae_salt env) new_password)) of
        Inl e \<Rightarrow> (Inl e, d)
      | Inr h \<Rightarrow> (Inr json_ok, update_password (au_user_id user) h d))"

definition delete_account_tx :: "uuid \<Rightarrow> string \<Rightarrow> db \<Rightarrow> (bool \<times> db) result" where
  "delete_account_tx user_id verified_hash d =
     res_then (ok_or (get_user_by_id_on user_id d) NotFound) (\<lambda>stored.
       if u_password_hash stored \<noteq> verified_hash then Inl InvalidToken
       else delete_user_on user_id d)"

definition delete_account :: "acc_env \<Rightarrow> world \<Rightarrow> authed_user \<Rightarrow> string \<Rightarrow> db \<Rightarrow> json result \<times> db" where
  "delete_account env w user password d =
     (case res_then (ok_or (get_user_by_id_on (au_user_id user) d) NotFound) (\<lambda>stored.
             res_then (verify_password (ae_lib env) password (u_password_hash stored)) (\<lambda>ok.
               if \<not> ok then Inl InvalidToken else Inr (u_password_hash stored))) of
        Inl e \<Rightarrow> (Inl e, d)
      | Inr verified_hash \<Rightarrow>
          (case serializable w (delete_account_tx (au_user_id user) verified_hash) d of
             (Inl e, d') \<Rightarrow> (Inl e, d')
           | (Inr _, d') \<Rightarrow> (Inr json_ok, d')))"

end
