(* ===== verification/Account_Security.thy ===== *)
theory Account_Security
  imports Accounts Journal
begin

text \<open>
  What the account handlers guarantee: a login needs the password and yields a token that
  authenticates as that user and device, wrong passwords lock the account, a reset token works
  once and revokes every session, and deleting an account erases it.
\<close>

subsection \<open>Login\<close>

lemma login_tx_Inr:
  assumes "login_tx env u h name d = Inr (device, d')"
  shows "\<exists>stored. tbl_get (users d) u = Some stored \<and> u_password_hash stored = h" and "d_user_id device = u"
    and "d' = d\<lparr>user_devices := tbl_put (d_id device) device (user_devices d)\<rparr>"
  using assms
  by (auto simp: login_tx_def res_simps get_user_by_id_on_def create_device_on_def Let_def split: if_splits)

definition bad_credentials :: "acc_env \<Rightarrow> app_state \<Rightarrow> login_body \<Rightarrow> db \<Rightarrow> bool" where
  "bad_credentials env app body d =
     (case get_user_by_email_on (normalize_email app (lb_email body)) d of
        None \<Rightarrow> True
      | Some u \<Rightarrow> verify_password (ae_lib env) (lb_password body) (u_password_hash u) = Inr False)"

lemma login_Inr:
  assumes "login env app w body d = (Inr (token, dev), d')"
  obtains u k device where
    "get_user_by_email_on (normalize_email app (lb_email body)) d = Some u"
    "verify_password (ae_lib env) (lb_password body) (u_password_hash u) = Inr True"
    "\<not> (lockout_enabled app \<and> login_locked (ae_now env) (normalize_email app (lb_email body)) d)"
    "email_verification_required (app_config app) \<longrightarrow> u_email_verified_at u \<noteq> None"
    "k < 3" "d_id device = dev"
    "login_tx env (u_id u) (u_password_hash u) (lb_device_name body)
       (seen w k (if lockout_enabled app then clear_login_failures (normalize_email app (lb_email body)) d else d))
       = Inr (device, d')"
    "create_token (ae_lib env) (ae_now env) (u_id u) dev (u_email u) (jwt_secret (app_config app))
       (token_ttl_days (app_config app)) = Inr token"
proof -
  let ?email = "normalize_email app (lb_email body)"
  let ?d0 = "if lockout_enabled app then clear_login_failures ?email d else d"
  from assms obtain u where u: "get_user_by_email_on ?email d = Some u"
      "verify_password (ae_lib env) (lb_password body) (u_password_hash u) = Inr True"
      "\<not> (lockout_enabled app \<and> login_locked (ae_now env) ?email d)"
      "email_verification_required (app_config app) \<longrightarrow> u_email_verified_at u \<noteq> None"
    and run: "login_device env app w u (lb_device_name body) ?d0 = (Inr (token, dev), d')"
    unfolding login_def Let_def by (auto split: if_splits option.splits sum.splits bool.splits)
  from run obtain device where ser: "serializable w (login_tx env (u_id u) (u_password_hash u) (lb_device_name body)) ?d0
        = (Inr device, d')" and tok: "d_id device = dev"
      "create_token (ae_lib env) (ae_now env) (u_id u) dev (u_email u) (jwt_secret (app_config app))
        (token_ttl_days (app_config app)) = Inr token"
    unfolding login_device_def by (auto split: prod.splits sum.splits)
  from ser obtain k where "k < 3" "login_tx env (u_id u) (u_password_hash u) (lb_device_name body) (seen w k ?d0) = Inr (device, d')"
    by (rule serializable_Inr)
  with u tok that show thesis by blast
qed

lemma record_failure_simps [simp]:
  "users (record_failure env app email d) = users d"
  "user_devices (record_failure env app email d) = user_devices d"
  by (simp_all add: record_failure_def record_login_failure_def Let_def)

lemma record_failure_row:
  assumes "lockout_enabled app"
    and "count = (case tbl_get (login_attempts d) email of
      None \<Rightarrow> 1
    | Some a \<Rightarrow> if la_last_failed_at a < ae_now env - seconds (login_lockout_secs (app_config app)) then 1
        else la_failed_count a + 1)"
  shows "tbl_get (login_attempts (record_failure env app email d)) email =
    Some \<lparr>la_failed_count = count, la_last_failed_at = ae_now env,
      la_locked_until = (if count \<ge> login_max_failures (app_config app)
        then Some (ae_now env + seconds (login_lockout_secs (app_config app))) else None)\<rparr>"
  unfolding assms(2) using assms(1) by (simp add: record_failure_def record_login_failure_def Let_def)

lemma bad_credentials_cong: "users d' = users d \<Longrightarrow> bad_credentials env app body d' = bad_credentials env app body d"
  by (simp add: bad_credentials_def get_user_by_email_on_def)

lemma login_bad:
  assumes "bad_credentials env app body d"
    and "\<not> (lockout_enabled app \<and> login_locked (ae_now env) (normalize_email app (lb_email body)) d)"
  shows "login env app w body d = (Inl InvalidToken, record_failure env app (normalize_email app (lb_email body)) d)"
  using assms by (auto simp: login_def Let_def bad_credentials_def split: option.splits)

text \<open>A sequence of login requests, each with its own environment.\<close>

fun run_logins :: "app_state \<Rightarrow> world \<Rightarrow> (acc_env \<times> login_body) list \<Rightarrow> db \<Rightarrow> db" where
  "run_logins app w [] d = d"
| "run_logins app w ((env, body) # es) d = run_logins app w es (snd (login env app w body d))"

lemma run_logins_append: "run_logins app w (xs @ ys) d = run_logins app w ys (run_logins app w xs d)"
  by (induction xs arbitrary: d) (auto simp: split_paired_all)

text \<open>Each attempt follows the previous one within the lockout window.\<close>

definition follows :: "app_state \<Rightarrow> acc_env \<times> login_body \<Rightarrow> acc_env \<times> login_body \<Rightarrow> bool" where
  "follows app a b \<longleftrightarrow> ae_now (fst b) \<le> ae_now (fst a) + seconds (login_lockout_secs (app_config app))"

lemma failures_counted:
  assumes "lockout_enabled app" and "tbl_get (login_attempts d) email = None" and "es \<noteq> []"
    and "int (length es) \<le> login_max_failures (app_config app)"
    and "\<forall>e\<in>set es. normalize_email app (lb_email (snd e)) = email \<and> bad_credentials (fst e) app (snd e) d"
    and "successively (follows app) es"
  shows "users (run_logins app w es d) = users d \<and>
    tbl_get (login_attempts (run_logins app w es d)) email =
      Some \<lparr>la_failed_count = int (length es), la_last_failed_at = ae_now (fst (last es)),
        la_locked_until = (if int (length es) \<ge> login_max_failures (app_config app)
          then Some (ae_now (fst (last es)) + seconds (login_lockout_secs (app_config app))) else None)\<rparr>"
  using assms(3-)
proof (induction es rule: rev_induct)
  case (snoc e es)
  obtain env body where e: "e = (env, body)" by (cases e)
  let ?d = "run_logins app w es d"
  have email: "normalize_email app (lb_email body) = email" and bad: "bad_credentials env app body d"
    using snoc.prems(3) e by auto
  show ?case
  proof (cases "es = []")
    case True
    have "login env app w body d = (Inl InvalidToken, record_failure env app email d)"
      using login_bad [OF bad] assms(2) email by (simp add: login_locked_def)
    then have run: "run_logins app w (es @ [e]) d = record_failure env app email d" using True e by simp
    have "tbl_get (login_attempts (record_failure env app email d)) email =
      Some \<lparr>la_failed_count = 1, la_last_failed_at = ae_now env,
      la_locked_until = (if 1 \<ge> login_max_failures (app_config app)
        then Some (ae_now env + seconds (login_lockout_secs (app_config app))) else None)\<rparr>"
      by (rule record_failure_row [OF assms(1)]) (simp add: assms(2))
    with run True e show ?thesis by simp
  next
    case False
    have ih: "users ?d = users d" "tbl_get (login_attempts ?d) email =
      Some \<lparr>la_failed_count = int (length es), la_last_failed_at = ae_now (fst (last es)), la_locked_until = None\<rparr>"
      using snoc.IH [OF False] snoc.prems by (auto simp: successively_append_iff)
    have "bad_credentials env app body ?d" using bad by (simp add: bad_credentials_cong [OF ih(1)])
    from login_bad [OF this] ih(2) email
    have run: "login env app w body ?d = (Inl InvalidToken, record_failure env app email ?d)"
      by (simp add: login_locked_def)
    have "ae_now env \<le> ae_now (fst (last es)) + seconds (login_lockout_secs (app_config app))"
      using snoc.prems(4) False e by (simp add: successively_append_iff follows_def)
    then have "\<not> ae_now (fst (last es)) < ae_now env - seconds (login_lockout_secs (app_config app))" by simp
    with ih(2) have "tbl_get (login_attempts (record_failure env app email ?d)) email =
      Some \<lparr>la_failed_count = int (length es) + 1, la_last_failed_at = ae_now env,
      la_locked_until = (if int (length es) + 1 \<ge> login_max_failures (app_config app)
        then Some (ae_now env + seconds (login_lockout_secs (app_config app))) else None)\<rparr>"
      by (intro record_failure_row [OF assms(1)]) simp
    moreover have "run_logins app w (es @ [e]) d = record_failure env app email ?d"
      by (simp add: run_logins_append e run)
    ultimately show ?thesis using ih(1) e by (simp add: add.commute)
  qed
qed simp

subsection \<open>Tokens sent by mail\<close>

lemma consume_Some:
  assumes "consume_email_token hash now kind token d = (Some u, d')"
  shows "\<exists>t. t \<in> snd ` set (email_tokens d) \<and> et_user_id t = u \<and> et_token_hash t = hash token
      \<and> et_kind t = mail_kind_str kind \<and> live_token now t"
    and "d' = d\<lparr>email_tokens := email_tokens d'\<rparr>"
  using assms
  by (auto simp: consume_email_token_def Let_def find_Some_iff image_iff split: option.splits)
    (metis nth_mem snd_conv surjective_pairing)

text \<open>After the statement no row is left that the same token could consume.\<close>

lemma consume_twice:
  assumes "snd (consume_email_token hash now kind token d) = d1" and "email_tokens d' = email_tokens d1" and "now \<le> now'"
  shows "fst (consume_email_token hash now' kind token d') = None"
proof -
  have "\<not> (et_token_hash t = hash token \<and> et_kind t = mail_kind_str kind \<and> live_token now' t)"
    if "t \<in> snd ` set (email_tokens d')" for t
    using that assms by (auto simp: consume_email_token_def Let_def tbl_upd_where_def live_token_def split: if_splits)
  then have "find (\<lambda>r. et_token_hash (snd r) = hash token \<and> et_kind (snd r) = mail_kind_str kind
      \<and> live_token now' (snd r)) (email_tokens d') = None"
    by (force simp: find_None_iff)
  then show ?thesis by (simp add: consume_email_token_def Let_def)
qed

lemma reset_confirm_Inr:
  assumes "reset_confirm env token pw d = (Inr r, d')"
  obtains u h d1 where "consume_email_token (ae_token_hash env) (ae_now env) PasswordReset token d = (Some u, d1)"
    "hash_password (ae_lib env) (ae_salt env) pw = Inr h"
    "users d' = tbl_upd u (\<lambda>x. x\<lparr>u_password_hash := h\<rparr>) (users d1)"
    "user_devices d' = user_devices (snd (delete_all_device_rows u d1))"
    "email_tokens d' = email_tokens d1"
  using assms
  by (auto simp: reset_confirm_def Let_def update_password_def delete_all_device_rows_def drop_devices_def
      clear_login_failures_def split: if_splits prod.splits option.splits sum.splits)

subsection \<open>Deleting an account\<close>

definition keyed_tables :: "db \<Rightarrow> bool" where
  "keyed_tables d \<longleftrightarrow> tbl_ok (user_devices d) \<and> tbl_ok (notes_tbl d) \<and> tbl_ok (lines d) \<and>
     tbl_ok (note_shares d) \<and> tbl_ok (notebooks d) \<and> tbl_ok (notebook_shares d) \<and> tbl_ok (tags d) \<and>
     tbl_ok (note_tags d) \<and> tbl_ok (resources d) \<and> tbl_ok (changes d) \<and> tbl_ok (email_tokens d)"

text \<open>No row of the user is left, nor a line or a share of a note the user owned.\<close>

definition erased :: "uuid \<Rightarrow> db \<Rightarrow> db \<Rightarrow> bool" where
  "erased u d d' \<longleftrightarrow> tbl_get (users d') u = None \<and>
     (\<forall>i r. tbl_get (user_devices d') i = Some r \<longrightarrow> d_user_id r \<noteq> u) \<and>
     (\<forall>i r. tbl_get (notes_tbl d') i = Some r \<longrightarrow> n_owner_id r \<noteq> u) \<and>
     (\<forall>i l n. tbl_get (lines d') i = Some l \<and> tbl_get (notes_tbl d) (l_note_id l) = Some n \<longrightarrow> n_owner_id n \<noteq> u) \<and>
     (\<forall>k s. tbl_get (note_shares d') k = Some s \<longrightarrow> snd k \<noteq> u) \<and>
     (\<forall>i r. tbl_get (notebooks d') i = Some r \<longrightarrow> nb_user_id r \<noteq> u) \<and>
     (\<forall>k s. tbl_get (notebook_shares d') k = Some s \<longrightarrow> snd k \<noteq> u) \<and>
     (\<forall>i r. tbl_get (tags d') i = Some r \<longrightarrow> t_user_id r \<noteq> u) \<and>
     (\<forall>k r. tbl_get (note_tags d') k = Some r \<longrightarrow> fst k \<noteq> u) \<and>
     (\<forall>i r. tbl_get (resources d') i = Some r \<longrightarrow> r_user_id r \<noteq> u) \<and>
     (\<forall>i r. tbl_get (changes d') i = Some r \<longrightarrow> c_user_id r \<noteq> u) \<and>
     (\<forall>r. r \<in> set (projection_jobs d') \<longrightarrow> fst (fst r) \<noteq> u) \<and>
     (\<forall>i r. tbl_get (email_tokens d') i = Some r \<longrightarrow> et_user_id r \<noteq> u)"

text \<open>The other users keep their accounts and their notes.\<close>

definition others_kept :: "uuid \<Rightarrow> db \<Rightarrow> db \<Rightarrow> bool" where
  "others_kept u d d' \<longleftrightarrow>
     (\<forall>v. v \<noteq> u \<longrightarrow> tbl_get (users d') v = tbl_get (users d) v) \<and>
     (\<forall>i r. tbl_get (user_devices d) i = Some r \<and> d_user_id r \<noteq> u \<longrightarrow> tbl_get (user_devices d') i = Some r) \<and>
     (\<forall>i r. tbl_get (notes_tbl d) i = Some r \<and> n_owner_id r \<noteq> u \<longrightarrow> tbl_get (notes_tbl d') i = Some r) \<and>
     (\<forall>i l n. tbl_get (lines d) i = Some l \<and> tbl_get (notes_tbl d) (l_note_id l) = Some n \<and> n_owner_id n \<noteq> u
        \<longrightarrow> tbl_get (lines d') i = Some l) \<and>
     (\<forall>i r. tbl_get (notebooks d) i = Some r \<and> nb_user_id r \<noteq> u \<longrightarrow> tbl_get (notebooks d') i = Some r)"

lemma row_of_key:
  assumes "tbl_ok t" and "tbl_get t k = Some v"
  shows "(\<exists>r\<in>set t. fst r = k \<and> P (snd r)) \<longleftrightarrow> P v"
proof
  assume "\<exists>r\<in>set t. fst r = k \<and> P (snd r)"
  then show "P v" using assms by (auto simp: tbl_get_in_iff [symmetric])
next
  assume "P v"
  then show "\<exists>r\<in>set t. fst r = k \<and> P (snd r)" using tbl_get_Some_in [OF assms(2)] by (intro bexI [of _ "(k, v)"]) simp_all
qed

lemma delete_user_erases:
  assumes "delete_user_on u d = Inr (True, d')" and "keyed_tables d"
  shows "erased u d d'" and "others_kept u d d'"
proof -
  have ok: "tbl_ok (notes_tbl d)" using assms(2) by (simp add: keyed_tables_def)
  have jobs: "\<not> (\<exists>j\<in>set (projection_jobs d). fst (fst j) = u)"
    and eq: "projection_jobs d' = projection_jobs d" "users d' = tbl_del u (users d)"
      "user_devices d' = tbl_del_where (\<lambda>_ r. d_user_id r = u) (user_devices d)"
      "notes_tbl d' = tbl_del_where (\<lambda>_ r. n_owner_id r = u) (notes_tbl d)"
      "lines d' = tbl_del_where (\<lambda>_ l. \<exists>r\<in>set (notes_tbl d). fst r = l_note_id l \<and> n_owner_id (snd r) = u) (lines d)"
      "notebooks d' = tbl_del_where (\<lambda>_ r. nb_user_id r = u) (notebooks d)"
    and eq2: "note_shares d' = tbl_del_where (\<lambda>k _. (\<exists>r\<in>set (notes_tbl d). fst r = fst k \<and> n_owner_id (snd r) = u) \<or> snd k = u) (note_shares d)"
      "notebook_shares d' = tbl_del_where (\<lambda>k _. (\<exists>r\<in>set (notebooks d). fst r = fst k \<and> nb_user_id (snd r) = u) \<or> snd k = u) (notebook_shares d)"
      "tags d' = tbl_del_where (\<lambda>_ r. t_user_id r = u) (tags d)"
      "note_tags d' = tbl_del_where (\<lambda>k _. fst k = u) (note_tags d)"
      "resources d' = tbl_del_where (\<lambda>_ r. r_user_id r = u) (resources d)"
      "changes d' = tbl_del_where (\<lambda>_ r. c_user_id r = u) (changes d)"
      "email_tokens d' = tbl_del_where (\<lambda>_ r. et_user_id r = u) (email_tokens d)"
    using assms(1) unfolding delete_user_on_def Let_def by (simp_all split: if_splits) auto
  note keep = tbl_get_del_where row_of_key [OF ok, where P = "\<lambda>n. n_owner_id n = u"]
  show "erased u d d'"
    using assms(2) jobs unfolding erased_def eq eq2 keyed_tables_def
    by (auto simp: keep split: option.splits if_splits)
      (auto dest!: bspec [OF _ tbl_get_Some_in [of "notes_tbl d"]])
  show "others_kept u d d'"
    using assms(2) unfolding others_kept_def eq keyed_tables_def
    by (auto simp: keep split: option.splits if_splits)
qed

subsection \<open>Properties\<close>

text \<open>
  C5: a login succeeds only for an account whose password was verified, that is not locked
  and, where the server asks for it, has a verified address; the password was still the same
  when the device was created. The only other effect is the new device, and the token of the
  answer authenticates as that user and that device until it expires.
\<close>

theorem login_sound:
  assumes "login env app w body d = (Inr (token, dev), d')" and "jwt_ok (ae_lib env)"
  shows "\<exists>u device. \<exists>k<3.
    let email = normalize_email app (lb_email body);
        d0 = seen w k (if lockout_enabled app then clear_login_failures email d else d) in
    get_user_by_email_on email d = Some u
    \<and> verify_password (ae_lib env) (lb_password body) (u_password_hash u) = Inr True
    \<and> \<not> (lockout_enabled app \<and> login_locked (ae_now env) email d)
    \<and> (email_verification_required (app_config app) \<longrightarrow> u_email_verified_at u \<noteq> None)
    \<and> map_option u_password_hash (tbl_get (users d0) (u_id u)) = Some (u_password_hash u)
    \<and> d' = d0\<lparr>user_devices := tbl_put dev device (user_devices d0)\<rparr>
    \<and> (\<forall>t. unix_secs t \<le> int (token_exp (ae_now env) (token_ttl_days (app_config app))) \<longrightarrow>
         auth_mw (ae_lib env) app t (Some (''Bearer '' @ token)) d' =
           Inr \<lparr>au_user_id = u_id u, au_device_id = dev, au_email = u_email u\<rparr>)"
proof -
  from assms(1) obtain u k device where
    r: "get_user_by_email_on (normalize_email app (lb_email body)) d = Some u"
      "verify_password (ae_lib env) (lb_password body) (u_password_hash u) = Inr True"
      "\<not> (lockout_enabled app \<and> login_locked (ae_now env) (normalize_email app (lb_email body)) d)"
      "email_verification_required (app_config app) \<longrightarrow> u_email_verified_at u \<noteq> None"
      "k < 3" "d_id device = dev"
    and tx: "login_tx env (u_id u) (u_password_hash u) (lb_device_name body)
       (seen w k (if lockout_enabled app then clear_login_failures (normalize_email app (lb_email body)) d else d))
       = Inr (device, d')"
    and tok: "create_token (ae_lib env) (ae_now env) (u_id u) dev (u_email u) (jwt_secret (app_config app))
       (token_ttl_days (app_config app)) = Inr token"
    by (rule login_Inr)
  note t = login_tx_Inr [OF tx, unfolded r(6)]
  have "auth_mw (ae_lib env) app t (Some (''Bearer '' @ token)) d' =
      Inr \<lparr>au_user_id = u_id u, au_device_id = dev, au_email = u_email u\<rparr>"
    if "unix_secs t \<le> int (token_exp (ae_now env) (token_ttl_days (app_config app)))" for t
    unfolding auth_mw_Inr bearer_token_made [OF assms(2) tok]
    using verify_created [OF assms(2) tok that] t(2) by (simp add: t(3))
  with r t(1,3) show ?thesis unfolding Let_def by (intro exI [of _ u] exI [of _ device] exI [of _ k]) auto
qed

text \<open>
  C16: guessing is bounded. From a clean slate, as many wrong passwords in a row as the server
  allows, each within the lockout window of the one before, lock the address: every login for
  it, with whatever password, is refused until the window after the last failure has passed.
\<close>

theorem lockout_blocks:
  assumes "lockout_enabled app" and "tbl_get (login_attempts d) email = None"
    and "int (length es) = login_max_failures (app_config app)"
    and "\<forall>e\<in>set es. normalize_email app (lb_email (snd e)) = email \<and> bad_credentials (fst e) app (snd e) d"
    and "successively (follows app) es"
    and "normalize_email app (lb_email body) = email"
    and "ae_now env < ae_now (fst (last es)) + seconds (login_lockout_secs (app_config app))"
  shows "login env app w' body (run_logins app w es d) = (Inl TooManyAttempts, run_logins app w es d)"
proof -
  have "es \<noteq> []" using assms(1,3) by (auto simp: lockout_enabled_def)
  from failures_counted [OF assms(1,2) this _ assms(4,5), of w] assms(3)
  have "login_locked (ae_now env) email (run_logins app w es d)"
    using assms(7) by (simp add: login_locked_def)
  with assms(1,6) show ?thesis by (simp add: login_def Let_def)
qed

text \<open>
  C12: a password reset. It needs a live reset token; it sets the password of the token's user
  and of nobody else, every session of that user is over while the sessions of all others go
  on, and the token can never be used again.
\<close>

theorem reset_confirm_effect:
  assumes "reset_confirm env token pw d = (Inr r, d')" and "argon_ok (ae_lib env)" and "tbl_ok (user_devices d)"
  shows "\<exists>u. (\<exists>t \<in> snd ` set (email_tokens d). et_user_id t = u \<and> et_token_hash t = ae_token_hash env token
        \<and> et_kind t = ''password_reset'' \<and> live_token (ae_now env) t)
    \<and> (\<forall>lib app now header au. auth_mw lib app now header d' = Inr au \<longleftrightarrow>
        auth_mw lib app now header d = Inr au \<and> au_user_id au \<noteq> u)
    \<and> (\<forall>usr. tbl_get (users d') u = Some usr \<longrightarrow> verify_password (ae_lib env) pw (u_password_hash usr) = Inr True)
    \<and> (\<forall>v. v \<noteq> u \<longrightarrow> tbl_get (users d') v = tbl_get (users d) v)
    \<and> (\<forall>env' pw'. ae_token_hash env' = ae_token_hash env \<and> ae_now env \<le> ae_now env' \<longrightarrow>
        (\<exists>e. fst (reset_confirm env' token pw' d') = Inl (BadRequest e)))"
proof -
  from assms(1) obtain u h d1 where
    c: "consume_email_token (ae_token_hash env) (ae_now env) PasswordReset token d = (Some u, d1)"
    and h: "hash_password (ae_lib env) (ae_salt env) pw = Inr h"
    and d': "users d' = tbl_upd u (\<lambda>x. x\<lparr>u_password_hash := h\<rparr>) (users d1)"
      "user_devices d' = user_devices (snd (delete_all_device_rows u d1))" "email_tokens d' = email_tokens d1"
    by (rule reset_confirm_Inr)
  have same: "users d1 = users d" "user_devices d1 = user_devices d"
    using arg_cong [OF consume_Some(2) [OF c], of users] arg_cong [OF consume_Some(2) [OF c], of user_devices]
    by simp_all
  have dev: "user_devices d' = user_devices (snd (delete_all_device_rows u d))"
    using d'(2) same(2) by (simp add: delete_all_device_rows_def drop_devices_def)
  have "argon_hash (ae_lib env) (ae_salt env) pw = Inr h" using h by (simp add: hash_password_def split: sum.splits)
  then have pw: "verify_password (ae_lib env) pw h = Inr True"
    using assms(2) unfolding argon_ok_def verify_password_def by auto
  have "\<exists>e. fst (reset_confirm env' token pw' d') = Inl (BadRequest e)"
    if "ae_token_hash env' = ae_token_hash env" "ae_now env \<le> ae_now env'" for env' pw'
    using consume_twice [OF _ d'(3) that(2), of "ae_token_hash env" PasswordReset token d] c that(1)
    by (cases "consume_email_token (ae_token_hash env) (ae_now env') PasswordReset token d'")
      (simp add: reset_confirm_def)
  with consume_Some(1) [OF c] auth_mw_devices_dropped [OF assms(3) dev] pw d'(1) same(1)
  show ?thesis by (intro exI [of _ u]) auto
qed


subsection \<open>Closed instances\<close>

text \<open>Libraries with one password scheme and one token, for the claims of one login.\<close>

definition plain_claims :: claims where
  "plain_claims = \<lparr>cl_sub = 1, cl_device_id = 7, cl_email = ''a@b.cd'', cl_exp = token_exp 0 365\<rparr>"

definition plain_auth :: auth_lib where
  "plain_auth = \<lparr>
     jwt_encode = (\<lambda>secret c. if c = plain_claims \<and> secret = jwt_secret demo_config then Inr ''t'' else Inl ''no''),
     jwt_decode = (\<lambda>now secret token. if token = ''t'' \<and> secret = jwt_secret demo_config
        \<and> now \<le> int (cl_exp plain_claims) then Some plain_claims else None),
     argon_hash = (\<lambda>salt pw. Inr pw), argon_parse = (\<lambda>_. None), argon_verify = (\<lambda>pw h. pw = h)\<rparr>"

lemma plain_auth_ok: "jwt_ok plain_auth" "argon_ok plain_auth"
  by (auto simp: jwt_ok_def argon_ok_def plain_auth_def visible_ascii_def)

definition plain_env :: "timestamp \<Rightarrow> acc_env" where
  "plain_env t = \<lparr>ae_lib = plain_auth,
     ae_mail = \<lparr>me_post = (\<lambda>_. Inr 200), me_status_str = show_nat, me_time_str = (\<lambda>_. []), me_uuid_str = show_nat\<rparr>,
     ae_now = t, ae_salt = [], ae_fresh = 7, ae_token = ''m'', ae_token_id = 5, ae_token_hash = (\<lambda>x. x)\<rparr>"

definition acc_user :: user where
  "acc_user = \<lparr>u_id = 1, u_email = ''a@b.cd'', u_password_hash = ''password'', u_display_name = ''a'',
     u_created_at = 0, u_email_verified_at = None\<rparr>"

definition acc_db :: db where
  "acc_db = empty_db\<lparr>users := [(1, acc_user)],
     email_tokens := [(5, \<lparr>et_user_id = 1, et_kind = ''password_reset'', et_token_hash = ''m'',
       et_expires_at = 100, et_used_at = None\<rparr>)]\<rparr>"

definition acc_login :: "string \<Rightarrow> login_body" where
  "acc_login pw = \<lparr>lb_email = ''a@b.cd'', lb_password = pw, lb_device_name = ''laptop''\<rparr>"

lemma acc_email [simp]: "normalize_email demo_app (lb_email (acc_login pw)) = ''a@b.cd''"
proof -
  have "trim ''a@b.cd'' = ''a@b.cd''" by (rule trim_graph) (simp_all add: is_graph_def)
  then show ?thesis by (simp add: normalize_email_def acc_login_def ascii_lower_def)
qed

lemma acc_db_eval:
  "get_user_by_email_on ''a@b.cd'' acc_db = Some acc_user" "tbl_get (login_attempts acc_db) ''a@b.cd'' = None"
  "lockout_enabled demo_app"
  by (simp_all add: get_user_by_email_on_def acc_db_def acc_user_def empty_db_def lockout_enabled_def demo_config_def)

lemma quiet_serializable:
  "operation d = Inr (v, d') \<Longrightarrow> serializable quiet operation d = (Inr v, d')"
  "operation d = Inl e \<Longrightarrow> \<not> is_serialization_failure e \<Longrightarrow> serializable quiet operation d = (Inl e, d)"
  by (simp_all add: serializable_def serializable_from.simps [of _ 0] quiet_def Let_def)

lemma acc_login_run: "\<exists>d'. login (plain_env 0) demo_app quiet (acc_login ''password'') acc_db = (Inr (''t'', 7), d')"
proof -
  have "login_tx (plain_env 0) (u_id acc_user) (u_password_hash acc_user) ''laptop'' (clear_login_failures ''a@b.cd'' acc_db)
      = Inr (\<lparr>d_id = 7, d_user_id = 1, d_device_name = ''laptop'', d_created_at = 0, d_last_seen_at = None\<rparr>,
          (clear_login_failures ''a@b.cd'' acc_db)\<lparr>user_devices := [(7, \<lparr>d_id = 7, d_user_id = 1,
            d_device_name = ''laptop'', d_created_at = 0, d_last_seen_at = None\<rparr>)]\<rparr>)"
    by (simp add: login_tx_def get_user_by_id_on_def create_device_on_def acc_db_def acc_user_def empty_db_def
        clear_login_failures_def plain_env_def tbl_get_def tbl_put_def Let_def)
  note run = quiet_serializable(1) [of "login_tx (plain_env 0) (u_id acc_user) (u_password_hash acc_user) ''laptop''", OF this]
  have "login_locked 0 ''a@b.cd'' acc_db = False" by (simp add: login_locked_def acc_db_eval)
  then show ?thesis
    using run unfolding login_def
    by (simp add: acc_db_eval login_device_def verify_password_def create_token_def acc_user_def acc_login_def
        acc_email [unfolded acc_login_def, simplified] plain_env_def plain_auth_def plain_claims_def demo_config_def Let_def)
qed

theorem login_sound_witness:
  "\<exists>d'. login (plain_env 0) demo_app quiet (acc_login ''password'') acc_db = (Inr (''t'', 7), d') \<and>
     (\<exists>em. auth_mw plain_auth demo_app 0 (Some ''Bearer t'') d' = Inr \<lparr>au_user_id = 1, au_device_id = 7, au_email = em\<rparr>)"
proof -
  from acc_login_run obtain d' where
    run: "login (plain_env 0) demo_app quiet (acc_login ''password'') acc_db = (Inr (''t'', 7), d')" ..
  have lib: "ae_lib (plain_env 0) = plain_auth" "ae_now (plain_env 0) = 0" by (simp_all add: plain_env_def)
  have "unix_secs 0 \<le> int (token_exp 0 (token_ttl_days (app_config demo_app)))"
    by (rule token_exp_pos) (simp_all add: demo_config_def unix_secs_def)
  with login_sound [OF run] plain_auth_ok(1) lib obtain u where
    "get_user_by_email_on ''a@b.cd'' acc_db = Some u"
    "auth_mw plain_auth demo_app 0 (Some (''Bearer '' @ ''t'')) d' = Inr \<lparr>au_user_id = u_id u, au_device_id = 7, au_email = u_email u\<rparr>"
    unfolding Let_def by auto
  with run show ?thesis by (auto simp: acc_db_eval acc_user_def)
qed

definition acc_guesses :: "(acc_env \<times> login_body) list" where
  "acc_guesses = map (\<lambda>t. (plain_env (int t), acc_login ''wrong'')) [0..<10]"

theorem lockout_blocks_witness:
  "login (plain_env 1000) demo_app quiet (acc_login ''password'') (run_logins demo_app quiet acc_guesses acc_db)
     = (Inl TooManyAttempts, run_logins demo_app quiet acc_guesses acc_db)"
proof (rule lockout_blocks)
  show "lockout_enabled demo_app" "tbl_get (login_attempts acc_db) ''a@b.cd'' = None" by (simp_all add: acc_db_eval)
  show "int (length acc_guesses) = login_max_failures (app_config demo_app)"
    by (simp add: acc_guesses_def demo_config_def)
  show "\<forall>e\<in>set acc_guesses. normalize_email demo_app (lb_email (snd e)) = ''a@b.cd''
      \<and> bad_credentials (fst e) demo_app (snd e) acc_db"
    by (auto simp: acc_guesses_def bad_credentials_def acc_db_eval verify_password_def plain_env_def plain_auth_def
        acc_user_def) (simp add: acc_login_def)
  show "successively (follows demo_app) acc_guesses"
    by (simp add: acc_guesses_def follows_def plain_env_def demo_config_def upt_rec)
  show "ae_now (plain_env 1000) < ae_now (fst (last acc_guesses)) + seconds (login_lockout_secs (app_config demo_app))"
    by (simp add: acc_guesses_def plain_env_def demo_config_def upt_rec)
qed simp

theorem reset_confirm_effect_witness:
  "\<exists>r d'. reset_confirm (plain_env 0) ''m'' ''newpassword'' acc_db = (Inr r, d') \<and>
     (\<exists>e. fst (reset_confirm (plain_env 1) ''m'' ''other password'' d') = Inl (BadRequest e))"
proof -
  have "\<exists>r d'. reset_confirm (plain_env 0) ''m'' ''newpassword'' acc_db = (Inr r, d')"
    by (simp add: reset_confirm_def consume_email_token_def live_token_def acc_db_def plain_env_def plain_auth_def
        hash_password_def Let_def)
  then obtain r d' where run: "reset_confirm (plain_env 0) ''m'' ''newpassword'' acc_db = (Inr r, d')" by blast
  have "argon_ok (ae_lib (plain_env 0))" "tbl_ok (user_devices acc_db)"
    using plain_auth_ok by (simp_all add: plain_env_def acc_db_def empty_db_def)
  moreover have "ae_token_hash (plain_env 1) = ae_token_hash (plain_env 0) \<and> ae_now (plain_env 0) \<le> ae_now (plain_env 1)"
    by (simp add: plain_env_def)
  ultimately show ?thesis using reset_confirm_effect [OF run] run by blast
qed

definition acc_caller :: authed_user where
  "acc_caller = \<lparr>au_user_id = 1, au_device_id = 7, au_email = ''a@b.cd''\<rparr>"

lemma acc_delete_run: "\<exists>r d'. delete_account (plain_env 0) quiet acc_caller ''password'' acc_db = (Inr r, d')"
proof -
  have "\<exists>d'. delete_account_tx 1 ''password'' acc_db = Inr (True, d')"
    by (simp add: delete_account_tx_def get_user_by_id_on_def acc_db_def acc_user_def tbl_get_def delete_user_on_def
        empty_db_def Let_def)
  then obtain d' where "delete_account_tx 1 ''password'' acc_db = Inr (True, d')" ..
  from quiet_serializable(1) [of "delete_account_tx 1 ''password''", OF this] show ?thesis
    by (simp add: delete_account_def get_user_by_id_on_def acc_db_def acc_user_def acc_caller_def tbl_get_def
        verify_password_def plain_env_def plain_auth_def)
qed

lemma acc_seen: "seen quiet k d = d"
proof -
  have "seen_from k n quiet d = d" for n by (induction k arbitrary: n) (simp_all add: quiet_def)
  then show ?thesis by (simp add: seen_def)
qed


definition stuck_db :: db where
  "stuck_db = acc_db\<lparr>changes := [(1, \<lparr>c_seq = 1, c_user_id = 1, c_origin_device_id = 7, c_batch_id = 100,
       c_batch_index = 0, c_sync_device_id = [], c_payload = JNull, c_received_at = 0\<rparr>)], changes_next := 2,
     projection_jobs := [((1, 100, 0), (new_job 0)\<lparr>j_state := DeadLetter, j_attempts := 1\<rparr>)]\<rparr>"

text \<open>
  An account with a projection job cannot be deleted: the job restricts the deletion of its
  change, and the handler answers with an internal error. A dead-lettered job stays until it is
  reconciled, so one change with an invalid payload keeps the account from being deleted.
\<close>

theorem delete_account_blocked_by_job:
  "delete_account (plain_env 0) quiet acc_caller ''password'' stuck_db = (Inl foreign_key_violation, stuck_db)
   \<and> status foreign_key_violation = 500"
proof -
  have "delete_account_tx 1 ''password'' stuck_db = Inl foreign_key_violation"
    by (simp add: delete_account_tx_def get_user_by_id_on_def stuck_db_def acc_db_def acc_user_def tbl_get_def
        delete_user_on_def)
  from quiet_serializable(2) [of "delete_account_tx 1 ''password''", OF this] show ?thesis
    by (simp add: delete_account_def get_user_by_id_on_def stuck_db_def acc_db_def acc_user_def acc_caller_def tbl_get_def
        verify_password_def plain_env_def plain_auth_def is_serialization_failure_def)
qed

end
