(* ===== verification/Rate_Limit.thy ===== *)
theory Rate_Limit
  imports Complex_Main App_State
begin

text \<open>
  \<open>ratelimit.rs\<close>: one token bucket per client address. The code computes with \<open>f64\<close>: here the
  values are rationals and every inexact operation goes through a rounding function \<open>rnd\<close>, a
  parameter of which \<open>float_ok\<close> says what IEEE arithmetic guarantees (relative error \<open>u\<close>,
  absolute error \<open>e\<close> near zero). Taking one token from a bucket that has at least one is exact
  in binary floating point. An \<open>Instant\<close> is a number of nanoseconds.
\<close>

type_synonym instant = int
type_synonym ip_addr = nat

record bucket =
  tokens :: rat
  last_refill :: instant

record rate_limiter =
  capacity :: rat
  refill_per_sec :: rat
  buckets :: "(ip_addr, bucket) table"
  last_sweep :: instant

definition SWEEP_INTERVAL :: int where
  "SWEEP_INTERVAL = 60 * 10 ^ 9"

definition new_limiter :: "(rat \<Rightarrow> rat) \<Rightarrow> instant \<Rightarrow> 32 word \<Rightarrow> rate_limiter" where
  "new_limiter rnd now per_min = \<lparr>capacity = of_nat (unat per_min),
     refill_per_sec = rnd (of_nat (unat per_min) / 60), buckets = [], last_sweep = now\<rparr>"

definition limiter_enabled :: "rate_limiter \<Rightarrow> bool" where
  "limiter_enabled rl \<longleftrightarrow> capacity rl > 0"

definition saturating_duration_since :: "instant \<Rightarrow> instant \<Rightarrow> int" where
  "saturating_duration_since now earlier = max 0 (now - earlier)"

text \<open>\<open>Duration::as_secs_f64\<close>: the seconds plus the nanoseconds divided by \<open>10^9\<close>.\<close>

definition as_secs_f64 :: "(rat \<Rightarrow> rat) \<Rightarrow> int \<Rightarrow> rat" where
  "as_secs_f64 rnd dur = rnd (of_int (dur div 10 ^ 9) + rnd (of_int (dur mod 10 ^ 9) / 10 ^ 9))"

definition refilled :: "(rat \<Rightarrow> rat) \<Rightarrow> rat \<Rightarrow> bucket \<Rightarrow> instant \<Rightarrow> rat" where
  "refilled rnd rate b now =
     rnd (tokens b + rnd (as_secs_f64 rnd (saturating_duration_since now (last_refill b)) * rate))"

definition projected_tokens :: "(rat \<Rightarrow> rat) \<Rightarrow> rate_limiter \<Rightarrow> bucket \<Rightarrow> instant \<Rightarrow> rat" where
  "projected_tokens rnd rl b now = min (refilled rnd (refill_per_sec rl) b now) (capacity rl)"

definition entry_bucket :: "rate_limiter \<Rightarrow> ip_addr \<Rightarrow> instant \<Rightarrow> bucket" where
  "entry_bucket rl ip now =
     (case tbl_get (buckets rl) ip of
        Some b \<Rightarrow> b
      | None \<Rightarrow> \<lparr>tokens = capacity rl, last_refill = now\<rparr>)"

definition sweep :: "(rat \<Rightarrow> rat) \<Rightarrow> instant \<Rightarrow> rate_limiter \<Rightarrow> rate_limiter" where
  "sweep rnd now rl =
     (if saturating_duration_since now (last_sweep rl) \<ge> SWEEP_INTERVAL
      then rl\<lparr>buckets := tbl_del_where (\<lambda>_ b. \<not> refilled rnd (refill_per_sec rl) b now < capacity rl) (buckets rl),
              last_sweep := now\<rparr>
      else rl)"

definition check :: "(rat \<Rightarrow> rat) \<Rightarrow> ip_addr \<Rightarrow> instant \<Rightarrow> rate_limiter \<Rightarrow> bool \<times> rate_limiter" where
  "check rnd ip now rl =
     (if \<not> limiter_enabled rl then (True, rl)
      else
        let t = projected_tokens rnd rl (entry_bucket rl ip now) now;
            allowed = (t \<ge> 1);
            b = \<lparr>tokens = (if allowed then t - 1 else t), last_refill = now\<rparr>
        in (allowed, sweep rnd now (rl\<lparr>buckets := tbl_put ip b (buckets rl)\<rparr>)))"

text \<open>The middleware: the request goes on, or the answer is \<open>429\<close>.\<close>

datatype 'r mw_answer = Next 'r | Refused nat json

definition rate_limit_mw ::
    "(rat \<Rightarrow> rat) \<Rightarrow> ip_addr \<Rightarrow> instant \<Rightarrow> (unit \<Rightarrow> 'r) \<Rightarrow> rate_limiter \<Rightarrow> 'r mw_answer \<times> rate_limiter" where
  "rate_limit_mw rnd ip now next_run rl =
     (case check rnd ip now rl of
        (True, rl') \<Rightarrow> (Next (next_run ()), rl')
      | (False, rl') \<Rightarrow> (Refused 429 (JObj [(''error'', JStr ''rate limit exceeded'')]), rl'))"

subsection \<open>Rounding\<close>

definition float_ok :: "(rat \<Rightarrow> rat) \<Rightarrow> rat \<Rightarrow> rat \<Rightarrow> bool" where
  "float_ok rnd u e \<longleftrightarrow> 0 \<le> u \<and> u \<le> 1 \<and> 0 \<le> e \<and> e \<le> 1 \<and>
     (\<forall>x. 0 \<le> x \<and> x \<le> 2 ^ 1000 \<longrightarrow> 0 \<le> rnd x \<and> rnd x \<le> x * (1 + u) + e)"

lemma float_okD:
  assumes "float_ok rnd u e" and "0 \<le> x" and "x \<le> 2 ^ 1000"
  shows "0 \<le> rnd x" and "rnd x \<le> x * (1 + u) + e"
  using assms by (auto simp: float_ok_def)

text \<open>The tokens an elapsed time is worth, and what rounding may add to them in one step.\<close>

definition secs :: "int \<Rightarrow> rat" where
  "secs dur = of_int dur / 10 ^ 9"

definition slack :: "rat \<Rightarrow> rat \<Rightarrow> rat \<Rightarrow> rat \<Rightarrow> rat" where
  "slack u e cap rate = u * cap + rate * (e * (1 + u) + e) * (1 + u) ^ 2 + e * (1 + u) + e"

definition drift :: "rat \<Rightarrow> rat \<Rightarrow> rat" where
  "drift u rate = rate * (1 + u) ^ 4"

lemma pow_le: "(x :: rat) \<le> 2 ^ m \<Longrightarrow> m \<le> n \<Longrightarrow> x \<le> 2 ^ n"
  by (meson one_le_numeral order_trans power_increasing)

lemma as_secs_bounds:
  assumes "float_ok rnd u e" and "0 \<le> dur" and "dur \<le> 2 ^ 100"
  shows "0 \<le> as_secs_f64 rnd dur" and "as_secs_f64 rnd dur \<le> secs dur * (1 + u) ^ 2 + (e * (1 + u) + e)"
    and "as_secs_f64 rnd dur \<le> 2 ^ 104"
proof -
  define s f where "s = (of_int (dur div 10 ^ 9) :: rat)" and "f = (of_int (dur mod 10 ^ 9) / 10 ^ 9 :: rat)"
  have u: "0 \<le> u" "u \<le> 1" "0 \<le> e" "e \<le> 1" using assms(1) by (auto simp: float_ok_def)
  have s0: "0 \<le> s" using assms(2) by (simp add: s_def pos_imp_zdiv_nonneg_iff)
  have f01: "0 \<le> f" "f \<le> 1"
    using pos_mod_bound [of "10 ^ 9" dur] by (simp_all add: f_def divide_simps)
  have "(of_int dur :: rat) = of_int (dur div 10 ^ 9 * 10 ^ 9 + dur mod 10 ^ 9)"
    by (simp only: div_mult_mod_eq)
  also have "\<dots> = s * 10 ^ 9 + f * 10 ^ 9"
    by (simp only: of_int_add of_int_mult of_int_power of_int_numeral s_def f_def) simp
  finally have "(of_int dur :: rat) = s * 10 ^ 9 + f * 10 ^ 9" .
  then have sf: "secs dur = s + f" by (simp add: secs_def field_simps)
  have sec: "secs dur \<le> 2 ^ 100"
  proof -
    have "secs dur \<le> of_int dur" using assms(2) by (simp add: secs_def divide_simps)
    also have "\<dots> \<le> of_int (2 ^ 100)" using assms(3) by (simp only: of_int_le_iff)
    finally show ?thesis by simp
  qed
  have "f \<le> 2 ^ 1000" using f01(2) one_le_power [of "2 :: rat" 1000] by linarith
  note rf = float_okD [OF assms(1) f01(1) this]
  have rf3: "rnd f \<le> 3"
  proof -
    have "f * (1 + u) \<le> 1 * 2" using f01 u by (intro mult_mono) auto
    with rf(2) u(4) show ?thesis by linarith
  qed
  have s100: "s \<le> 2 ^ 100" using sf sec f01(1) by linarith
  have top: "s + rnd f \<le> 2 ^ 102" using s100 rf3 by simp
  note rsf = float_okD [OF assms(1), of "s + rnd f"]
  have r: "0 \<le> rnd (s + rnd f)" "rnd (s + rnd f) \<le> (s + rnd f) * (1 + u) + e"
    using rsf s0 rf(1) pow_le [OF top, of 1000] by simp_all
  then show "0 \<le> as_secs_f64 rnd dur" by (simp add: as_secs_f64_def s_def f_def)
  have "(s + f) * (1 + u) + e = s + (f * (1 + u) + e) + s * u" by (simp add: algebra_simps)
  with rf(2) mult_nonneg_nonneg [OF s0 u(1)] have "s + rnd f \<le> (s + f) * (1 + u) + e" by linarith
  then have "(s + rnd f) * (1 + u) \<le> ((s + f) * (1 + u) + e) * (1 + u)"
    using u(1) by (intro mult_right_mono) auto
  with r(2) have "rnd (s + rnd f) \<le> (s + f) * (1 + u) ^ 2 + (e * (1 + u) + e)"
    by (simp add: power2_eq_square algebra_simps)
  then show "as_secs_f64 rnd dur \<le> secs dur * (1 + u) ^ 2 + (e * (1 + u) + e)"
    by (simp add: as_secs_f64_def s_def f_def sf)
  have "(s + rnd f) * (1 + u) \<le> 2 ^ 102 * 2" using top u s0 rf(1) by (intro mult_mono) auto
  with r(2) u(4) show "as_secs_f64 rnd dur \<le> 2 ^ 104" by (simp add: as_secs_f64_def s_def f_def)
qed

lemma refilled_bounds:
  assumes "float_ok rnd u e" and "0 \<le> rate" and "rate \<le> 2 ^ 40" and "0 \<le> tokens b" and "tokens b \<le> cap"
    and "cap \<le> 2 ^ 40" and "last_refill b \<le> now" and "now - last_refill b \<le> 2 ^ 100"
  shows "0 \<le> refilled rnd rate b now"
    and "refilled rnd rate b now \<le> tokens b + drift u rate * secs (now - last_refill b) + slack u e cap rate"
proof -
  let ?d = "now - last_refill b" and ?v = "1 + u"
  have u: "0 \<le> u" "u \<le> 1" "0 \<le> e" "e \<le> 1" using assms(1) by (auto simp: float_ok_def)
  note el = as_secs_bounds [OF assms(1) _ assms(8), OF diff_ge_0_iff_ge [THEN iffD2, OF assms(7)]]
  define x where "x = as_secs_f64 rnd ?d * rate"
  have x0: "0 \<le> x" using el(1) assms(2) by (simp add: x_def)
  have "x \<le> 2 ^ 104 * 2 ^ 40" unfolding x_def using el(1,3) assms(2,3) by (intro mult_mono) auto
  then have xb: "x \<le> 2 ^ 144" by (simp add: power_add [symmetric])
  note p = float_okD [OF assms(1) x0 pow_le [OF xb]]
  have "x * ?v \<le> 2 ^ 144 * 2" using xb x0 u by (intro mult_mono) auto
  with p(2) u(4) have pb: "rnd x \<le> 2 ^ 146" by simp
  have tb: "tokens b \<le> 2 ^ 40" using assms(5,6) by linarith
  define y where "y = tokens b + rnd x"
  have y: "0 \<le> y" "y \<le> 2 ^ 148" using assms(4) p(1) tb pb unfolding y_def by simp_all
  note q = float_okD [OF assms(1) y(1) pow_le [OF y(2)]]
  have r: "refilled rnd rate b now = rnd y"
    using assms(7) by (simp add: refilled_def y_def x_def saturating_duration_since_def)
  show "0 \<le> refilled rnd rate b now" unfolding r using q(1) by simp
  have "x \<le> (secs ?d * ?v ^ 2 + (e * ?v + e)) * rate"
    unfolding x_def using el(2) assms(2) by (rule mult_right_mono)
  then have "x * ?v ^ 2 \<le> (secs ?d * ?v ^ 2 + (e * ?v + e)) * rate * ?v ^ 2"
    by (rule mult_right_mono) simp
  also have "\<dots> = drift u rate * secs ?d + rate * (e * ?v + e) * ?v ^ 2"
    by (simp add: drift_def power2_eq_square power4_eq_xxxx algebra_simps)
  finally have x2: "x * ?v ^ 2 \<le> drift u rate * secs ?d + rate * (e * ?v + e) * ?v ^ 2" .
  have "rnd x * ?v \<le> (x * ?v + e) * ?v" using p(2) u(1) by (intro mult_right_mono) simp_all
  then have "rnd x * ?v \<le> x * ?v ^ 2 + e * ?v" by (simp add: power2_eq_square algebra_simps)
  moreover have "tokens b * u \<le> u * cap" using mult_right_mono [OF assms(5) u(1)] by (simp add: mult.commute)
  moreover have "rnd y \<le> tokens b + tokens b * u + rnd x * ?v + e"
    using q(2) by (simp add: y_def algebra_simps)
  ultimately show "refilled rnd rate b now \<le> tokens b + drift u rate * secs ?d + slack u e cap rate"
    unfolding r slack_def using x2 by linarith
qed

subsection \<open>The budget of a client\<close>

definition limiter_ok :: "rate_limiter \<Rightarrow> bool" where
  "limiter_ok rl \<longleftrightarrow> 0 < capacity rl \<and> capacity rl \<le> 2 ^ 40 \<and> 0 \<le> refill_per_sec rl \<and> refill_per_sec rl \<le> 2 ^ 40 \<and>
     tbl_ok (buckets rl) \<and>
     (\<forall>ip b. tbl_get (buckets rl) ip = Some b \<longrightarrow> 0 \<le> tokens b \<and> tokens b \<le> capacity rl \<and> 0 \<le> last_refill b)"

text \<open>
  What \<open>ip\<close> has been granted since \<open>t1\<close> and still has in its bucket never exceeds the capacity
  plus what the elapsed time is worth, up to the rounding of \<open>m\<close> steps.
\<close>

definition budget_ok :: "rat \<Rightarrow> rat \<Rightarrow> ip_addr \<Rightarrow> instant \<Rightarrow> instant \<Rightarrow> rat \<Rightarrow> rat \<Rightarrow> rate_limiter \<Rightarrow> bool" where
  "budget_ok r c ip t1 now acc m rl =
     (case tbl_get (buckets rl) ip of
        Some b \<Rightarrow> last_refill b \<le> now \<and>
          (acc = 0 \<or> acc + tokens b \<le> capacity rl + r * secs (last_refill b - t1) + m * c)
      | None \<Rightarrow> acc \<le> r * secs (now - t1) + m * c)"

lemma secs_add: "secs (x + y) = secs x + secs y"
  by (simp add: secs_def add_divide_distrib)

lemma secs_mono: "x \<le> y \<Longrightarrow> secs x \<le> secs y"
  by (simp add: secs_def divide_right_mono)

lemma grow_split: "r * secs (now - t1) = r * secs (now - l) + r * secs (l - t1)"
  using secs_add [of "now - l" "l - t1"] by (simp add: algebra_simps)

lemma grow_mono: "0 \<le> r \<Longrightarrow> x \<le> y \<Longrightarrow> r * secs x \<le> r * secs y"
  by (simp add: secs_mono mult_left_mono)

lemma grow_nonneg: "0 \<le> r \<Longrightarrow> 0 \<le> x \<Longrightarrow> 0 \<le> r * secs x"
  by (simp add: secs_def)

text \<open>The range of the clock: instants are below \<open>2^100\<close> nanoseconds.\<close>

lemma limiter_refill:
  assumes "float_ok rnd u e" and "limiter_ok rl" and "tbl_get (buckets rl) ip = Some b"
    and "last_refill b \<le> now" and "now \<le> 2 ^ 100"
  shows "0 \<le> refilled rnd (refill_per_sec rl) b now"
    and "refilled rnd (refill_per_sec rl) b now \<le> tokens b + drift u (refill_per_sec rl) * secs (now - last_refill b)
      + slack u e (capacity rl) (refill_per_sec rl)"
proof -
  have "0 \<le> refill_per_sec rl" "refill_per_sec rl \<le> 2 ^ 40" "0 \<le> tokens b" "tokens b \<le> capacity rl"
    "capacity rl \<le> 2 ^ 40" and "0 \<le> last_refill b"
    using assms(2,3) unfolding limiter_ok_def by blast+
  moreover from this(6) assms(5) have "now - last_refill b \<le> 2 ^ 100" by linarith
  ultimately show "0 \<le> refilled rnd (refill_per_sec rl) b now"
    "refilled rnd (refill_per_sec rl) b now \<le> tokens b + drift u (refill_per_sec rl) * secs (now - last_refill b)
      + slack u e (capacity rl) (refill_per_sec rl)"
    using assms(4) refilled_bounds [OF assms(1)] by blast+
qed

definition put_bucket :: "(rat \<Rightarrow> rat) \<Rightarrow> ip_addr \<Rightarrow> instant \<Rightarrow> rate_limiter \<Rightarrow> bool \<times> rate_limiter" where
  "put_bucket rnd ip now rl =
     (let t = projected_tokens rnd rl (entry_bucket rl ip now) now
      in (t \<ge> 1, rl\<lparr>buckets := tbl_put ip \<lparr>tokens = (if t \<ge> 1 then t - 1 else t), last_refill = now\<rparr> (buckets rl)\<rparr>))"

lemma check_eq:
  "limiter_ok rl \<Longrightarrow> check rnd ip now rl =
     (fst (put_bucket rnd ip now rl), sweep rnd now (snd (put_bucket rnd ip now rl)))"
  by (simp add: check_def put_bucket_def limiter_enabled_def limiter_ok_def Let_def)

lemma entry_refill:
  assumes "float_ok rnd u e" and "limiter_ok rl" and "\<And>b. tbl_get (buckets rl) ip = Some b \<Longrightarrow> last_refill b \<le> now"
    and "0 \<le> now" and "now \<le> 2 ^ 100"
  shows "0 \<le> projected_tokens rnd rl (entry_bucket rl ip now) now"
    and "projected_tokens rnd rl (entry_bucket rl ip now) now \<le> capacity rl"
proof -
  have "0 \<le> refilled rnd (refill_per_sec rl) (entry_bucket rl ip now) now"
  proof (cases "tbl_get (buckets rl) ip")
    case None
    have "0 \<le> refilled rnd (refill_per_sec rl) \<lparr>tokens = capacity rl, last_refill = now\<rparr> now"
      using assms(1,2) by (intro refilled_bounds(1) [where cap = "capacity rl"]) (auto simp: limiter_ok_def)
    with None show ?thesis by (simp add: entry_bucket_def)
  next
    case (Some b)
    with limiter_refill(1) [OF assms(1,2) Some assms(3) [OF Some] assms(5)] show ?thesis
      by (simp add: entry_bucket_def)
  qed
  then show "0 \<le> projected_tokens rnd rl (entry_bucket rl ip now) now"
    using assms(2) by (simp add: projected_tokens_def limiter_ok_def)
  show "projected_tokens rnd rl (entry_bucket rl ip now) now \<le> capacity rl" by (simp add: projected_tokens_def)
qed

text \<open>Every bucket of the limiter was refilled in the past.\<close>

definition past :: "instant \<Rightarrow> rate_limiter \<Rightarrow> bool" where
  "past now rl \<longleftrightarrow> (\<forall>ip b. tbl_get (buckets rl) ip = Some b \<longrightarrow> last_refill b \<le> now)"

lemma pastD: "past now rl \<Longrightarrow> tbl_get (buckets rl) ip = Some b \<Longrightarrow> now \<le> now' \<Longrightarrow> last_refill b \<le> now'"
  by (fastforce simp: past_def)

lemma put_bucket_ok:
  assumes "float_ok rnd u e" and "limiter_ok rl" and "past now rl" and "0 \<le> now" and "now \<le> 2 ^ 100"
  shows "limiter_ok (snd (put_bucket rnd ip now rl))" and "past now (snd (put_bucket rnd ip now rl))"
    and "capacity (snd (put_bucket rnd ip now rl)) = capacity rl"
    and "refill_per_sec (snd (put_bucket rnd ip now rl)) = refill_per_sec rl"
proof -
  let ?t = "projected_tokens rnd rl (entry_bucket rl ip now) now"
  have t: "0 \<le> ?t" "?t \<le> capacity rl"
    using entry_refill [OF assms(1,2) _ assms(4,5), of ip] assms(3) by (auto simp: past_def)
  show "limiter_ok (snd (put_bucket rnd ip now rl))"
    using assms(2,4) t unfolding limiter_ok_def by (auto simp: put_bucket_def Let_def)
  show "past now (snd (put_bucket rnd ip now rl))"
    using assms(3) by (simp add: past_def put_bucket_def Let_def)
qed (simp_all add: put_bucket_def Let_def)

lemma sweep_ok:
  assumes "limiter_ok rl" and "past now rl"
  shows "limiter_ok (sweep rnd now' rl)" and "past now (sweep rnd now' rl)"
    and "capacity (sweep rnd now' rl) = capacity rl" and "refill_per_sec (sweep rnd now' rl) = refill_per_sec rl"
  using assms
  by (auto simp: sweep_def limiter_ok_def past_def tbl_get_del_where split: option.splits if_splits)

lemma slack_nonneg:
  assumes "float_ok rnd u e" and "limiter_ok rl"
  shows "0 \<le> slack u e (capacity rl) (refill_per_sec rl)" and "0 \<le> drift u (refill_per_sec rl)"
  using assms by (auto simp: slack_def drift_def float_ok_def limiter_ok_def)

lemma budget_put:
  assumes "float_ok rnd u e" and "limiter_ok rl" and "past now rl" and "0 \<le> t1" and "t1 \<le> now0" and "now0 \<le> now"
    and "now \<le> 2 ^ 100"
    and "budget_ok (drift u (refill_per_sec rl)) (slack u e (capacity rl) (refill_per_sec rl)) ip t1 now0 acc m rl"
    and "0 \<le> acc" and "0 \<le> m"
  shows "budget_ok (drift u (refill_per_sec rl)) (slack u e (capacity rl) (refill_per_sec rl)) ip t1 now
    (acc + (if ip' = ip \<and> fst (put_bucket rnd ip' now rl) then 1 else 0)) (m + 1) (snd (put_bucket rnd ip' now rl))"
proof -
  let ?r = "drift u (refill_per_sec rl)" and ?c = "slack u e (capacity rl) (refill_per_sec rl)"
  let ?t = "projected_tokens rnd rl (entry_bucket rl ip now) now"
  note nn = slack_nonneg [OF assms(1,2)]
  have g: "?r * secs (now0 - t1) \<le> ?r * secs (now - t1)" "0 \<le> ?r * secs (now - t1)"
    using nn(2) assms(5,6) by (auto intro: grow_mono grow_nonneg)
  have mc: "(m + 1) * ?c = m * ?c + ?c" "0 \<le> m * ?c" using assms(10) nn(1) by (simp_all add: algebra_simps)
  show ?thesis
  proof (cases "ip' = ip")
    case False
    with assms(8) mc g nn(1) assms(6) show ?thesis
      by (auto simp: budget_ok_def put_bucket_def Let_def split: option.splits)
  next
    case True
    have cap: "?t \<le> capacity rl" by (simp add: projected_tokens_def)
    have "acc + ?t \<le> capacity rl + ?r * secs (now - t1) + (m + 1) * ?c"
    proof (cases "tbl_get (buckets rl) ip")
      case None
      with assms(8) have "acc \<le> ?r * secs (now0 - t1) + m * ?c" by (simp add: budget_ok_def)
      with cap g mc nn(1) show ?thesis by linarith
    next
      case (Some b)
      have l: "last_refill b \<le> now" using assms(3) Some by (simp add: past_def)
      have "?t \<le> refilled rnd (refill_per_sec rl) b now" using Some by (simp add: projected_tokens_def entry_bucket_def)
      with limiter_refill(2) [OF assms(1,2) Some l assms(7)]
      have "?t \<le> tokens b + ?r * secs (now - last_refill b) + ?c" by linarith
      with assms(8) Some cap g(2) mc nn(1) grow_split [of ?r now t1 "last_refill b"] show ?thesis
        by (auto simp: budget_ok_def)
    qed
    with True show ?thesis by (auto simp: budget_ok_def put_bucket_def Let_def)
  qed
qed

lemma budget_sweep:
  assumes "float_ok rnd u e" and "limiter_ok rl" and "past now rl" and "0 \<le> t1" and "t1 \<le> now" and "now \<le> 2 ^ 100"
    and "budget_ok (drift u (refill_per_sec rl)) (slack u e (capacity rl) (refill_per_sec rl)) ip t1 now acc m rl"
    and "0 \<le> m"
  shows "budget_ok (drift u (refill_per_sec rl)) (slack u e (capacity rl) (refill_per_sec rl)) ip t1 now acc (m + 1)
    (sweep rnd now rl)"
proof -
  let ?r = "drift u (refill_per_sec rl)" and ?c = "slack u e (capacity rl) (refill_per_sec rl)"
  let ?gone = "tbl_del_where (\<lambda>_ b. \<not> refilled rnd (refill_per_sec rl) b now < capacity rl) (buckets rl)"
  note nn = slack_nonneg [OF assms(1,2)]
  have mc: "(m + 1) * ?c = m * ?c + ?c" "0 \<le> m * ?c" using assms(8) nn(1) by (simp_all add: algebra_simps)
  have g: "0 \<le> ?r * secs (now - t1)" using nn(2) assms(5) by (intro grow_nonneg) auto
  have keep: "budget_ok ?r ?c ip t1 now acc (m + 1) rl"
    using assms(7) mc nn(1) by (auto simp: budget_ok_def split: option.splits)
  have get: "tbl_get ?gone ip = (case tbl_get (buckets rl) ip of None \<Rightarrow> None
      | Some b \<Rightarrow> if refilled rnd (refill_per_sec rl) b now < capacity rl then Some b else None)"
    using assms(2) by (auto simp: limiter_ok_def tbl_get_del_where split: option.split)
  show ?thesis
  proof (cases "\<exists>b. tbl_get (buckets rl) ip = Some b \<and> \<not> refilled rnd (refill_per_sec rl) b now < capacity rl")
    case False
    then have "tbl_get ?gone ip = tbl_get (buckets rl) ip" using get by (auto split: option.splits)
    with keep show ?thesis by (auto simp: budget_ok_def sweep_def split: option.splits)
  next
    case True
    then obtain b where b: "tbl_get (buckets rl) ip = Some b" "capacity rl \<le> refilled rnd (refill_per_sec rl) b now"
      by auto
    have "last_refill b \<le> now" using assms(3) b(1) by (simp add: past_def)
    from limiter_refill(2) [OF assms(1,2) b(1) this assms(6)] b(2)
    have "capacity rl \<le> tokens b + ?r * secs (now - last_refill b) + ?c" by linarith
    with assms(7) b(1) mc nn(1) g grow_split [of ?r now t1 "last_refill b"]
    have "acc \<le> ?r * secs (now - t1) + (m + 1) * ?c" by (auto simp: budget_ok_def)
    moreover have "tbl_get ?gone ip = None" using get b by simp
    ultimately show ?thesis using keep by (simp add: budget_ok_def sweep_def)
  qed
qed

text \<open>How many of the requests of \<open>ip\<close> are let through, in a sequence of requests of all clients.\<close>

fun granted :: "(rat \<Rightarrow> rat) \<Rightarrow> ip_addr \<Rightarrow> (ip_addr \<times> instant) list \<Rightarrow> rate_limiter \<Rightarrow> nat" where
  "granted rnd ip [] rl = 0"
| "granted rnd ip ((ip', now) # rs) rl =
     (case check rnd ip' now rl of
        (allowed, rl') \<Rightarrow> (if ip' = ip \<and> allowed then 1 else 0) + granted rnd ip rs rl')"

lemma budget_check:
  assumes "float_ok rnd u e" and "limiter_ok rl" and "past now rl" and "0 \<le> t1" and "t1 \<le> now0" and "now0 \<le> now"
    and "now \<le> 2 ^ 100"
    and "budget_ok (drift u (refill_per_sec rl)) (slack u e (capacity rl) (refill_per_sec rl)) ip t1 now0 acc m rl"
    and "0 \<le> acc" and "0 \<le> m" and "check rnd ip' now rl = (allowed, rl')"
  shows "limiter_ok rl' \<and> past now rl' \<and> capacity rl' = capacity rl \<and> refill_per_sec rl' = refill_per_sec rl \<and>
    budget_ok (drift u (refill_per_sec rl)) (slack u e (capacity rl) (refill_per_sec rl)) ip t1 now
      (acc + (if ip' = ip \<and> allowed then 1 else 0)) (m + 2) rl'"
proof -
  have eq: "allowed = fst (put_bucket rnd ip' now rl)" "rl' = sweep rnd now (snd (put_bucket rnd ip' now rl))"
    using assms(11) check_eq [OF assms(2)] by simp_all
  have now: "0 \<le> now" "t1 \<le> now" using assms(4-6) by linarith+
  note p = put_bucket_ok [OF assms(1-3) now(1) assms(7), of ip']
  note b = budget_sweep [OF assms(1) p(1,2) assms(4) now(2) assms(7), unfolded p(3,4), OF budget_put [OF assms(1-10), of ip']]
  have "m + 1 + 1 = m + 2" by simp
  with sweep_ok [OF p(1,2), of rnd now] p(3,4) b assms(10) eq show ?thesis by simp
qed

lemma granted_budget:
  assumes "float_ok rnd u e" and "limiter_ok rl" and "past now0 rl" and "0 \<le> t1" and "t1 \<le> now0"
    and "sorted_wrt (\<le>) (now0 # map snd rs)" and "last (now0 # map snd rs) \<le> 2 ^ 100"
    and "budget_ok (drift u (refill_per_sec rl)) (slack u e (capacity rl) (refill_per_sec rl)) ip t1 now0 acc m rl"
    and "0 \<le> acc" and "0 \<le> m"
  shows "acc + of_nat (granted rnd ip rs rl) \<le> capacity rl
    + drift u (refill_per_sec rl) * secs (last (now0 # map snd rs) - t1)
    + (m + 2 * of_nat (length rs)) * slack u e (capacity rl) (refill_per_sec rl)"
  using assms(2,3,5-)
proof (induction rs arbitrary: rl now0 acc m)
  case Nil
  note nn = slack_nonneg [OF assms(1) Nil.prems(1)]
  have "0 \<le> m * slack u e (capacity rl) (refill_per_sec rl)" using nn(1) Nil.prems(8) by simp
  moreover have "0 \<le> drift u (refill_per_sec rl) * secs (now0 - t1)" using nn(2) Nil.prems(3) by (intro grow_nonneg) auto
  moreover have "0 < capacity rl" using Nil.prems(1) by (simp add: limiter_ok_def)
  moreover have "drift u (refill_per_sec rl) * secs (last_refill b - t1) \<le> drift u (refill_per_sec rl) * secs (now0 - t1)"
    "0 \<le> tokens b" if "tbl_get (buckets rl) ip = Some b" for b
    using that nn(2) Nil.prems(1,2) by (auto intro!: grow_mono simp: past_def limiter_ok_def)
  ultimately show ?case using Nil.prems(6) by (auto simp: budget_ok_def split: option.splits)
next
  case (Cons r rs)
  obtain ip' now where r: "r = (ip', now)" by (cases r)
  obtain allowed rl' where ch: "check rnd ip' now rl = (allowed, rl')" by (cases "check rnd ip' now rl")
  have le: "now0 \<le> now" "t1 \<le> now" using Cons.prems(3,4) r by auto
  have "past now rl" using Cons.prems(2) le(1) by (meson pastD past_def)
  moreover have "now \<le> 2 ^ 100"
  proof -
    have "now \<le> last (now # map snd rs)" using Cons.prems(4) r by (cases rs rule: rev_cases) auto
    with Cons.prems(5) r show ?thesis by simp
  qed
  ultimately have st: "limiter_ok rl'" "past now rl'" "capacity rl' = capacity rl" "refill_per_sec rl' = refill_per_sec rl"
    "budget_ok (drift u (refill_per_sec rl)) (slack u e (capacity rl) (refill_per_sec rl)) ip t1 now
      (acc + (if ip' = ip \<and> allowed then 1 else 0)) (m + 2) rl'"
    using budget_check [OF assms(1) Cons.prems(1) _ assms(4) Cons.prems(3) le(1) _ Cons.prems(6-8) ch] by blast+
  have "sorted_wrt (\<le>) (now # map snd rs)" "last (now # map snd rs) \<le> 2 ^ 100"
    using Cons.prems(4,5) r by auto
  from Cons.IH [OF st(1,2) le(2) this, unfolded st(3,4), OF st(5)] Cons.prems(7,8)
  show ?case using ch r by (auto simp: algebra_simps split: if_splits)
qed

lemma new_limiter_ok:
  assumes "float_ok rnd u e" and "0 < per_min"
  shows "limiter_ok (new_limiter rnd now per_min)" and "past now (new_limiter rnd now per_min)"
proof -
  define n where "n = (of_nat (unat per_min) :: rat)"
  have "unat per_min \<noteq> 0" using assms(2) by (simp add: unat_eq_0 word_greater_zero_iff)
  then have n0: "0 < n" unfolding n_def by (simp only: of_nat_0_less_iff neq0_conv)
  have "unat per_min < 2 ^ 32" using unsigned_less [where w = per_min and 'a = nat] by simp
  then have "n < of_nat (2 ^ 32)" unfolding n_def by (simp only: of_nat_less_iff)
  then have n32: "n \<le> 2 ^ 32" by simp
  then have "n / 60 \<le> 2 ^ 1000" using pow_le [of "n / 60" 32 1000] n0 by simp
  note r = float_okD [OF assms(1) _ this]
  have "n / 60 * (1 + u) \<le> 2 ^ 32 * 2"
    using n0 n32 assms(1) by (intro mult_mono) (auto simp: float_ok_def)
  with r n0 assms(1) have "rnd (n / 60) \<le> 2 ^ 40" "0 \<le> rnd (n / 60)" by (auto simp: float_ok_def)
  with n0 n32 show "limiter_ok (new_limiter rnd now per_min)"
    by (simp add: limiter_ok_def new_limiter_def n_def)
  show "past now (new_limiter rnd now per_min)" by (simp add: past_def new_limiter_def)
qed

subsection \<open>Properties\<close>

text \<open>
  C17: the rate limiter bounds every client. Over any stretch of requests of all clients, in
  the order of the clock, one address is granted at most its burst, \<open>capacity\<close>, plus what the
  elapsed time is worth at \<open>refill_per_sec\<close>, whatever the other addresses do and whenever idle
  buckets are swept. Rounding adds at most the factor \<open>(1 + u)^4\<close> on the rate and \<open>slack\<close> per
  request and sweep, both negligible for \<open>f64\<close> (\<open>u = 2^-53\<close>) and absent in exact arithmetic.
\<close>

theorem rate_bounded:
  assumes "float_ok rnd u e" and "limiter_ok rl" and "past t1 rl" and "0 \<le> t1"
    and "sorted_wrt (\<le>) (t1 # map snd rs)" and "last (t1 # map snd rs) \<le> 2 ^ 100"
  shows "of_nat (granted rnd ip rs rl) \<le> capacity rl
    + refill_per_sec rl * (1 + u) ^ 4 * (of_int (last (t1 # map snd rs) - t1) / 10 ^ 9)
    + 2 * of_nat (length rs) * slack u e (capacity rl) (refill_per_sec rl)"
proof -
  have "budget_ok (drift u (refill_per_sec rl)) (slack u e (capacity rl) (refill_per_sec rl)) ip t1 t1 0 0 rl"
    using assms(3) by (auto simp: budget_ok_def past_def secs_def split: option.split)
  from granted_budget [OF assms(1-4) order_refl assms(5,6) this] show ?thesis
    by (simp add: drift_def secs_def)
qed

theorem rate_bounded_witness:
  "of_nat (granted (\<lambda>x. x) 1 [(1, 0), (2, 0), (1, 0), (1, 0)] (new_limiter (\<lambda>x. x) 0 2)) \<le> (2 :: rat)"
proof -
  have fl: "float_ok (\<lambda>x. x) 0 0" by (simp add: float_ok_def)
  have "0 < (2 :: 32 word)" by simp
  note ok = new_limiter_ok [OF fl this, of 0]
  from rate_bounded [OF fl ok, of "[(1, 0), (2, 0), (1, 0), (1, 0)]" 1] show ?thesis
    by (simp add: slack_def new_limiter_def)
qed

end
