(* ===== verification/Collab_Sessions.thy ===== *)
theory Collab_Sessions
  imports Note_Body Sharing_Rights Authentication
begin

text \<open>
  \<open>collab.rs\<close>, the live sessions of one server instance: the registry of sessions, the bounded
  queue of every connection, broadcasting, presence and the handling of client messages; with
  the tables \<open>store.rs\<close> keeps for them (presence, the outbox of applied operations) and the
  channel of \<open>pg_notify\<close>. A session is shared by reference: the registry and the map of joined
  notes of a connection hold addresses into a heap of sessions, and a connection can hold the
  address of a session that the registry has dropped. The serde encodings, and the database
  errors a statement may meet, are fields of the environment.
\<close>

subsection \<open>Wire messages\<close>

record cursor =
  cu_line_id :: uuid
  cu_column :: nat

record presence_info =
  pi_user_id :: string
  pi_display_name :: string
  pi_cursor :: "cursor option"

datatype client_msg =
    Join uuid
  | Leave uuid
  | OpBatch uuid "line_op list"
  | CursorMsg uuid cursor
  | Ack "64 word"

datatype server_msg =
    Welcome uuid note_lines_snapshot
  | OpMsg "64 word" uuid string "line_op list"
  | PresenceMsg uuid "presence_info list"
  | ErrorMsg string string "uuid option"

subsection \<open>Shared tables\<close>

record presence_row =
  pr_user_id :: uuid
  pr_display_name :: string
  pr_cursor :: "cursor option"
  pr_updated_at :: timestamp

record collab_event =
  ev_note_id :: uuid
  ev_origin_instance :: uuid
  ev_origin_conn :: nat
  ev_user_id :: uuid
  ev_ops :: json
  ev_created_at :: timestamp

record shared =
  sh_db :: db
  sh_presence :: "(uuid \<times> uuid \<times> nat, presence_row) table"
  sh_events :: "(nat, collab_event) table"
  sh_next_seq :: nat
  sh_notified :: "(string \<times> string) list"

record collab_env =
  cv_app :: app_state
  cv_instance :: uuid
  cv_now :: timestamp
  cv_nonces :: "nat \<Rightarrow> string"
  cv_ops_json :: "line_op list \<Rightarrow> json option"
  cv_ops_parse :: "json \<Rightarrow> line_op list option"
  cv_fails :: "string \<Rightarrow> sqlx_error option"

definition stmt :: "collab_env \<Rightarrow> string \<Rightarrow> 'a result \<Rightarrow> 'a result" where
  "stmt env name r = (case cv_fails env name of Some e \<Rightarrow> Inl (Database e) | None \<Rightarrow> r)"

definition notify :: "collab_env \<Rightarrow> string \<Rightarrow> string \<Rightarrow> shared \<Rightarrow> shared" where
  "notify env channel payload sh =
     (case cv_fails env ''notify'' of
        Some _ \<Rightarrow> sh
      | None \<Rightarrow> sh\<lparr>sh_notified := sh_notified sh @ [(channel, payload)]\<rparr>)"

definition upsert_presence ::
    "collab_env \<Rightarrow> uuid \<Rightarrow> nat \<Rightarrow> uuid \<Rightarrow> string \<Rightarrow> cursor option \<Rightarrow> shared \<Rightarrow> shared" where
  "upsert_presence env note_id conn_id user_id display_name cur sh =
     (let k = (note_id, cv_instance env, conn_id) in
      sh\<lparr>sh_presence :=
        (case tbl_get (sh_presence sh) k of
           Some row \<Rightarrow> tbl_put k (row\<lparr>pr_cursor := cur, pr_display_name := display_name,
             pr_updated_at := cv_now env\<rparr>) (sh_presence sh)
         | None \<Rightarrow> tbl_put k \<lparr>pr_user_id = user_id, pr_display_name = display_name, pr_cursor = cur,
             pr_updated_at = cv_now env\<rparr> (sh_presence sh))\<rparr>)"

definition delete_presence :: "collab_env \<Rightarrow> uuid \<Rightarrow> nat \<Rightarrow> shared \<Rightarrow> shared" where
  "delete_presence env note_id conn_id sh =
     sh\<lparr>sh_presence := tbl_del (note_id, cv_instance env, conn_id) (sh_presence sh)\<rparr>"

definition list_presence :: "uuid \<Rightarrow> shared \<Rightarrow> presence_row list" where
  "list_presence note_id sh = tbl_select (\<lambda>k _. fst k = note_id) (sh_presence sh)"

definition touch_instance_presence :: "collab_env \<Rightarrow> shared \<Rightarrow> shared" where
  "touch_instance_presence env sh =
     sh\<lparr>sh_presence := tbl_upd_where (\<lambda>k _. fst (snd k) = cv_instance env)
        (\<lambda>r. r\<lparr>pr_updated_at := cv_now env\<rparr>) (sh_presence sh)\<rparr>"

definition sweep_presence :: "timestamp \<Rightarrow> shared \<Rightarrow> nat \<times> shared" where
  "sweep_presence older_than sh =
     (tbl_count (\<lambda>_ r. pr_updated_at r < older_than) (sh_presence sh),
      sh\<lparr>sh_presence := tbl_del_where (\<lambda>_ r. pr_updated_at r < older_than) (sh_presence sh)\<rparr>)"

definition delete_instance_presence :: "uuid \<Rightarrow> shared \<Rightarrow> nat \<times> shared" where
  "delete_instance_presence inst sh =
     (tbl_count (\<lambda>k _. fst (snd k) = inst) (sh_presence sh),
      sh\<lparr>sh_presence := tbl_del_where (\<lambda>k _. fst (snd k) = inst) (sh_presence sh)\<rparr>)"

definition insert_collab_event ::
    "collab_env \<Rightarrow> uuid \<Rightarrow> nat \<Rightarrow> uuid \<Rightarrow> json \<Rightarrow> shared \<Rightarrow> (nat \<times> shared) result" where
  "insert_collab_event env note_id conn_id user_id ops sh =
     stmt env ''insert_collab_event''
       (Inr (sh_next_seq sh, sh\<lparr>sh_next_seq := Suc (sh_next_seq sh),
          sh_events := tbl_put (sh_next_seq sh) \<lparr>ev_note_id = note_id, ev_origin_instance = cv_instance env,
            ev_origin_conn = conn_id, ev_user_id = user_id, ev_ops = ops, ev_created_at = cv_now env\<rparr>
            (sh_events sh)\<rparr>))"

definition get_collab_event :: "nat \<Rightarrow> shared \<Rightarrow> collab_event option" where
  "get_collab_event seq sh = tbl_get (sh_events sh) seq"

definition prune_collab_events :: "timestamp \<Rightarrow> shared \<Rightarrow> nat \<times> shared" where
  "prune_collab_events older_than sh =
     (tbl_count (\<lambda>_ e. ev_created_at e < older_than) (sh_events sh),
      sh\<lparr>sh_events := tbl_del_where (\<lambda>_ e. ev_created_at e < older_than) (sh_events sh)\<rparr>)"

text \<open>
  The minute tick of \<open>main.rs\<close>: the heartbeat of this instance, the sweep of rows no instance
  has refreshed for 150 seconds, the pruning of the outbox after 300. An error is only logged.
\<close>

definition presence_tick :: "collab_env \<Rightarrow> shared \<Rightarrow> shared" where
  "presence_tick env sh =
     (let sh1 = (if cv_fails env ''touch_instance_presence'' = None then touch_instance_presence env sh else sh);
          sh2 = (if cv_fails env ''sweep_presence'' = None
                 then snd (sweep_presence (cv_now env - seconds 150) sh1) else sh1)
      in if cv_fails env ''prune_collab_events'' = None
         then snd (prune_collab_events (cv_now env - seconds 300) sh2) else sh2)"

text \<open>An instance whose heartbeat succeeds does not lose its own rows.\<close>

lemma presence_tick_own:
  assumes "tbl_ok (sh_presence sh)" and "cv_fails env ''touch_instance_presence'' = None"
    and "tbl_get (sh_presence sh) (n, cv_instance env, c) = Some r"
  shows "tbl_get (sh_presence (presence_tick env sh)) (n, cv_instance env, c) = Some (r\<lparr>pr_updated_at := cv_now env\<rparr>)"
  using assms
  by (simp add: presence_tick_def Let_def touch_instance_presence_def sweep_presence_def prune_collab_events_def
      tbl_get_upd_where tbl_get_del_where)

subsection \<open>The registry\<close>

definition OUTBOUND_CAPACITY :: nat where
  "OUTBOUND_CAPACITY = 256"

text \<open>The address of a session carries the note it was created for.\<close>

type_synonym sess_addr = "uuid \<times> nat"

record session =
  se_seq :: "64 word"
  se_subs :: "nat list"

record registry =
  rg_sessions :: "(uuid, sess_addr) table"
  rg_heap :: "(sess_addr, session) table"
  rg_next_addr :: nat
  rg_next_conn :: nat
  rg_queues :: "(nat, server_msg list) table"

definition empty_registry :: registry where
  "empty_registry = \<lparr>rg_sessions = [], rg_heap = [], rg_next_addr = 0, rg_next_conn = 0, rg_queues = []\<rparr>"

definition registry_stats :: "registry \<Rightarrow> nat \<times> nat" where
  "registry_stats rg =
     (length (rg_sessions rg),
      sum_list (map (\<lambda>r. case tbl_get (rg_heap rg) (snd r) of Some s \<Rightarrow> length (se_subs s) | None \<Rightarrow> 0)
        (rg_sessions rg)))"

definition get_session :: "uuid \<Rightarrow> registry \<Rightarrow> sess_addr option" where
  "get_session note_id rg = tbl_get (rg_sessions rg) note_id"

definition get_or_create :: "uuid \<Rightarrow> registry \<Rightarrow> sess_addr \<times> registry" where
  "get_or_create note_id rg =
     (case tbl_get (rg_sessions rg) note_id of
        Some a \<Rightarrow> (a, rg)
      | None \<Rightarrow>
          let a = (note_id, rg_next_addr rg)
          in (a, rg\<lparr>rg_sessions := tbl_put note_id a (rg_sessions rg),
                    rg_heap := tbl_put a \<lparr>se_seq = 0, se_subs = []\<rparr> (rg_heap rg),
                    rg_next_addr := Suc (rg_next_addr rg)\<rparr>))"

definition subs_of :: "sess_addr \<Rightarrow> registry \<Rightarrow> nat list" where
  "subs_of a rg = (case tbl_get (rg_heap rg) a of Some s \<Rightarrow> se_subs s | None \<Rightarrow> [])"

definition drop_if_empty :: "uuid \<Rightarrow> registry \<Rightarrow> registry" where
  "drop_if_empty note_id rg =
     (case tbl_get (rg_sessions rg) note_id of
        Some a \<Rightarrow> if subs_of a rg = [] then rg\<lparr>rg_sessions := tbl_del note_id (rg_sessions rg)\<rparr> else rg
      | None \<Rightarrow> rg)"

definition subscribe :: "sess_addr \<Rightarrow> nat \<Rightarrow> registry \<Rightarrow> registry" where
  "subscribe a conn_id rg =
     rg\<lparr>rg_heap := tbl_upd a (\<lambda>s. s\<lparr>se_subs := List.insert conn_id (se_subs s)\<rparr>) (rg_heap rg)\<rparr>"

definition unsubscribe :: "sess_addr \<Rightarrow> nat list \<Rightarrow> registry \<Rightarrow> registry" where
  "unsubscribe a cs rg =
     rg\<lparr>rg_heap := tbl_upd a (\<lambda>s. s\<lparr>se_subs := filter (\<lambda>c. c \<notin> set cs) (se_subs s)\<rparr>) (rg_heap rg)\<rparr>"

text \<open>\<open>try_send\<close> fails when the queue is full or its receiver is gone.\<close>

definition has_room :: "nat \<Rightarrow> registry \<Rightarrow> bool" where
  "has_room conn_id rg =
     (case tbl_get (rg_queues rg) conn_id of Some q \<Rightarrow> length q < OUTBOUND_CAPACITY | None \<Rightarrow> False)"

definition try_send :: "nat \<Rightarrow> server_msg \<Rightarrow> registry \<Rightarrow> registry" where
  "try_send conn_id msg rg =
     (if has_room conn_id rg
      then rg\<lparr>rg_queues := tbl_upd conn_id (\<lambda>q. q @ [msg]) (rg_queues rg)\<rparr>
      else rg)"

fun send_all :: "nat list \<Rightarrow> server_msg \<Rightarrow> registry \<Rightarrow> nat list \<times> registry" where
  "send_all [] msg rg = ([], rg)"
| "send_all (c # cs) msg rg =
     (let (slow, rg') = send_all cs msg (try_send c msg rg)
      in (if has_room c rg then slow else c # slow, rg'))"

definition broadcast :: "sess_addr \<Rightarrow> server_msg \<Rightarrow> nat option \<Rightarrow> registry \<Rightarrow> registry" where
  "broadcast a msg skip_conn rg =
     (let (slow, rg') = send_all (filter (\<lambda>c. Some c \<noteq> skip_conn) (subs_of a rg)) msg rg
      in unsubscribe a slow rg')"

definition bump_seq :: "sess_addr \<Rightarrow> registry \<Rightarrow> 64 word \<times> registry" where
  "bump_seq a rg =
     ((case tbl_get (rg_heap rg) a of Some s \<Rightarrow> se_seq s + 1 | None \<Rightarrow> 1),
      rg\<lparr>rg_heap := tbl_upd a (\<lambda>s. s\<lparr>se_seq := se_seq s + 1\<rparr>) (rg_heap rg)\<rparr>)"

subsection \<open>Presence and events\<close>

text \<open>One entry per user; the first cursor that is present wins.\<close>

fun merge_presence :: "(uuid \<Rightarrow> string) \<Rightarrow> presence_row list \<Rightarrow> (uuid, presence_info) table \<Rightarrow> (uuid, presence_info) table" where
  "merge_presence ustr [] acc = acc"
| "merge_presence ustr (r # rs) acc =
     merge_presence ustr rs
       (case tbl_get acc (pr_user_id r) of
          Some p \<Rightarrow> tbl_put (pr_user_id r)
            (if pi_cursor p = None then p\<lparr>pi_cursor := pr_cursor r\<rparr> else p) acc
        | None \<Rightarrow> tbl_put (pr_user_id r) \<lparr>pi_user_id = ustr (pr_user_id r),
            pi_display_name = pr_display_name r, pi_cursor = pr_cursor r\<rparr> acc)"

definition env_uuid :: "collab_env \<Rightarrow> uuid \<Rightarrow> string" where
  "env_uuid env = uuid_str (app_core (cv_app env))"

definition deliver_presence :: "collab_env \<Rightarrow> uuid \<Rightarrow> shared \<Rightarrow> registry \<Rightarrow> registry" where
  "deliver_presence env note_id sh rg =
     (case get_session note_id rg of
        None \<Rightarrow> rg
      | Some a \<Rightarrow>
          if cv_fails env ''list_presence'' \<noteq> None then rg
          else broadcast a (PresenceMsg note_id
                 (map snd (merge_presence (env_uuid env) (list_presence note_id sh) []))) None rg)"

definition announce_presence :: "collab_env \<Rightarrow> uuid \<Rightarrow> registry \<times> shared \<Rightarrow> registry \<times> shared" where
  "announce_presence env note_id st =
     (case st of (rg, sh) \<Rightarrow>
        (deliver_presence env note_id sh rg,
         notify env ''collab_presence'' (env_uuid env note_id @ '':'' @ env_uuid env (cv_instance env)) sh))"

record conn =
  cn_id :: nat
  cn_user_id :: uuid
  cn_device_id :: uuid
  cn_display_name :: string

definition touch_presence ::
    "collab_env \<Rightarrow> conn \<Rightarrow> uuid \<Rightarrow> cursor option \<Rightarrow> registry \<times> shared \<Rightarrow> unit result \<times> registry \<times> shared" where
  "touch_presence env cn note_id cur st =
     (case st of (rg, sh) \<Rightarrow>
        (case cv_fails env ''upsert_presence'' of
           Some e \<Rightarrow> (Inl (Database e), rg, sh)
         | None \<Rightarrow> (Inr (), announce_presence env note_id
             (rg, upsert_presence env note_id (cn_id cn) (cn_user_id cn) (cn_display_name cn) cur sh))))"

text \<open>The callers ignore an error of \<open>clear_presence\<close>.\<close>

definition clear_presence :: "collab_env \<Rightarrow> nat \<Rightarrow> uuid \<Rightarrow> registry \<times> shared \<Rightarrow> registry \<times> shared" where
  "clear_presence env conn_id note_id st =
     (case st of (rg, sh) \<Rightarrow>
        if cv_fails env ''delete_presence'' \<noteq> None then (rg, sh)
        else announce_presence env note_id (rg, delete_presence env note_id conn_id sh))"

definition deliver_event :: "collab_env \<Rightarrow> collab_event \<Rightarrow> registry \<Rightarrow> registry" where
  "deliver_event env e rg =
     (case get_session (ev_note_id e) rg of
        None \<Rightarrow> rg
      | Some a \<Rightarrow>
          (case cv_ops_parse env (ev_ops e) of
             None \<Rightarrow> rg
           | Some ops \<Rightarrow>
               let (server_seq, rg') = bump_seq a rg
               in broadcast a (OpMsg server_seq (ev_note_id e) (env_uuid env (ev_user_id e)) ops) None rg'))"

subsection \<open>Client messages\<close>

definition send_note_error :: "nat \<Rightarrow> uuid option \<Rightarrow> string \<Rightarrow> string \<Rightarrow> registry \<Rightarrow> registry" where
  "send_note_error conn_id note_id code message rg = try_send conn_id (ErrorMsg code message note_id) rg"

definition send_error :: "nat \<Rightarrow> string \<Rightarrow> string \<Rightarrow> registry \<Rightarrow> registry" where
  "send_error conn_id code message rg = send_note_error conn_id None code message rg"

definition find_note :: "collab_env \<Rightarrow> uuid \<Rightarrow> shared \<Rightarrow> note_row option result" where
  "find_note env note_id sh = stmt env ''get_note'' (get_note_on (app_store (cv_app env)) note_id (sh_db sh))"

definition access_of :: "collab_env \<Rightarrow> note_row \<Rightarrow> uuid \<Rightarrow> shared \<Rightarrow> access result" where
  "access_of env n user_id sh =
     stmt env ''resolve_note_access'' (resolve_note_access_on (app_scheme (cv_app env)) n user_id (sh_db sh))"

type_synonym joined = "(uuid, sess_addr) table"
type_synonym conn_state = "joined \<times> registry \<times> shared"

text \<open>
  \<open>Join\<close> after the access check: the session is looked up or created, then snapshot, subscription
  and the queued \<open>Welcome\<close> are one step under the session's lock.
\<close>

definition join_enter ::
    "collab_env \<Rightarrow> conn \<Rightarrow> uuid \<Rightarrow> sess_addr \<Rightarrow> conn_state \<Rightarrow> unit result \<times> conn_state" where
  "join_enter env cn note_id a st =
     (case st of (joined, rg, sh) \<Rightarrow>
        case stmt env ''read_snapshot'' (read_snapshot (app_store (cv_app env)) note_id (sh_db sh)) of
          Inl e \<Rightarrow> (Inl e, joined, rg, sh)
        | Inr snapshot \<Rightarrow>
            let rg1 = try_send (cn_id cn) (Welcome note_id snapshot) (subscribe a (cn_id cn) rg);
                (r, rg2, sh') = touch_presence env cn note_id None (rg1, sh)
            in (r, tbl_put note_id a joined, rg2, sh'))"

definition join_note ::
    "collab_env \<Rightarrow> conn \<Rightarrow> uuid \<Rightarrow> conn_state \<Rightarrow> unit result \<times> conn_state" where
  "join_note env cn note_id st =
     (case st of (joined, rg, sh) \<Rightarrow>
        let (a, rg1) = get_or_create note_id rg in join_enter env cn note_id a (joined, rg1, sh))"

definition handle_join :: "collab_env \<Rightarrow> conn \<Rightarrow> uuid \<Rightarrow> conn_state \<Rightarrow> unit result \<times> conn_state" where
  "handle_join env cn note_id st =
     (case st of (joined, rg, sh) \<Rightarrow>
        case find_note env note_id sh of
          Inl e \<Rightarrow> (Inl e, st)
        | Inr None \<Rightarrow> (Inr (), joined, send_error (cn_id cn) ''not_found'' ''note not found'' rg, sh)
        | Inr (Some n) \<Rightarrow>
            (case access_of env n (cn_user_id cn) sh of
               Inr access \<Rightarrow>
                 if acc_can_read access then join_note env cn note_id st
                 else (Inr (), joined, send_error (cn_id cn) ''forbidden'' ''no access to this note'' rg, sh)
             | Inl e \<Rightarrow>
                 if e = Forbidden
                 then (Inr (), joined, send_error (cn_id cn) ''forbidden'' ''no access to this note'' rg, sh)
                 else (Inl e, st)))"

definition leave_session :: "collab_env \<Rightarrow> nat \<Rightarrow> uuid \<times> sess_addr \<Rightarrow> registry \<times> shared \<Rightarrow> registry \<times> shared" where
  "leave_session env conn_id j st =
     (case st of (rg, sh) \<Rightarrow>
        let (rg1, sh1) = clear_presence env conn_id (fst j) (unsubscribe (snd j) [conn_id] rg, sh)
        in (drop_if_empty (fst j) rg1, sh1))"

definition handle_leave :: "collab_env \<Rightarrow> conn \<Rightarrow> uuid \<Rightarrow> conn_state \<Rightarrow> unit result \<times> conn_state" where
  "handle_leave env cn note_id st =
     (case st of (joined, rg, sh) \<Rightarrow>
        case tbl_get joined note_id of
          None \<Rightarrow> (Inr (), st)
        | Some a \<Rightarrow> (Inr (), tbl_del note_id joined, leave_session env (cn_id cn) (note_id, a) (rg, sh)))"

text \<open>
  The loop over the operations of a message: the refusals that were sent so far, and the error
  that ended the loop or the applied operations and the database.
\<close>

fun op_loop ::
    "collab_env \<Rightarrow> uuid \<Rightarrow> uuid \<Rightarrow> nat \<Rightarrow> line_op list \<Rightarrow> db \<Rightarrow> (string \<times> string) list \<times> (line_op list \<times> db) result" where
  "op_loop env note_id device_id i [] d = ([], Inr ([], d))"
| "op_loop env note_id device_id i (op # ops) d =
     (case apply_op (app_core (cv_app env)) (app_store (cv_app env)) (cv_nonces env i) (cv_now env)
             note_id device_id op d of
        Inl e \<Rightarrow> ([], Inl e)
      | Inr (out, d1) \<Rightarrow>
          (case op_loop env note_id device_id (Suc i) ops d1 of
             (errs, rest) \<Rightarrow>
               (case out of
                  Applied a \<Rightarrow> (errs, res_then rest (\<lambda>(applied, d2). Inr (a # applied, d2)))
                | Ignored \<Rightarrow> (errs, rest)
                | Invalid code message \<Rightarrow> ((code, message) # errs, rest))))"

definition send_refusals :: "nat \<Rightarrow> uuid \<Rightarrow> (string \<times> string) list \<Rightarrow> registry \<Rightarrow> registry" where
  "send_refusals conn_id note_id errs rg =
     fold (\<lambda>(code, message). send_note_error conn_id (Some note_id) code message) errs rg"

definition publish_ops ::
    "collab_env \<Rightarrow> conn \<Rightarrow> uuid \<Rightarrow> sess_addr \<Rightarrow> line_op list \<Rightarrow> registry \<times> shared \<Rightarrow> registry \<times> shared" where
  "publish_ops env cn note_id a applied st =
     (case st of (rg, sh) \<Rightarrow>
        if applied = [] then (rg, sh)
        else
          let (server_seq, rg1) = bump_seq a rg;
              rg2 = broadcast a (OpMsg server_seq note_id (env_uuid env (cn_user_id cn)) applied)
                      (Some (cn_id cn)) rg1
          in case cv_ops_json env applied of
               None \<Rightarrow> (rg2, sh)
             | Some ops_json \<Rightarrow>
                 (case insert_collab_event env note_id (cn_id cn) (cn_user_id cn) ops_json sh of
                    Inl _ \<Rightarrow> (rg2, sh)
                  | Inr (seq, sh1) \<Rightarrow>
                      (rg2, notify env ''collab_op'' (show_nat seq @ '':'' @ env_uuid env (cv_instance env)) sh1)))"

definition apply_batch ::
    "collab_env \<Rightarrow> conn \<Rightarrow> uuid \<Rightarrow> sess_addr \<Rightarrow> line_op list \<Rightarrow> conn_state \<Rightarrow> unit result \<times> conn_state" where
  "apply_batch env cn note_id a ops st =
     (case st of (joined, rg, sh) \<Rightarrow>
        case cv_fails env ''lock_note_order'' of
          Some e \<Rightarrow> (Inl (Database e), st)
        | None \<Rightarrow>
            let (errs, r) = op_loop env note_id (cn_device_id cn) 0 ops (sh_db sh);
                rg1 = send_refusals (cn_id cn) note_id errs rg
            in case r of
                 Inl e \<Rightarrow> (Inl e, joined, rg1, sh)
               | Inr (applied, d') \<Rightarrow>
                   (case cv_fails env ''commit'' of
                      Some e \<Rightarrow> (Inl (Database e), joined, rg1, sh)
                    | None \<Rightarrow> (Inr (), joined, publish_ops env cn note_id a applied (rg1, sh\<lparr>sh_db := d'\<rparr>))))"

definition handle_ops ::
    "collab_env \<Rightarrow> conn \<Rightarrow> uuid \<Rightarrow> line_op list \<Rightarrow> conn_state \<Rightarrow> unit result \<times> conn_state" where
  "handle_ops env cn note_id ops st =
     (case st of (joined, rg, sh) \<Rightarrow>
        case tbl_get joined note_id of
          None \<Rightarrow> (Inr (), joined, send_error (cn_id cn) ''not_joined'' ''join the note before sending ops'' rg, sh)
        | Some a \<Rightarrow>
            (case find_note env note_id sh of
               Inl e \<Rightarrow> (Inl e, st)
             | Inr None \<Rightarrow> (Inr (), joined, send_error (cn_id cn) ''not_found'' ''note not found'' rg, sh)
             | Inr (Some n) \<Rightarrow>
                 (case access_of env n (cn_user_id cn) sh of
                    Inl e \<Rightarrow>
                      if e = Forbidden
                      then (Inr (), joined,
                        send_error (cn_id cn) ''forbidden'' ''access to this note was revoked'' rg, sh)
                      else (Inl e, st)
                  | Inr access \<Rightarrow>
                      if \<not> acc_can_write access
                      then (Inr (), joined,
                        send_error (cn_id cn) ''forbidden'' ''no write access to this note'' rg, sh)
                      else apply_batch env cn note_id a ops st)))"

fun handle_msg :: "collab_env \<Rightarrow> conn \<Rightarrow> client_msg \<Rightarrow> conn_state \<Rightarrow> unit result \<times> conn_state" where
  "handle_msg env cn (Join note_id) st = handle_join env cn note_id st"
| "handle_msg env cn (Leave note_id) st = handle_leave env cn note_id st"
| "handle_msg env cn (OpBatch note_id ops) st = handle_ops env cn note_id ops st"
| "handle_msg env cn (CursorMsg note_id cur) st =
     (case st of (joined, rg, sh) \<Rightarrow>
        if tbl_get joined note_id = None then (Inr (), st)
        else (case touch_presence env cn note_id (Some cur) (rg, sh) of (r, st') \<Rightarrow> (r, joined, st')))"
| "handle_msg env cn (Ack server_seq) st = (Inr (), st)"

subsection \<open>A connection\<close>

text \<open>
  What the reading half of the socket yields: a text frame with its parse (\<open>Inl\<close> is the parse
  error), a close frame or any other end of the stream, a frame that is skipped.
\<close>

datatype ws_frame = TextFrame "string + client_msg" | CloseFrame | OtherFrame

text \<open>The handshake: the token of the header, or else of the query string.\<close>

definition collab_token :: "string option \<Rightarrow> string option \<Rightarrow> string result" where
  "collab_token header param =
     ok_or (case (case header_str header of Some v \<Rightarrow> strip_prefix ''Bearer '' v | None \<Rightarrow> None) of
              Some t \<Rightarrow> Some t
            | None \<Rightarrow> param) MissingToken"

definition collab_handler ::
    "collab_env \<Rightarrow> auth_lib \<Rightarrow> string option \<Rightarrow> string option \<Rightarrow> db \<Rightarrow> (uuid \<times> uuid \<times> string) result" where
  "collab_handler env lib header param d =
     res_then (collab_token header param) (\<lambda>token.
     res_then (verify_token lib (cv_now env) token (jwt_secret (app_config (cv_app env)))) (\<lambda>authed.
     res_then (stmt env ''get_device'' (Inr (get_device (au_device_id authed) d))) (\<lambda>device.
       case device of
         None \<Rightarrow> Inl InvalidToken
       | Some dev \<Rightarrow>
           if d_user_id dev \<noteq> au_user_id authed then Inl InvalidToken
           else res_then (stmt env ''get_user_by_id'' (Inr (get_user_by_id_on (au_user_id authed) d))) (\<lambda>found.
             res_then (ok_or found InvalidToken) (\<lambda>user.
               Inr (u_id user, au_device_id authed, u_display_name user))))))"

definition open_conn :: "registry \<Rightarrow> nat \<times> registry" where
  "open_conn rg =
     (rg_next_conn rg, rg\<lparr>rg_next_conn := Suc (rg_next_conn rg),
        rg_queues := tbl_put (rg_next_conn rg) [] (rg_queues rg)\<rparr>)"

fun handle_frame :: "collab_env \<Rightarrow> conn \<Rightarrow> ws_frame \<Rightarrow> conn_state \<Rightarrow> conn_state" where
  "handle_frame env cn (TextFrame (Inl e)) (joined, rg, sh) =
     (joined, send_error (cn_id cn) ''bad_message'' (''unparseable message: '' @ e) rg, sh)"
| "handle_frame env cn (TextFrame (Inr msg)) st =
     (case handle_msg env cn msg st of
        (Inr _, st') \<Rightarrow> st'
      | (Inl _, joined, rg, sh) \<Rightarrow> (joined, send_error (cn_id cn) ''internal'' ''internal error'' rg, sh))"
| "handle_frame env cn CloseFrame st = st"
| "handle_frame env cn OtherFrame st = st"

definition close_conn :: "collab_env \<Rightarrow> conn \<Rightarrow> conn_state \<Rightarrow> registry \<times> shared" where
  "close_conn env cn st =
     (case st of (joined, rg, sh) \<Rightarrow>
        let (rg1, sh1) = fold (leave_session env (cn_id cn)) joined (rg, sh)
        in (rg1\<lparr>rg_queues := tbl_del (cn_id cn) (rg_queues rg1)\<rparr>, sh1))"

fun run_frames :: "collab_env \<Rightarrow> conn \<Rightarrow> ws_frame list \<Rightarrow> conn_state \<Rightarrow> registry \<times> shared" where
  "run_frames env cn [] st = close_conn env cn st"
| "run_frames env cn (CloseFrame # fs) st = close_conn env cn st"
| "run_frames env cn (f # fs) st = run_frames env cn fs (handle_frame env cn f st)"

text \<open>The writer task takes the queued messages off one by one.\<close>

definition write_out :: "nat \<Rightarrow> registry \<Rightarrow> server_msg option \<times> registry" where
  "write_out conn_id rg =
     (case tbl_get (rg_queues rg) conn_id of
        Some (m # q) \<Rightarrow> (Some m, rg\<lparr>rg_queues := tbl_put conn_id q (rg_queues rg)\<rparr>)
      | _ \<Rightarrow> (None, rg))"

end
