(* ===== verification/Projection.thy ===== *)
theory Projection
  imports Entities Journal
begin

text \<open>
  \<open>projection.rs\<close>: the worker that applies journalled changes to the entity tables. A job is
  claimed, its change is applied (in transactions of its own) and the job is finished:
  deleted, scheduled again or dead-lettered. Decoding a payload into a \<open>Change\<close> is
  \<open>keeplin_core\<close>'s and a parameter; so are the errors the database may report.
\<close>

datatype change =
    NotebookUpsert in_notebook
  | NotebookDelete uuid timestamp version_vector string
  | TagUpsert in_tag
  | TagDelete uuid timestamp version_vector string
  | NoteTagAdd uuid uuid timestamp version_vector string
  | NoteTagRemove uuid uuid timestamp version_vector string
  | ResourceCreate in_resource "string option"
  | ResourceDelete uuid timestamp version_vector string
  | NoteChange

definition is_permanent_failure :: "app_error \<Rightarrow> bool" where
  "is_permanent_failure e =
     (case e of
        Internal message \<Rightarrow> is_prefix ''invalid projection payload:'' message
      | Database (DbError code) \<Rightarrow> code \<in> {''22001'', ''22003'', ''22007'', ''22008'', ''22P02''}
      | _ \<Rightarrow> False)"

text \<open>
  The two notebook statements run at the serializable level: a serialization failure is
  tried again twice. \<open>errs\<close> lists the failures the database reports for the attempts.
\<close>

fun with_retries :: "nat \<Rightarrow> app_error list \<Rightarrow> (db \<Rightarrow> (bool \<times> db) result) \<Rightarrow> db \<Rightarrow> (unit \<times> db) result" where
  "with_retries left [] act d = res_then (act d) (\<lambda>(_, d'). Inr ((), d'))"
| "with_retries left (e # errs) act d =
     (case left of
        Suc l \<Rightarrow> if is_serialization_failure e then with_retries l errs act d else Inl e
      | 0 \<Rightarrow> Inl e)"

definition once :: "app_error list \<Rightarrow> (db \<Rightarrow> (bool \<times> db) result) \<Rightarrow> db \<Rightarrow> (unit \<times> db) result" where
  "once errs act d =
     (case errs of
        e # _ \<Rightarrow> Inl e
      | [] \<Rightarrow> res_then (act d) (\<lambda>(_, d'). Inr ((), d')))"

fun apply_change :: "core \<Rightarrow> app_error list \<Rightarrow> uuid \<Rightarrow> change \<Rightarrow> db \<Rightarrow> (unit \<times> db) result" where
  "apply_change co errs u (NotebookUpsert nb) d = with_retries 2 errs (upsert_notebook_on co u nb) d"
| "apply_change co errs u (NotebookDelete i ts vv w) d =
     with_retries 2 errs (delete_notebook_on co u i ts vv w) d"
| "apply_change co errs u (TagUpsert t) d = once errs (upsert_tag co u t) d"
| "apply_change co errs u (TagDelete i ts vv w) d = once errs (delete_tag co u i ts vv w) d"
| "apply_change co errs u (NoteTagAdd n t ts vv w) d =
     once errs (upsert_note_tag co u n t ts None vv w) d"
| "apply_change co errs u (NoteTagRemove n t ts vv w) d =
     once errs (upsert_note_tag co u n t ts (Some ts) vv w) d"
| "apply_change co errs u (ResourceCreate r data) d = once errs (apply_resource_create co u r data) d"
| "apply_change co errs u (ResourceDelete i ts vv w) d = once errs (delete_resource co u i ts vv w) d"
| "apply_change co errs u NoteChange d = Inr ((), d)"

subsection \<open>The queue\<close>

text \<open>
  \<open>claim_one\<close> takes the first available job in the order of availability, creation and batch
  index that no other worker has locked (\<open>SKIP LOCKED\<close>; \<open>locked\<close> says which are). The lease is
  written in the job's own transaction.
\<close>

definition claimable ::
    "timestamp \<Rightarrow> (job_key \<Rightarrow> bool) \<Rightarrow> uuid option \<Rightarrow> uuid option \<Rightarrow> db \<Rightarrow> job_key \<times> projection_job \<Rightarrow> bool" where
  "claimable now locked user batch d r =
     (case r of ((u, b, i), j) \<Rightarrow>
        j_state j \<in> {Pending, Retry} \<and> j_available_at j \<le> now \<and> \<not> locked (u, b, i) \<and>
        (user = None \<or> user = Some u) \<and> (batch = None \<or> batch = Some b) \<and> has_change u b i d)"

definition job_payload :: "job_key \<Rightarrow> db \<Rightarrow> json option" where
  "job_payload k d =
     (case k of (u, b, i) \<Rightarrow>
        map_option (\<lambda>r. c_payload (snd r)) (find (\<lambda>r. c_user_id (snd r) = u \<and> c_batch_id (snd r) = b
          \<and> c_batch_index (snd r) = i) (changes d)))"

definition job_before :: "job_key \<times> projection_job \<Rightarrow> job_key \<times> projection_job \<Rightarrow> bool" where
  "job_before x y \<longleftrightarrow>
     (let jx = snd x; jy = snd y in
        j_available_at jx < j_available_at jy \<or>
        (j_available_at jx = j_available_at jy \<and>
          (j_created_at jx < j_created_at jy \<or>
            (j_created_at jx = j_created_at jy \<and> snd (snd (fst x)) < snd (snd (fst y))))))"

fun first_job :: "(job_key \<times> projection_job) list \<Rightarrow> (job_key \<times> projection_job) option" where
  "first_job [] = None"
| "first_job (x # xs) =
     (case first_job xs of
        None \<Rightarrow> Some x
      | Some y \<Rightarrow> if job_before y x then Some y else Some x)"

definition claim_one ::
    "timestamp \<Rightarrow> (job_key \<Rightarrow> bool) \<Rightarrow> uuid option \<Rightarrow> uuid option \<Rightarrow> db \<Rightarrow> (job_key \<times> json) option" where
  "claim_one now locked user batch d =
     (case first_job (filter (claimable now locked user batch d) (projection_jobs d)) of
        None \<Rightarrow> None
      | Some (k, j) \<Rightarrow> map_option (\<lambda>p. (k, p)) (job_payload k d))"

text \<open>
  \<open>finish_job\<close> and the lease together, as the job's transaction commits them. If the commit
  fails the transaction is rolled back and the job is as it was.
\<close>

definition finish_row :: "(app_error \<Rightarrow> string) \<Rightarrow> timestamp \<Rightarrow> app_error \<Rightarrow> projection_job \<Rightarrow> projection_job" where
  "finish_row sh now e j =
     (if is_serialization_failure e
      then j\<lparr>j_state := Retry, j_available_at := now + seconds 1, j_leased_by := None,
             j_leased_until := None, j_last_error := Some (sh e), j_updated_at := now\<rparr>
      else j\<lparr>j_attempts := j_attempts j + 1,
             j_state := (if is_permanent_failure e \<or> j_attempts j + 1 \<ge> 5 then DeadLetter else Retry),
             j_available_at := now + seconds (min 16 (2 ^ min (j_attempts j) 4)),
             j_leased_by := None, j_leased_until := None, j_last_error := Some (sh e),
             j_updated_at := now\<rparr>)"

definition finish_job ::
    "(app_error \<Rightarrow> string) \<Rightarrow> timestamp \<Rightarrow> sqlx_error option \<Rightarrow> job_key \<Rightarrow> unit result \<Rightarrow> db \<Rightarrow> db" where
  "finish_job sh now commit_err k result d =
     (case commit_err of
        Some _ \<Rightarrow> d
      | None \<Rightarrow>
          (case result of
             Inr _ \<Rightarrow> d\<lparr>projection_jobs := tbl_del k (projection_jobs d)\<rparr>
           | Inl e \<Rightarrow> d\<lparr>projection_jobs := tbl_upd k (finish_row sh now e) (projection_jobs d)\<rparr>))"

text \<open>
  What the worker meets in its \<open>n\<close>-th turn: the time, the errors the database reports while
  the change is applied, a failed commit, the jobs other workers hold, a failed claim.
\<close>

record projector =
  pj_core :: core
  pj_decode :: "json \<Rightarrow> string + change"
  pj_show :: "app_error \<Rightarrow> string"
  pj_clock :: "nat \<Rightarrow> timestamp"
  pj_errs :: "nat \<Rightarrow> app_error list"
  pj_commit_err :: "nat \<Rightarrow> sqlx_error option"
  pj_locked :: "nat \<Rightarrow> job_key \<Rightarrow> bool"
  pj_claim_err :: "nat \<Rightarrow> bool"
  pj_schedule_err :: bool

definition run_job :: "projector \<Rightarrow> nat \<Rightarrow> job_key \<Rightarrow> json \<Rightarrow> db \<Rightarrow> db" where
  "run_job pj n k payload d =
     (case (case pj_decode pj payload of
              Inr ch \<Rightarrow> apply_change (pj_core pj) (pj_errs pj n) (fst k) ch d
            | Inl e \<Rightarrow> Inl (Internal (''invalid projection payload: '' @ e))) of
        Inr (_, d') \<Rightarrow> finish_job (pj_show pj) (pj_clock pj n) (pj_commit_err pj n) k (Inr ()) d'
      | Inl e \<Rightarrow> finish_job (pj_show pj) (pj_clock pj n) (pj_commit_err pj n) k (Inl e) d)"

text \<open>\<open>limit\<close> bounds the jobs of one call; \<open>n\<close> counts the jobs run so far.\<close>

fun drain_available :: "projector \<Rightarrow> uuid option \<Rightarrow> nat \<Rightarrow> nat \<Rightarrow> db \<Rightarrow> db" where
  "drain_available pj user n 0 d = d"
| "drain_available pj user n (Suc limit) d =
     (if pj_claim_err pj n then d
      else case claim_one (pj_clock pj n) (pj_locked pj n) user None d of
        None \<Rightarrow> d
      | Some (k, payload) \<Rightarrow> drain_available pj user (Suc n) limit (run_job pj n k payload d))"

definition schedule_batch :: "timestamp \<Rightarrow> uuid \<Rightarrow> uuid \<Rightarrow> db \<Rightarrow> db" where
  "schedule_batch now user_id batch_id d =
     d\<lparr>projection_jobs := tbl_upd_where (\<lambda>k j. fst k = user_id \<and> fst (snd k) = batch_id
          \<and> j_state j \<in> {Pending, Retry}) (\<lambda>j. j\<lparr>j_available_at := now, j_updated_at := now\<rparr>)
        (projection_jobs d)\<rparr>"

text \<open>The unbounded loop of \<open>drain_batch\<close>, with fuel: \<open>None\<close> when the fuel is used up.\<close>

fun drain_batch_loop :: "projector \<Rightarrow> uuid \<Rightarrow> uuid \<Rightarrow> nat \<Rightarrow> nat \<Rightarrow> db \<Rightarrow> db option" where
  "drain_batch_loop pj user_id batch_id n 0 d = None"
| "drain_batch_loop pj user_id batch_id n (Suc fuel) d =
     (if pj_claim_err pj n then Some d
      else case claim_one (pj_clock pj n) (pj_locked pj n) (Some user_id) (Some batch_id) d of
        None \<Rightarrow> Some d
      | Some (k, payload) \<Rightarrow> drain_batch_loop pj user_id batch_id (Suc n) fuel (run_job pj n k payload d))"

definition drain_batch :: "projector \<Rightarrow> uuid \<Rightarrow> uuid \<Rightarrow> nat \<Rightarrow> nat \<Rightarrow> db \<Rightarrow> db option" where
  "drain_batch pj user_id batch_id n fuel d =
     (if pj_schedule_err pj then Some d
      else drain_batch_loop pj user_id batch_id n fuel (schedule_batch (pj_clock pj n) user_id batch_id d))"

definition reconcile_wants ::
    "uuid option \<Rightarrow> timestamp option \<Rightarrow> timestamp option \<Rightarrow> change_row \<Rightarrow> bool" where
  "reconcile_wants user from to c \<longleftrightarrow>
     (user = None \<or> user = Some (c_user_id c)) \<and>
     (case from of None \<Rightarrow> True | Some t \<Rightarrow> c_received_at c \<ge> t) \<and>
     (case to of None \<Rightarrow> True | Some t \<Rightarrow> c_received_at c < t) \<and>
     (case json_str (json_at (c_payload c) ''op'') of
        None \<Rightarrow> False
      | Some op \<Rightarrow> op \<notin> {''note_create'', ''note_update'', ''note_delete''})"

definition reconcile_one :: "timestamp \<Rightarrow> change_row \<Rightarrow> nat \<times> db \<Rightarrow> nat \<times> db" where
  "reconcile_one now c acc =
     (let (n, d) = acc; k = (c_user_id c, c_batch_id c, c_batch_index c)
      in case tbl_get (projection_jobs d) k of
           None \<Rightarrow> (Suc n, d\<lparr>projection_jobs := tbl_put k (new_job now) (projection_jobs d)\<rparr>)
         | Some j \<Rightarrow>
             if j_state j = DeadLetter
             then (Suc n, d\<lparr>projection_jobs := tbl_put k (j\<lparr>j_state := Pending, j_attempts := 0,
                    j_available_at := now, j_leased_by := None, j_leased_until := None,
                    j_last_error := None, j_updated_at := now\<rparr>) (projection_jobs d)\<rparr>)
             else (n, d))"

definition reconcile ::
    "timestamp \<Rightarrow> uuid option \<Rightarrow> timestamp option \<Rightarrow> timestamp option \<Rightarrow> db \<Rightarrow> nat \<times> db" where
  "reconcile now user from to d =
     fold (reconcile_one now) (map snd (filter (\<lambda>r. reconcile_wants user from to (snd r)) (changes d))) (0, d)"

end
