(* ===== verification/Projection_Queue.thy ===== *)
theory Projection_Queue
  imports Projection
begin

text \<open>
  The correctness of the projection: a change of one user never touches the rows of another,
  the queue of jobs keeps its invariant through every operation on it, and draining a batch
  ends with every job of the batch applied or dead-lettered.
\<close>

subsection \<open>Isolation\<close>

text \<open>The tables no projected change writes.\<close>

definition same_rest :: "db \<Rightarrow> db \<Rightarrow> bool" where
  "same_rest d d' \<longleftrightarrow>
     d'\<lparr>notebooks := notebooks d, tags := tags d, note_tags := note_tags d, resources := resources d,
        resource_blobs := resource_blobs d\<rparr> = d"

text \<open>What the other users own is as it was, and no row changes hands.\<close>

definition foreign_rows_kept :: "uuid \<Rightarrow> db \<Rightarrow> db \<Rightarrow> bool" where
  "foreign_rows_kept u d d' \<longleftrightarrow>
     (\<forall>i nb. tbl_get (notebooks d) i = Some nb \<longrightarrow>
        (\<exists>nb'. tbl_get (notebooks d') i = Some nb' \<and> nb_user_id nb' = nb_user_id nb \<and>
          (nb_user_id nb \<noteq> u \<longrightarrow> nb' = nb))) \<and>
     (\<forall>i t. tbl_get (tags d) i = Some t \<longrightarrow>
        (\<exists>t'. tbl_get (tags d') i = Some t' \<and> t_user_id t' = t_user_id t \<and>
          (t_user_id t \<noteq> u \<longrightarrow> t' = t))) \<and>
     (\<forall>i r. tbl_get (resources d) i = Some r \<longrightarrow>
        (\<exists>r'. tbl_get (resources d') i = Some r' \<and> r_user_id r' = r_user_id r \<and>
          (r_user_id r \<noteq> u \<longrightarrow> r' = r \<and> tbl_get (resource_blobs d') i = tbl_get (resource_blobs d) i))) \<and>
     (\<forall>k. fst k \<noteq> u \<longrightarrow> tbl_get (note_tags d') k = tbl_get (note_tags d) k)"

definition projects :: "uuid \<Rightarrow> db \<Rightarrow> db \<Rightarrow> bool" where
  "projects u d d' \<longleftrightarrow> same_rest d d' \<and> foreign_rows_kept u d d'"

lemma projects_refl [simp]: "projects u d d"
  by (simp add: projects_def same_rest_def foreign_rows_kept_def)

lemma with_retries_step:
  "with_retries n errs act d = Inr (x, d') \<Longrightarrow> \<exists>b. act d = Inr (b, d')"
  by (induction n errs act d rule: with_retries.induct)
    (auto simp: res_then_Inr_iff split: nat.splits if_splits)

lemma once_step: "once errs act d = Inr (x, d') \<Longrightarrow> \<exists>b. act d = Inr (b, d')"
  by (auto simp: once_def res_then_Inr_iff split: list.splits)

lemma projects_notebook:
  "upsert_notebook_on co u nb d = Inr (b, d') \<Longrightarrow> projects u d d'"
  "delete_notebook_on co u i ts vv w d = Inr (b, d') \<Longrightarrow> projects u d d'"
  by (auto simp: projects_def same_rest_def foreign_rows_kept_def upsert_notebook_on_def
      delete_notebook_on_def own_notebook_def split: option.splits if_splits)

lemma projects_tag:
  "upsert_tag co u t d = Inr (b, d') \<Longrightarrow> projects u d d'"
  "delete_tag co u i ts vv w d = Inr (b, d') \<Longrightarrow> projects u d d'"
  by (auto simp: projects_def same_rest_def foreign_rows_kept_def upsert_tag_def
      delete_tag_def own_tag_def split: option.splits if_splits)

lemma projects_note_tag:
  "upsert_note_tag co u n t ts dl vv w d = Inr (b, d') \<Longrightarrow> projects u d d'"
  by (auto simp: projects_def same_rest_def foreign_rows_kept_def upsert_note_tag_def Let_def
      split: option.splits if_splits)

lemma projects_resource:
  "apply_resource_create co u r data d = Inr (b, d') \<Longrightarrow> projects u d d'"
  "delete_resource co u i ts vv w d = Inr (b, d') \<Longrightarrow> projects u d d'"
  by (auto simp: projects_def same_rest_def foreign_rows_kept_def apply_resource_create_def
      delete_resource_def own_resource_def patch_resource_def new_resource_def put_blob_row_def
      split: option.splits if_splits)

lemma apply_change_projects:
  assumes "apply_change co errs u ch d = Inr (x, d')"
  shows "projects u d d'"
  using assms
  by (cases ch) (auto dest!: with_retries_step once_step
      dest: projects_notebook projects_tag projects_note_tag projects_resource)

lemma projects_kept:
  assumes "projects u d d'"
  shows "users d' = users d" "changes d' = changes d" "projection_jobs d' = projection_jobs d"
    "has_change v b i d' = has_change v b i d" "job_payload k d' = job_payload k d"
    "changes_next d' = changes_next d"
proof -
  have eq: "d'\<lparr>notebooks := notebooks d, tags := tags d, note_tags := note_tags d,
      resources := resources d, resource_blobs := resource_blobs d\<rparr> = d" (is "?e = d")
    using assms by (simp add: projects_def same_rest_def)
  show "users d' = users d" using arg_cong [OF eq, of users] by simp
  show "changes_next d' = changes_next d" using arg_cong [OF eq, of changes_next] by simp
  show ch: "changes d' = changes d" using arg_cong [OF eq, of changes] by simp
  show "projection_jobs d' = projection_jobs d" using arg_cong [OF eq, of projection_jobs] by simp
  from ch show "has_change v b i d' = has_change v b i d" "job_payload k d' = job_payload k d"
    by (simp_all add: has_change_def job_payload_def)
qed

subsection \<open>The invariant of the queue\<close>

text \<open>
  Every job has its change in the journal (the foreign key of \<open>projection_jobs\<close>), a live job
  has used fewer than five attempts, and a pending one none.
\<close>

definition job_ok :: "projection_job \<Rightarrow> bool" where
  "job_ok j \<longleftrightarrow> j_attempts j \<le> 5 \<and> (j_state j \<noteq> DeadLetter \<longrightarrow> j_attempts j < 5) \<and>
     (j_state j = Pending \<longrightarrow> j_attempts j = 0)"

definition queue_ok :: "db \<Rightarrow> bool" where
  "queue_ok d \<longleftrightarrow> tbl_ok (projection_jobs d) \<and>
     (\<forall>k j. tbl_get (projection_jobs d) k = Some j \<longrightarrow>
        job_ok j \<and> has_change (fst k) (fst (snd k)) (snd (snd k)) d)"

lemma queue_okI:
  assumes "tbl_ok (projection_jobs d)"
    and "\<And>u b i j. tbl_get (projection_jobs d) (u, b, i) = Some j \<Longrightarrow> job_ok j \<and> has_change u b i d"
  shows "queue_ok d"
  using assms by (auto simp: queue_ok_def)

lemma queue_okD:
  assumes "queue_ok d" and "tbl_get (projection_jobs d) (u, b, i) = Some j"
  shows "job_ok j" and "has_change u b i d"
  using assms by (fastforce simp: queue_ok_def)+

lemma job_ok_new [simp]: "job_ok (new_job now)"
  by (simp add: job_ok_def new_job_def)

lemma job_ok_finish:
  assumes "job_ok j" and "j_state j \<noteq> DeadLetter"
  shows "job_ok (finish_row sh now e j)"
  using assms by (auto simp: job_ok_def finish_row_def)

lemma has_change_jobs [simp]:
  "has_change u b i (d\<lparr>projection_jobs := js\<rparr>) = has_change u b i d"
  by (simp add: has_change_def)

lemma first_job_in: "first_job xs = Some x \<Longrightarrow> x \<in> set xs"
  by (induction xs) (auto split: option.splits if_splits)

lemma first_job_None [simp]: "first_job xs = None \<longleftrightarrow> xs = []"
  by (cases xs) (auto split: option.splits)

lemma claim_one_job:
  assumes "claim_one now locked user batch d = Some (k, payload)" and "tbl_ok (projection_jobs d)"
  shows "\<exists>j. tbl_get (projection_jobs d) k = Some j \<and> claimable now locked user batch d (k, j)"
proof -
  from assms(1) obtain j where
    "first_job (filter (claimable now locked user batch d) (projection_jobs d)) = Some (k, j)"
    by (auto simp: claim_one_def split: option.splits)
  from first_job_in [OF this] assms(2) show ?thesis by (auto simp: tbl_get_in_iff)
qed

lemma claim_one_live:
  assumes "claim_one now locked user batch d = Some (k, payload)" and "tbl_ok (projection_jobs d)"
  obtains j where "tbl_get (projection_jobs d) k = Some j" "j_state j \<noteq> DeadLetter"
    "user \<noteq> None \<Longrightarrow> user = Some (fst k)" "batch \<noteq> None \<Longrightarrow> batch = Some (fst (snd k))"
  using claim_one_job [OF assms] that by (auto simp: claimable_def split: prod.splits)

text \<open>The outcome of one job, before the job row is finished.\<close>

definition job_result :: "projector \<Rightarrow> nat \<Rightarrow> job_key \<Rightarrow> json \<Rightarrow> db \<Rightarrow> (unit \<times> db) result" where
  "job_result pj n k payload d =
     (case pj_decode pj payload of
        Inr ch \<Rightarrow> apply_change (pj_core pj) (pj_errs pj n) (fst k) ch d
      | Inl e \<Rightarrow> Inl (Internal (''invalid projection payload: '' @ e)))"

lemma job_result_projects: "job_result pj n k payload d = Inr (x, d') \<Longrightarrow> projects (fst k) d d'"
  by (auto simp: job_result_def intro: apply_change_projects split: sum.splits)

lemma run_job_eq:
  "run_job pj n k payload d =
     (case job_result pj n k payload d of
        Inr (_, d') \<Rightarrow> finish_job (pj_show pj) (pj_clock pj n) (pj_commit_err pj n) k (Inr ()) d'
      | Inl e \<Rightarrow> finish_job (pj_show pj) (pj_clock pj n) (pj_commit_err pj n) k (Inl e) d)"
  by (simp add: run_job_def job_result_def)

lemma run_job_kept:
  "users (run_job pj n k payload d) = users d" "changes (run_job pj n k payload d) = changes d"
  "has_change v b i (run_job pj n k payload d) = has_change v b i d"
  by (auto simp: run_job_eq finish_job_def projects_kept [OF job_result_projects] split: sum.splits option.splits)

text \<open>What a run does to the queue.\<close>

lemma run_job_jobs:
  "projection_jobs (run_job pj n k payload d) =
     (if pj_commit_err pj n \<noteq> None then projection_jobs d
      else case job_result pj n k payload d of
        Inr _ \<Rightarrow> tbl_del k (projection_jobs d)
      | Inl e \<Rightarrow> tbl_upd k (finish_row (pj_show pj) (pj_clock pj n) e) (projection_jobs d))"
  by (auto simp: run_job_eq finish_job_def projects_kept [OF job_result_projects] split: sum.splits option.splits)

lemma queue_ok_run:
  assumes "queue_ok d" and "claim_one now locked user batch d = Some (k, payload)"
  shows "queue_ok (run_job pj n k payload d)"
proof -
  have ok: "tbl_ok (projection_jobs d)" using assms(1) by (simp add: queue_ok_def)
  obtain j where j: "tbl_get (projection_jobs d) k = Some j" "j_state j \<noteq> DeadLetter"
    using claim_one_live [OF assms(2) ok] .
  have "job_ok j" using j(1) queue_okD(1) [OF assms(1)] by (cases k) auto
  then have fin: "job_ok (finish_row sh t e j)" for sh t e using j(2) by (rule job_ok_finish)
  show ?thesis
  proof (rule queue_okI)
    show "tbl_ok (projection_jobs (run_job pj n k payload d))"
      using ok by (auto simp: run_job_jobs split: sum.split)
    fix u b i j' assume "tbl_get (projection_jobs (run_job pj n k payload d)) (u, b, i) = Some j'"
    then show "job_ok j' \<and> has_change u b i (run_job pj n k payload d)"
      using fin j(1) queue_okD [OF assms(1)]
      by (auto simp: run_job_jobs run_job_kept split: if_splits sum.splits)
  qed
qed

lemma queue_ok_schedule: "queue_ok d \<Longrightarrow> queue_ok (schedule_batch now u b d)"
  by (rule queue_okI)
    (auto simp: schedule_batch_def tbl_get_upd_where job_ok_def queue_ok_def split: if_splits)

lemma queue_ok_reconcile_one:
  assumes "queue_ok d" and "has_change (c_user_id c) (c_batch_id c) (c_batch_index c) d"
  shows "queue_ok (snd (reconcile_one now c (n, d)))"
    and "changes (snd (reconcile_one now c (n, d))) = changes d"
  using assms
  by (auto simp: reconcile_one_def Let_def queue_ok_def job_ok_def new_job_def split: option.splits)

lemma queue_ok_reconcile_fold:
  assumes "queue_ok d" and "set cs \<subseteq> snd ` set (changes d)"
  shows "queue_ok (snd (fold (reconcile_one now) cs (n, d)))"
  using assms
proof (induction cs arbitrary: n d)
  case (Cons c cs)
  have "has_change (c_user_id c) (c_batch_id c) (c_batch_index c) d"
    using Cons.prems(2) by (auto simp: has_change_def)
  note one = queue_ok_reconcile_one [OF Cons.prems(1) this, of now n]
  show ?case
    using Cons.IH [OF one(1), of "fst (reconcile_one now c (n, d))"] Cons.prems(2) one(2) by simp
qed simp

lemma queue_ok_reconcile: "queue_ok d \<Longrightarrow> queue_ok (snd (reconcile now user from to d))"
  unfolding reconcile_def by (rule queue_ok_reconcile_fold) auto

lemma queue_ok_prune:
  assumes "queue_ok d"
  shows "queue_ok (snd (prune_delivered_changes older_than d))"
proof (rule queue_okI)
  show "tbl_ok (projection_jobs (snd (prune_delivered_changes older_than d)))"
    using assms by (simp add: prune_delivered_changes_def queue_ok_def)
  fix u b i j
  assume "tbl_get (projection_jobs (snd (prune_delivered_changes older_than d))) (u, b, i) = Some j"
  then have j: "tbl_get (projection_jobs d) (u, b, i) = Some j"
    by (simp add: prune_delivered_changes_def)
  from queue_okD(2) [OF assms j] obtain r where
    r: "r \<in> set (changes d)" "c_user_id (snd r) = u" "c_batch_id (snd r) = b" "c_batch_index (snd r) = i"
    by (auto simp: has_change_def)
  with j have "\<not> prunable older_than d (snd r)" by (simp add: prunable_def)
  with r have "has_change u b i (snd (prune_delivered_changes older_than d))"
    unfolding has_change_def by (intro bexI [of _ r]) (simp_all add: prune_delivered_changes_def tbl_del_where_def)
  with queue_okD(1) [OF assms j]
  show "job_ok j \<and> has_change u b i (snd (prune_delivered_changes older_than d))" by simp
qed

text \<open>The journal as the sequence numbers it.\<close>

definition numbered :: "db \<Rightarrow> bool" where
  "numbered d \<longleftrightarrow> journal_ok d \<and> 0 < changes_next d"

lemma numberedD: "numbered d \<Longrightarrow> journal_ok d"
  by (simp add: numbered_def)

lemma queue_ok_append_loop:
  assumes "queue_ok d" and "numbered d"
  shows "queue_ok (snd (append_loop now u o1 sd b i ps d)) \<and> numbered (snd (append_loop now u o1 sd b i ps d))"
  using assms
proof (induction now u o1 sd b i ps d rule: append_loop.induct)
  case (2 now u o1 sd b i p ps d)
  let ?d0 = "d\<lparr>changes_next := Suc (changes_next d)\<rparr>"
  have d0: "queue_ok ?d0" "numbered ?d0"
    using "2.prems" by (auto simp: queue_ok_def numbered_def journal_ok_def less_Suc_eq)
  show ?case
  proof (cases "has_change u b i d")
    case True
    with "2.IH"(1) [OF refl refl True d0] show ?thesis by (simp add: Let_def)
  next
    case False
    define row where "row = \<lparr>c_seq = changes_next d, c_user_id = u, c_origin_device_id = o1,
      c_batch_id = b, c_batch_index = i, c_sync_device_id = sd, c_payload = p, c_received_at = now\<rparr>"
    have none: "tbl_get (projection_jobs d) (u, b, i) = None"
      using False queue_okD(2) [OF "2.prems"(1)] by (cases "tbl_get (projection_jobs d) (u, b, i)") auto
    define d1 where "d1 = ?d0\<lparr>changes := tbl_put (changes_next d) row (changes d),
      projection_jobs := tbl_put (u, b, i) (new_job now) (projection_jobs d)\<rparr>"
    have "set (changes d1) = insert (changes_next d, row) (set (changes d))"
      by (simp add: d1_def tbl_put_set journal_fresh [OF numberedD [OF "2.prems"(2)]])
    then have grow: "has_change v b' i' d1 \<longleftrightarrow> has_change v b' i' d \<or> (v, b', i') = (u, b, i)" for v b' i'
      by (auto simp: has_change_def row_def)
    have jobs: "tbl_get (projection_jobs d1) k = (if k = (u, b, i) then Some (new_job now)
        else tbl_get (projection_jobs d) k)" for k by (simp add: d1_def)
    have "tbl_ok (projection_jobs d1)" using "2.prems"(1) by (simp add: d1_def queue_ok_def)
    then have "queue_ok d1"
      by (rule queue_okI) (use queue_okD [OF "2.prems"(1)] in \<open>auto simp: grow jobs split: if_splits\<close>)
    moreover have "numbered d1"
      using "2.prems"(2) by (auto simp: d1_def row_def numbered_def journal_ok_def less_Suc_eq split: if_splits)
    ultimately have "queue_ok (snd (append_loop now u o1 sd b (Suc i) ps d1)) \<and>
        numbered (snd (append_loop now u o1 sd b (Suc i) ps d1))"
      using "2.IH"(2) [OF refl refl False] none by (simp add: d1_def row_def)
    moreover have "snd (append_loop now u o1 sd b i (p # ps) d) = snd (append_loop now u o1 sd b (Suc i) ps d1)"
      using False none by (simp add: Let_def d1_def row_def case_prod_beta)
    ultimately show ?thesis by simp
  qed
qed simp

subsection \<open>Reachable queues\<close>

text \<open>
  The operations on the queue, in any order and number: batches arrive, jobs are claimed and
  run by any worker in whatever the database does, batches are rescheduled, jobs are
  reconciled, delivered changes are pruned, accounts are deleted. \<open>elsewhere\<close> is any statement
  that writes neither the journal nor the queue.
\<close>

inductive queue_step :: "db \<Rightarrow> db \<Rightarrow> bool" where
  arrive: "append_changes now u o1 sd b ps d = Inr (ins, d') \<Longrightarrow> queue_step d d'"
| run: "claim_one now locked user batch d = Some (k, payload) \<Longrightarrow> queue_step d (run_job pj n k payload d)"
| reschedule: "queue_step d (schedule_batch now u b d)"
| revive: "queue_step d (snd (reconcile now user from to d))"
| account_gone: "delete_user_on u d = Inr (x, d') \<Longrightarrow> queue_step d d'"
| elsewhere: "changes d' = changes d \<Longrightarrow> changes_next d' = changes_next d \<Longrightarrow>
    projection_jobs d' = projection_jobs d \<Longrightarrow> queue_step d d'"
| prune: "queue_step d (snd (prune_delivered_changes older_than d))"

inductive_cases queue_stepE: "queue_step d d'"

lemma numbered_run [simp]: "numbered (run_job pj n k payload d) = numbered d"
proof -
  have "changes_next (run_job pj n k payload d) = changes_next d"
    by (auto simp: run_job_eq finish_job_def projects_kept [OF job_result_projects] split: sum.splits option.splits)
  then show ?thesis by (simp add: numbered_def journal_ok_def run_job_kept)
qed

lemma numbered_reconcile [simp]: "numbered (snd (reconcile now user from to d)) = numbered d"
proof -
  have one: "changes (snd (reconcile_one now c acc)) = changes (snd acc) \<and>
      changes_next (snd (reconcile_one now c acc)) = changes_next (snd acc)" for c acc
    by (simp add: reconcile_one_def Let_def split: prod.splits option.splits)
  have "changes (snd (fold (reconcile_one now) cs acc)) = changes (snd acc) \<and>
      changes_next (snd (fold (reconcile_one now) cs acc)) = changes_next (snd acc)" for cs acc
    by (induction cs arbitrary: acc) (simp_all add: one)
  from this [of _ "(0, d)"] show ?thesis by (simp add: reconcile_def numbered_def journal_ok_def)
qed

lemma numbered_prune: "numbered d \<Longrightarrow> numbered (snd (prune_delivered_changes older_than d))"
  by (auto simp: numbered_def journal_ok_def prune_delivered_changes_def tbl_get_del_where
      split: option.splits if_splits)

lemma queue_ok_account_gone:
  assumes "delete_user_on u d = Inr (x, d')" and "queue_ok d"
  shows "queue_ok d'"
proof (cases "tbl_get (users d) u")
  case None
  with assms show ?thesis by (simp add: delete_user_on_def)
next
  case (Some usr)
  with assms(1) have jobs: "projection_jobs d' = projection_jobs d" "\<forall>j\<in>set (projection_jobs d). fst (fst j) \<noteq> u"
    and ch: "set (changes d') = {r \<in> set (changes d). c_user_id (snd r) \<noteq> u}"
    by (auto simp: delete_user_on_def Let_def tbl_del_where_def split: if_splits)
  show ?thesis
  proof (rule queue_okI)
    show "tbl_ok (projection_jobs d')" using jobs assms(2) by (simp add: queue_ok_def)
    fix v b i j assume "tbl_get (projection_jobs d') (v, b, i) = Some j"
    then have j: "tbl_get (projection_jobs d) (v, b, i) = Some j" by (simp add: jobs)
    from bspec [OF jobs(2) tbl_get_Some_in [OF j]] have "v \<noteq> u" by simp
    from queue_okD(2) [OF assms(2) j] obtain r where
      "r \<in> set (changes d)" "c_user_id (snd r) = v" "c_batch_id (snd r) = b" "c_batch_index (snd r) = i"
      by (auto simp: has_change_def)
    with \<open>v \<noteq> u\<close> have "has_change v b i d'" unfolding has_change_def ch by (intro bexI [of _ r]) simp_all
    with queue_okD(1) [OF assms(2) j] show "job_ok j \<and> has_change v b i d'" by simp
  qed
qed

lemma numbered_account_gone: "delete_user_on u d = Inr (x, d') \<Longrightarrow> numbered d \<Longrightarrow> numbered d'"
  by (auto simp: delete_user_on_def Let_def numbered_def journal_ok_def tbl_get_del_where
      split: option.splits if_splits)

lemma queue_ok_same:
  assumes "queue_ok d" and "numbered d" and "changes d' = changes d" and "changes_next d' = changes_next d"
    and "projection_jobs d' = projection_jobs d"
  shows "queue_ok d' \<and> numbered d'"
  using assms by (simp add: queue_ok_def numbered_def journal_ok_def has_change_def)

lemma queue_step_ok:
  assumes "queue_step d d'" and "queue_ok d" and "numbered d"
  shows "queue_ok d' \<and> numbered d'"
  using assms
proof (cases rule: queue_step.cases)
  case (arrive now u o1 sd b ps ins)
  with queue_ok_append_loop [OF assms(2,3), of now u o1 sd b 0 ps] show ?thesis
    by (auto simp: append_changes_def split: if_splits)
next
  case (reschedule now u b)
  with assms(2,3) show ?thesis
    using queue_ok_schedule by (simp add: numbered_def journal_ok_def) (simp add: schedule_batch_def)
next
  case elsewhere
  with queue_ok_same [OF assms(2,3)] show ?thesis by simp
qed (simp_all add: queue_ok_run queue_ok_reconcile queue_ok_prune numbered_prune
    queue_ok_account_gone numbered_account_gone)

subsection \<open>Draining a batch\<close>

text \<open>The attempts the live jobs of a queue have left.\<close>

definition budget :: "job_key \<times> projection_job \<Rightarrow> nat" where
  "budget r = (if j_state (snd r) = DeadLetter then 0 else 5 - j_attempts (snd r))"

definition total_budget :: "db \<Rightarrow> nat" where
  "total_budget d = sum_list (map budget (projection_jobs d))"

lemma sum_list_map_less:
  fixes f g :: "'a \<Rightarrow> nat"
  assumes "\<And>x. x \<in> set xs \<Longrightarrow> f x \<le> g x" and "y \<in> set xs" and "f y < g y"
  shows "sum_list (map f xs) < sum_list (map g xs)"
proof -
  from assms(2) obtain ys zs where xs: "xs = ys @ y # zs" by (meson split_list)
  have "sum_list (map f ys) \<le> sum_list (map g ys)" "sum_list (map f zs) \<le> sum_list (map g zs)"
    using assms(1) xs by (auto intro!: sum_list_mono)
  with assms(3) xs show ?thesis by simp
qed

lemma sum_list_filter_zero:
  fixes f :: "'a \<Rightarrow> nat"
  shows "sum_list (map f (filter P xs)) = sum_list (map (\<lambda>x. if P x then f x else 0) xs)"
  by (induction xs) simp_all

lemma finish_budget:
  assumes "\<not> is_serialization_failure e" and "budget (k, j) > 0"
  shows "budget (k, finish_row sh now e j) < budget (k, j)"
  using assms by (auto simp: budget_def finish_row_def split: if_splits)

lemma run_job_budget:
  assumes "tbl_get (projection_jobs d) k = Some j" and "budget (k, j) > 0" and "tbl_ok (projection_jobs d)"
    and "pj_commit_err pj n = None"
    and "\<And>e. job_result pj n k payload d = Inl e \<Longrightarrow> \<not> is_serialization_failure e"
  shows "total_budget (run_job pj n k payload d) < total_budget d"
proof -
  have jin: "(k, j) \<in> set (projection_jobs d)" using assms(1) by (rule tbl_get_Some_in)
  have only: "snd r = j" if "r \<in> set (projection_jobs d)" "fst r = k" for r
    using that assms(1) tbl_get_in_iff [OF assms(3), of k "snd r"] by auto
  show ?thesis
  proof (cases "job_result pj n k payload d")
    case (Inl e)
    let ?f = "\<lambda>r. budget (if fst r = k then (fst r, finish_row (pj_show pj) (pj_clock pj n) e (snd r)) else r)"
    have less: "budget (k, finish_row (pj_show pj) (pj_clock pj n) e j) < budget (k, j)"
      using assms(5) [OF Inl] assms(2) by (rule finish_budget)
    have "?f r \<le> budget r" if "r \<in> set (projection_jobs d)" for r
      using only [OF that] less by (cases r) auto
    then have "sum_list (map ?f (projection_jobs d)) < sum_list (map budget (projection_jobs d))"
      by (rule sum_list_map_less [OF _ jin]) (use less in auto)
    moreover have "total_budget (run_job pj n k payload d) = sum_list (map ?f (projection_jobs d))"
      using Inl assms(4) by (simp add: total_budget_def run_job_jobs tbl_upd_def comp_def)
    ultimately show ?thesis by (simp add: total_budget_def)
  next
    case (Inr x)
    have "sum_list (map (\<lambda>r. if fst r \<noteq> k then budget r else 0) (projection_jobs d))
        < sum_list (map budget (projection_jobs d))"
      by (rule sum_list_map_less [OF _ jin]) (use assms(2) in auto)
    with Inr assms(4) show ?thesis
      by (simp add: total_budget_def run_job_jobs tbl_del_def sum_list_filter_zero)
  qed
qed

lemma with_retries_error:
  "with_retries n errs act d = Inl e \<Longrightarrow> e \<in> set errs \<or> act d = Inl e"
  by (induction n errs act d rule: with_retries.induct)
    (auto simp: res_then_Inl_iff split: nat.splits if_splits)

lemma once_error: "once errs act d = Inl e \<Longrightarrow> e \<in> set errs \<or> act d = Inl e"
  by (auto simp: once_def res_then_Inl_iff split: list.splits)

text \<open>The errors of the projected statements themselves.\<close>

lemma statement_errors:
  "upsert_notebook_on co u nb d = Inl e \<Longrightarrow> e = foreign_key_violation \<and> tbl_get (users d) u = None"
  "delete_notebook_on co u i ts vv w d = Inl e \<Longrightarrow> e = foreign_key_violation \<and> tbl_get (users d) u = None"
  "upsert_tag co u t d = Inl e \<Longrightarrow> e = foreign_key_violation \<and> tbl_get (users d) u = None"
  "delete_tag co u i ts vv w d = Inl e \<Longrightarrow> e = foreign_key_violation \<and> tbl_get (users d) u = None"
  "upsert_note_tag co u nt i ts dl vv w d = Inl e \<Longrightarrow> e = foreign_key_violation \<and> tbl_get (users d) u = None"
  "apply_resource_create co u r data d = Inl e \<Longrightarrow>
     (e = foreign_key_violation \<and> tbl_get (users d) u = None) \<or>
     e = Internal ''invalid projection payload: resource id belongs to another user''"
  "delete_resource co u i ts vv w d \<noteq> Inl e"
  by (auto simp: upsert_notebook_on_def delete_notebook_on_def upsert_tag_def delete_tag_def
      upsert_note_tag_def apply_resource_create_def delete_resource_def Let_def split: option.splits if_splits)

lemma apply_change_error:
  assumes "apply_change co errs u ch d = Inl e"
  shows "e \<in> set errs \<or> (e = foreign_key_violation \<and> tbl_get (users d) u = None) \<or>
    e = Internal ''invalid projection payload: resource id belongs to another user''"
  using assms
  by (cases ch) (auto dest!: with_retries_error once_error dest: statement_errors(1-6) simp: statement_errors(7))

lemma job_result_error:
  assumes "job_result pj n k payload d = Inl e"
  shows "e \<in> set (pj_errs pj n) \<or> (e = foreign_key_violation \<and> tbl_get (users d) (fst k) = None) \<or>
    is_permanent_failure e \<and> \<not> is_serialization_failure e"
proof (cases "pj_decode pj payload")
  case (Inl s)
  with assms show ?thesis
    by (auto simp: job_result_def is_permanent_failure_def is_serialization_failure_def is_prefix_def)
next
  case (Inr ch)
  with assms apply_change_error [of "pj_core pj" "pj_errs pj n" "fst k" ch d e] show ?thesis
    by (auto simp: job_result_def is_permanent_failure_def is_serialization_failure_def is_prefix_def)
qed

text \<open>With the budget as the measure, the unbounded loop ends.\<close>

lemma claimed_budget:
  assumes "queue_ok d" and "claim_one now locked user batch d = Some (k, payload)"
  obtains j where "tbl_get (projection_jobs d) k = Some j" "budget (k, j) > 0" "tbl_ok (projection_jobs d)"
proof -
  have ok: "tbl_ok (projection_jobs d)" using assms(1) by (simp add: queue_ok_def)
  obtain j where j: "tbl_get (projection_jobs d) k = Some j" "j_state j \<noteq> DeadLetter"
    using claim_one_live [OF assms(2) ok] .
  have "job_ok j" using j(1) queue_okD(1) [OF assms(1)] by (cases k) auto
  with j ok that show ?thesis by (simp add: budget_def job_ok_def)
qed

lemma drain_batch_loop_ends:
  assumes "queue_ok d" and "total_budget d < fuel"
    and "\<And>m. pj_commit_err pj m = None" and "\<And>m e. e \<in> set (pj_errs pj m) \<Longrightarrow> \<not> is_serialization_failure e"
  shows "\<exists>d'. drain_batch_loop pj u b n fuel d = Some d' \<and> queue_ok d'"
  using assms(1,2)
proof (induction fuel arbitrary: n d)
  case (Suc fuel)
  show ?case
  proof (cases "claim_one (pj_clock pj n) (pj_locked pj n) (Some u) (Some b) d")
    case None
    with Suc.prems show ?thesis by simp
  next
    case (Some kp)
    obtain k payload where kp: "kp = (k, payload)" by (cases kp)
    note claim = Some [unfolded kp]
    obtain j where "tbl_get (projection_jobs d) k = Some j" "budget (k, j) > 0" "tbl_ok (projection_jobs d)"
      using claimed_budget [OF Suc.prems(1) claim] .
    moreover have "\<not> is_serialization_failure e" if "job_result pj n k payload d = Inl e" for e
      using job_result_error [OF that] assms(4) by (auto simp: is_serialization_failure_def)
    ultimately have "total_budget (run_job pj n k payload d) < total_budget d"
      using assms(3) by (intro run_job_budget) auto
    with Suc.prems(2) have "total_budget (run_job pj n k payload d) < fuel" by simp
    from Suc.IH [OF queue_ok_run [OF Suc.prems(1) claim] this, of "Suc n"] Suc.prems(1) claim
    show ?thesis by auto
  qed
qed simp

text \<open>A worker alone on a database that reports no errors, with a clock that does not go back.\<close>

definition quiet_projector :: "projector \<Rightarrow> bool" where
  "quiet_projector pj \<longleftrightarrow> \<not> pj_schedule_err pj \<and>
     (\<forall>n. pj_errs pj n = [] \<and> pj_commit_err pj n = None \<and> \<not> pj_claim_err pj n \<and>
          (\<forall>k. \<not> pj_locked pj n k) \<and> pj_clock pj n \<le> pj_clock pj (Suc n))"

definition ready :: "timestamp \<Rightarrow> uuid \<Rightarrow> uuid \<Rightarrow> db \<Rightarrow> bool" where
  "ready now u b d \<longleftrightarrow>
     (\<forall>i j. tbl_get (projection_jobs d) (u, b, i) = Some j \<and> j_state j \<noteq> DeadLetter \<longrightarrow> j_available_at j \<le> now)"

lemma has_change_payload:
  assumes "has_change u b i d"
  shows "job_payload (u, b, i) d \<noteq> None"
proof
  assume "job_payload (u, b, i) d = None"
  then have "\<not> has_change u b i d" unfolding job_payload_def has_change_def by (force simp: find_None_iff)
  with assms show False by simp
qed

lemma total_budget_schedule [simp]: "total_budget (schedule_batch t u b d) = total_budget d"
  by (auto simp: total_budget_def schedule_batch_def tbl_upd_where_def budget_def intro!: arg_cong [where f = sum_list])

lemma ready_schedule: "ready t u b (schedule_batch t u b d)"
proof -
  have "j_available_at j \<le> t"
    if "tbl_get (projection_jobs (schedule_batch t u b d)) (u, b, i) = Some j" "j_state j \<noteq> DeadLetter" for i j
  proof -
    have "\<exists>z. j = (if j_state z \<in> {Pending, Retry} then z\<lparr>j_available_at := t, j_updated_at := t\<rparr> else z)"
    proof (cases "tbl_get (projection_jobs d) (u, b, i)")
      case None
      with that(1) show ?thesis by (simp add: schedule_batch_def tbl_get_upd_where)
    next
      case (Some z)
      with that(1) show ?thesis by (intro exI [of _ z]) (simp add: schedule_batch_def tbl_get_upd_where)
    qed
    then obtain z where z: "j = (if j_state z \<in> {Pending, Retry} then z\<lparr>j_available_at := t, j_updated_at := t\<rparr> else z)" ..
    then have "j_state z = j_state j" by simp
    with that(2) have "j_state z \<in> {Pending, Retry}" by (cases "j_state z") auto
    with z show ?thesis by simp
  qed
  then show ?thesis by (auto simp: ready_def)
qed

lemma claim_one_None_ready:
  assumes "claim_one now locked (Some u) (Some b) d = None" and "ready now u b d" and "queue_ok d"
    and "\<And>k. \<not> locked k" and "tbl_get (projection_jobs d) (u, b, i) = Some j"
  shows "j_state j = DeadLetter"
proof (rule ccontr)
  assume live: "j_state j \<noteq> DeadLetter"
  let ?jobs = "filter (claimable now locked (Some u) (Some b) d) (projection_jobs d)"
  have "claimable now locked (Some u) (Some b) d ((u, b, i), j)"
    using live assms(2,4,5) queue_okD(2) [OF assms(3,5)]
    by (cases "j_state j") (auto simp: claimable_def ready_def)
  with tbl_get_Some_in [OF assms(5)] have "?jobs \<noteq> []" by (auto simp: filter_empty_conv)
  then obtain k j' where f: "first_job ?jobs = Some (k, j')" by (metis first_job_None option.exhaust prod.exhaust)
  from first_job_in [OF f] have "has_change (fst k) (fst (snd k)) (snd (snd k)) d"
    by (auto simp: claimable_def)
  then have "job_payload k d \<noteq> None" using has_change_payload [of "fst k" "fst (snd k)" "snd (snd k)" d] by simp
  with f assms(1) show False by (auto simp: claim_one_def)
qed

lemma quiet_run:
  assumes "quiet_projector pj" and "tbl_get (users d) (fst k) \<noteq> None" and "k' = k \<Longrightarrow> tbl_get (projection_jobs d) k \<noteq> None"
    and "tbl_get (projection_jobs (run_job pj n k payload d)) k' = Some j'"
  shows "if k' = k then j_state j' = DeadLetter else tbl_get (projection_jobs d) k' = Some j'"
proof -
  have "is_permanent_failure e \<and> \<not> is_serialization_failure e" if "job_result pj n k payload d = Inl e" for e
    using job_result_error [OF that] assms(1,2) by (auto simp: quiet_projector_def)
  with assms show ?thesis
    by (auto simp: run_job_jobs quiet_projector_def finish_row_def split: sum.splits if_splits)
qed

lemma drain_batch_loop_completes:
  assumes "quiet_projector pj" and "queue_ok d" and "ready (pj_clock pj n) u b d"
    and "tbl_get (users d) u \<noteq> None" and "drain_batch_loop pj u b n fuel d = Some d'"
  shows "(\<forall>i j. tbl_get (projection_jobs d') (u, b, i) = Some j \<longrightarrow> j_state j = DeadLetter) \<and>
    (\<forall>k. fst k \<noteq> u \<or> fst (snd k) \<noteq> b \<longrightarrow> tbl_get (projection_jobs d') k = tbl_get (projection_jobs d) k)"
  using assms(2-)
proof (induction fuel arbitrary: n d)
  case (Suc fuel)
  have free: "\<not> pj_locked pj n k" "\<not> pj_claim_err pj n" for k
    using assms(1) by (cases k; simp add: quiet_projector_def)+
  show ?case
  proof (cases "claim_one (pj_clock pj n) (pj_locked pj n) (Some u) (Some b) d")
    case None
    with Suc.prems free claim_one_None_ready [OF None Suc.prems(2,1)] show ?thesis by auto
  next
    case (Some kp)
    obtain k payload where kp: "kp = (k, payload)" by (cases kp)
    note claim = Some [unfolded kp]
    let ?d = "run_job pj n k payload d"
    obtain j where j: "tbl_get (projection_jobs d) k = Some j" and k: "u = fst k" "b = fst (snd k)"
      using claim_one_live [OF claim] Suc.prems(1) by (auto simp: queue_ok_def)
    have run: "if k' = k then j_state j' = DeadLetter else tbl_get (projection_jobs d) k' = Some j'"
      if "tbl_get (projection_jobs ?d) k' = Some j'" for k' j'
      using quiet_run [OF assms(1) _ _ that] Suc.prems(3) j k by auto
    have "pj_clock pj n \<le> pj_clock pj (Suc n)" using assms(1) by (simp add: quiet_projector_def)
    then have "ready (pj_clock pj (Suc n)) u b ?d"
      using run Suc.prems(2) by (fastforce simp: ready_def split: if_splits)
    from Suc.IH [OF queue_ok_run [OF Suc.prems(1) claim] this] Suc.prems(3,4) claim free k
    show ?thesis by (auto simp: run_job_kept run_job_jobs split: sum.splits if_splits)
  qed
qed simp

subsection \<open>Properties\<close>



text \<open>
  C37: the loop of \<open>drain_batch\<close> ends. As long as commits succeed and no serialization failure
  is reported, fuel above the attempts the live jobs have left is enough, whatever other
  errors occur, since each turn deletes a job, dead-letters it or uses up an attempt.
\<close>

theorem drain_batch_ends:
  assumes "queue_ok d" and "total_budget d < fuel"
    and "\<forall>m. pj_commit_err pj m = None"
    and "\<forall>m. \<forall>e\<in>set (pj_errs pj m). \<not> is_serialization_failure e"
  shows "\<exists>d'. drain_batch pj u b n fuel d = Some d' \<and> queue_ok d'"
proof -
  have "total_budget (schedule_batch (pj_clock pj n) u b d) < fuel" using assms(2) by simp
  from drain_batch_loop_ends [OF queue_ok_schedule [OF assms(1)] this] assms(1,3,4)
  show ?thesis by (auto simp: drain_batch_def)
qed


subsection \<open>Closed instances\<close>

definition queue_db :: db where
  "queue_db = one_change_db\<lparr>projection_jobs := [((1, 100, 0), new_job 0)]\<rparr>"

definition plain_projector :: projector where
  "plain_projector = \<lparr>pj_core = ref_core, pj_decode = (\<lambda>_. Inr (TagDelete 9 6 Map.empty ''v'')),
     pj_show = (\<lambda>_. []), pj_clock = (\<lambda>n. int n), pj_errs = (\<lambda>_. []), pj_commit_err = (\<lambda>_. None),
     pj_locked = (\<lambda>_ _. False), pj_claim_err = (\<lambda>_. False), pj_schedule_err = False\<rparr>"

lemma queue_db_ok: "queue_ok queue_db" "total_budget queue_db < 6" "tbl_get (users queue_db) 1 \<noteq> None"
  by (auto simp: queue_ok_def queue_db_def one_change_db_def race_db_def tbl_defs has_change_def
      total_budget_def budget_def new_job_def job_ok_def)

lemma plain_projector_quiet: "quiet_projector plain_projector"
  by (simp add: quiet_projector_def plain_projector_def)



theorem drain_batch_ends_witness:
  "\<exists>d'. drain_batch plain_projector 1 100 0 6 queue_db = Some d' \<and> queue_ok d'"
  by (rule drain_batch_ends) (use queue_db_ok in \<open>simp_all add: plain_projector_def\<close>)


end
