(* ===== verification/Sync_Relay.thy ===== *)
theory Sync_Relay
  imports Projection_Queue Authentication
begin

text \<open>
  \<open>sync.rs\<close>: the relay between the devices of a user. The hub keeps one fan-out channel per
  user; a connection holds the address of its channel and its own receiver. A receiver is the
  bounded queue of \<open>tokio::sync::broadcast\<close>: a full one loses its oldest message and is told
  how many it missed. Parsing of a frame, of identifiers, and the outcome of every send and
  statement are inputs; a text frame on the wire is read as its JSON value.
\<close>

subsection \<open>The hub\<close>

definition FANOUT_CAPACITY :: nat where
  "FANOUT_CAPACITY = 256"

record fanout_batch =
  fb_origin :: uuid
  fb_frame :: json

datatype fanout_msg = Batch fanout_batch | Rescan

record receiver =
  rx_msgs :: "fanout_msg list"
  rx_missed :: nat

record sync_hub =
  hb_channels :: "(uuid, nat) table"
  hb_heap :: "(nat, (nat, receiver) table) table"
  hb_next_chan :: nat
  hb_next_rx :: nat

definition empty_hub :: sync_hub where
  "empty_hub = \<lparr>hb_channels = [], hb_heap = [], hb_next_chan = 0, hb_next_rx = 0\<rparr>"

definition push_msg :: "fanout_msg \<Rightarrow> receiver \<Rightarrow> receiver" where
  "push_msg m r =
     (if length (rx_msgs r) < FANOUT_CAPACITY then r\<lparr>rx_msgs := rx_msgs r @ [m]\<rparr>
      else r\<lparr>rx_msgs := tl (rx_msgs r) @ [m], rx_missed := Suc (rx_missed r)\<rparr>)"

definition receivers :: "nat \<Rightarrow> sync_hub \<Rightarrow> (nat, receiver) table" where
  "receivers a hub = (case tbl_get (hb_heap hub) a of Some rs \<Rightarrow> rs | None \<Rightarrow> [])"

definition chan_send :: "nat \<Rightarrow> fanout_msg \<Rightarrow> sync_hub \<Rightarrow> sync_hub" where
  "chan_send a m hub = hub\<lparr>hb_heap := tbl_upd a (map (\<lambda>(x, r). (x, push_msg m r))) (hb_heap hub)\<rparr>"

datatype fanned = Got fanout_msg | Lagged nat | Nothing

definition chan_recv :: "nat \<Rightarrow> nat \<Rightarrow> sync_hub \<Rightarrow> fanned \<times> sync_hub" where
  "chan_recv a x hub =
     (case tbl_get (receivers a hub) x of
        None \<Rightarrow> (Nothing, hub)
      | Some r \<Rightarrow>
          if rx_missed r > 0
          then (Lagged (rx_missed r),
                hub\<lparr>hb_heap := tbl_upd a (tbl_put x (r\<lparr>rx_missed := 0\<rparr>)) (hb_heap hub)\<rparr>)
          else case rx_msgs r of
            [] \<Rightarrow> (Nothing, hub)
          | m # ms \<Rightarrow> (Got m, hub\<lparr>hb_heap := tbl_upd a (tbl_put x (r\<lparr>rx_msgs := ms\<rparr>)) (hb_heap hub)\<rparr>))"

definition drop_rx :: "nat \<Rightarrow> nat \<Rightarrow> sync_hub \<Rightarrow> sync_hub" where
  "drop_rx a x hub = hub\<lparr>hb_heap := tbl_upd a (tbl_del x) (hb_heap hub)\<rparr>"

definition receiver_count :: "nat \<Rightarrow> sync_hub \<Rightarrow> nat" where
  "receiver_count a hub = length (receivers a hub)"

definition live_users :: "sync_hub \<Rightarrow> nat" where
  "live_users hub = length (hb_channels hub)"

definition wake_user :: "uuid \<Rightarrow> sync_hub \<Rightarrow> sync_hub" where
  "wake_user user_id hub =
     (case tbl_get (hb_channels hub) user_id of
        Some a \<Rightarrow> chan_send a Rescan hub
      | None \<Rightarrow> hub)"

definition hub_channel :: "uuid \<Rightarrow> sync_hub \<Rightarrow> nat \<times> sync_hub" where
  "hub_channel user_id hub =
     (case tbl_get (hb_channels hub) user_id of
        Some a \<Rightarrow> (a, hub)
      | None \<Rightarrow> (hb_next_chan hub,
          hub\<lparr>hb_channels := tbl_put user_id (hb_next_chan hub) (hb_channels hub),
              hb_heap := tbl_put (hb_next_chan hub) [] (hb_heap hub),
              hb_next_chan := Suc (hb_next_chan hub)\<rparr>))"

definition hub_join :: "uuid \<Rightarrow> sync_hub \<Rightarrow> (nat \<times> nat) \<times> sync_hub" where
  "hub_join user_id hub =
     (let (a, hub1) = hub_channel user_id hub;
          x = hb_next_rx hub1
      in ((a, x), hub1\<lparr>hb_heap := tbl_upd a (tbl_put x \<lparr>rx_msgs = [], rx_missed = 0\<rparr>) (hb_heap hub1),
                      hb_next_rx := Suc x\<rparr>))"

definition hub_leave :: "uuid \<Rightarrow> sync_hub \<Rightarrow> sync_hub" where
  "hub_leave user_id hub =
     (case tbl_get (hb_channels hub) user_id of
        Some a \<Rightarrow>
          if receiver_count a hub = 0 then hub\<lparr>hb_channels := tbl_del user_id (hb_channels hub)\<rparr> else hub
      | None \<Rightarrow> hub)"

subsection \<open>Connections\<close>

text \<open>A text frame carries its parse, \<open>None\<close> where it is not JSON.\<close>

datatype relay_frame = RText "json option" | RClose | ROther | RError string

text \<open>\<open>rv_ok k\<close> tells whether the \<open>k\<close>-th send of the current step succeeds.\<close>

record relay_env =
  rv_app :: app_state
  rv_lib :: auth_lib
  rv_instance :: uuid
  rv_now :: timestamp
  rv_uuid_parse :: "string \<Rightarrow> uuid option"
  rv_new_uuid :: uuid
  rv_pj :: projector
  rv_fuel :: nat
  rv_fails :: "string \<Rightarrow> sqlx_error option"
  rv_ok :: "nat \<Rightarrow> bool"

record relay_world =
  rw_hub :: sync_hub
  rw_db :: db
  rw_notified :: "(string \<times> string) list"

text \<open>\<open>None\<close> is a socket that closed or sent nothing in time.\<close>

definition authenticate :: "relay_env \<Rightarrow> relay_frame option \<Rightarrow> db \<Rightarrow> user_device option" where
  "authenticate env frame d =
     (case frame of
        Some (RText (Some v)) \<Rightarrow>
          if json_at v ''type'' \<noteq> JStr ''auth'' then None
          else (case json_str (json_at v ''token'') of
                  None \<Rightarrow> None
                | Some token \<Rightarrow>
                    (case verify_token (rv_lib env) (rv_now env) token (jwt_secret (app_config (rv_app env))) of
                       Inl _ \<Rightarrow> None
                     | Inr claims \<Rightarrow>
                         if rv_fails env ''get_device'' \<noteq> None then None
                         else (case get_device (au_device_id claims) d of
                                 Some device \<Rightarrow>
                                   if d_user_id device = au_user_id claims then Some device else None
                               | None \<Rightarrow> None)))
      | _ \<Rightarrow> None)"

definition changes_frame :: "json list \<Rightarrow> json" where
  "changes_frame payloads = JObj [(''type'', JStr ''changes''), (''changes'', JArr payloads)]"

definition relay_notify :: "relay_env \<Rightarrow> string \<Rightarrow> string \<Rightarrow> relay_world \<Rightarrow> relay_world" where
  "relay_notify env channel payload w =
     (case rv_fails env ''notify'' of
        Some _ \<Rightarrow> w
      | None \<Rightarrow> w\<lparr>rw_notified := rw_notified w @ [(channel, payload)]\<rparr>)"

definition incoming_changes :: "json \<Rightarrow> json list" where
  "incoming_changes v =
     (if json_at v ''type'' \<noteq> JStr ''changes'' then []
      else case json_at v ''changes'' of JArr cs \<Rightarrow> cs | _ \<Rightarrow> [])"

definition batch_id_of :: "relay_env \<Rightarrow> json \<Rightarrow> uuid" where
  "batch_id_of env v =
     (case json_str (json_at v ''batch_id'') of
        Some s \<Rightarrow> (case rv_uuid_parse env s of Some b \<Rightarrow> b | None \<Rightarrow> rv_new_uuid env)
      | None \<Rightarrow> rv_new_uuid env)"

text \<open>
  The outer \<open>None\<close> is a \<open>drain_batch\<close> that used up its fuel. The new rows are committed before
  they are fanned out to the connections of this instance and announced to the others.
\<close>

definition fan_out ::
    "relay_env \<Rightarrow> nat \<Rightarrow> uuid \<Rightarrow> uuid \<Rightarrow> (nat \<times> json) list \<Rightarrow> db \<Rightarrow> relay_world \<Rightarrow> relay_world" where
  "fan_out env a user_id device_id inserted d1 w =
     (let w1 = w\<lparr>rw_db := d1, rw_hub := chan_send a (Batch \<lparr>fb_origin = device_id,
            fb_frame = changes_frame (map snd inserted)\<rparr>) (rw_hub w)\<rparr>;
          w2 = relay_notify env ''sync_batch'' (uuid_str (app_core (rv_app env)) user_id @ '':''
            @ uuid_str (app_core (rv_app env)) (rv_instance env)) w1
      in w2\<lparr>rw_db := drain_available (rv_pj env) (Some user_id) 0 64 (rw_db w2)\<rparr>)"

definition handle_incoming ::
    "relay_env \<Rightarrow> nat \<Rightarrow> uuid \<Rightarrow> uuid \<Rightarrow> json option \<Rightarrow> relay_world \<Rightarrow> (unit result \<times> relay_world) option" where
  "handle_incoming env a user_id device_id text w =
     (case text of
        None \<Rightarrow> Some (Inr (), w)
      | Some v \<Rightarrow>
          if incoming_changes v = [] then Some (Inr (), w)
          else
            case rv_fails env ''append_changes'' of
              Some e \<Rightarrow> Some (Inl (Database e), w)
            | None \<Rightarrow>
                (case append_changes (rv_now env) user_id device_id
                        (coalesce (json_str (json_at v ''device_id'')) []) (batch_id_of env v)
                        (incoming_changes v) (rw_db w) of
                   Inl e \<Rightarrow> Some (Inl e, w)
                 | Inr (inserted, d1) \<Rightarrow>
                     if inserted = []
                     then map_option (\<lambda>d2. (Inr (), w\<lparr>rw_db := d2\<rparr>))
                            (drain_batch (rv_pj env) user_id (batch_id_of env v) 0 (rv_fuel env) d1)
                     else Some (Inr (), fan_out env a user_id device_id inserted d1 w)))"

datatype relay_event = Incoming relay_frame | EndOfStream | PingTick | Fanned

record relay_conn =
  rc_user :: uuid
  rc_device :: uuid
  rc_chan :: nat
  rc_rx :: nat

definition socket_closed :: app_error where
  "socket_closed = Internal ''socket closed''"

definition relay_backlog ::
    "relay_env \<Rightarrow> relay_conn \<Rightarrow> relay_world \<Rightarrow> json list \<times> app_error option \<times> relay_world" where
  "relay_backlog env c w =
     (let (frames, e, d') = deliver_backlog (rv_ok env) (rc_user c) (rc_device c) (rw_db w)
      in (map changes_frame frames, e, w\<lparr>rw_db := d'\<rparr>))"

text \<open>
  One turn of the loop: the frames the device was sent, the result of the loop where it ends,
  and the state. The receiver is never \<open>Closed\<close>: the connection holds a sender of its channel.
\<close>

type_synonym turn = "json list \<times> unit result option \<times> relay_world"

definition backlog_turn :: "json list \<times> app_error option \<times> relay_world \<Rightarrow> turn" where
  "backlog_turn b = (case b of (frames, e, w) \<Rightarrow> (frames, map_option Inl e, w))"

definition fanned_turn :: "relay_env \<Rightarrow> relay_conn \<Rightarrow> relay_world \<Rightarrow> turn" where
  "fanned_turn env c w =
     (case chan_recv (rc_chan c) (rc_rx c) (rw_hub w) of (m, hub') \<Rightarrow>
        let w' = w\<lparr>rw_hub := hub'\<rparr>
        in case m of
             Got (Batch b) \<Rightarrow>
               if fb_origin b = rc_device c then ([], None, w')
               else if rv_ok env 0 then ([fb_frame b], None, w')
               else ([], Some (Inl socket_closed), w')
           | Got Rescan \<Rightarrow> backlog_turn (relay_backlog env c w')
           | Lagged _ \<Rightarrow> backlog_turn (relay_backlog env c w')
           | Nothing \<Rightarrow> ([], None, w'))"

fun relay_turn :: "relay_env \<Rightarrow> relay_conn \<Rightarrow> relay_event \<Rightarrow> relay_world \<Rightarrow> turn option" where
  "relay_turn env c (Incoming (RText text)) w =
     map_option (\<lambda>(r, w'). ([], case r of Inl e \<Rightarrow> Some (Inl e) | Inr _ \<Rightarrow> None, w'))
       (handle_incoming env (rc_chan c) (rc_user c) (rc_device c) text w)"
| "relay_turn env c (Incoming RClose) w = Some ([], Some (Inr ()), w)"
| "relay_turn env c EndOfStream w = Some ([], Some (Inr ()), w)"
| "relay_turn env c (Incoming ROther) w = Some ([], None, w)"
| "relay_turn env c (Incoming (RError e)) w = Some ([], Some (Inl (Internal e)), w)"
| "relay_turn env c PingTick w = Some ([], if rv_ok env 0 then None else Some (Inl socket_closed), w)"
| "relay_turn env c Fanned w = Some (fanned_turn env c w)"

fun relay_loop ::
    "relay_conn \<Rightarrow> (relay_env \<times> relay_event) list \<Rightarrow> relay_world \<Rightarrow> (json list \<times> unit result \<times> relay_world) option" where
  "relay_loop c [] w = Some ([], Inr (), w)"
| "relay_loop c ((env, ev) # evs) w =
     (case relay_turn env c ev w of
        None \<Rightarrow> None
      | Some (sent, Some r, w') \<Rightarrow> Some (sent, r, w')
      | Some (sent, None, w') \<Rightarrow>
          map_option (\<lambda>(more, r, w''). (sent @ more, r, w'')) (relay_loop c evs w'))"

definition touch_connected :: "relay_env \<Rightarrow> uuid \<Rightarrow> relay_world \<Rightarrow> relay_world" where
  "touch_connected env device_id w =
     (if rv_fails env ''touch_device'' \<noteq> None then w
      else w\<lparr>rw_db := touch_device (rv_now env) device_id (rw_db w)\<rparr>)"

definition open_relay :: "relay_env \<Rightarrow> user_device \<Rightarrow> relay_world \<Rightarrow> relay_conn \<times> relay_world" where
  "open_relay env device w =
     (let w1 = touch_connected env (d_id device) w;
          ((a, x), hub') = hub_join (d_user_id device) (rw_hub w1)
      in (\<lparr>rc_user = d_user_id device, rc_device = d_id device, rc_chan = a, rc_rx = x\<rparr>,
          w1\<lparr>rw_hub := hub'\<rparr>))"

definition leave_relay :: "relay_conn \<Rightarrow> relay_world \<Rightarrow> relay_world" where
  "leave_relay c w = w\<lparr>rw_hub := hub_leave (rc_user c) (rw_hub w)\<rparr>"

definition drop_relay :: "relay_conn \<Rightarrow> relay_world \<Rightarrow> relay_world" where
  "drop_relay c w = w\<lparr>rw_hub := drop_rx (rc_chan c) (rc_rx c) (rw_hub w)\<rparr>"

text \<open>
  A whole connection, with no other activity in between. The receiver is a local variable of
  the function: it is dropped when the function returns, after \<open>hub.leave\<close>.
\<close>

definition run_relay ::
    "relay_env \<Rightarrow> relay_frame option \<Rightarrow> (relay_env \<times> relay_event) list \<Rightarrow> relay_env \<Rightarrow> relay_world \<Rightarrow>
     (json list \<times> unit result \<times> relay_world) option" where
  "run_relay env first evs env' w =
     (case authenticate env first (rw_db w) of
        None \<Rightarrow> Some ([], Inr (), w)
      | Some device \<Rightarrow>
          (case open_relay env device w of (c, w1) \<Rightarrow>
             (case relay_backlog env c w1 of
                (frames, Some e, w2) \<Rightarrow> Some (frames, Inl e, drop_relay c (leave_relay c w2))
              | (frames, None, w2) \<Rightarrow>
                  map_option (\<lambda>(sent, r, w3).
                      (frames @ sent, r, drop_relay c (leave_relay c (touch_connected env' (d_id device) w3))))
                    (relay_loop c evs w2))))"

end
