(* ===== verification/Relay_Delivery.thy ===== *)
theory Relay_Delivery
  imports Sync_Relay
begin

text \<open>
  What the relay guarantees: in any interleaving of connections, wakes and batches a connected
  device stays attached to the channel of its user and hears of its user's devices only; and a
  batch that was accepted is delivered to every other device of the user.
\<close>

subsection \<open>Interleavings\<close>

text \<open>
  \<open>D\<close> collects the devices that have connected, with their users; \<open>cs\<close> are the connections in
  their loop, \<open>ls\<close> those that have called \<open>hub.leave\<close> and still hold their receiver.
\<close>

inductive relays ::
    "(uuid \<times> uuid) set \<Rightarrow> relay_conn list \<Rightarrow> relay_conn list \<Rightarrow> relay_world \<Rightarrow> bool" where
  start: "rw_hub w = empty_hub \<Longrightarrow> relays {} [] [] w"
| connect: "relays D cs ls w \<Longrightarrow> authenticate env frame (rw_db w) = Some device \<Longrightarrow>
    open_relay env device w = (c, w') \<Longrightarrow>
    relays (insert (d_id device, d_user_id device) D) (c # cs) ls w'"
| backlog: "relays D cs ls w \<Longrightarrow> c \<in> set cs \<Longrightarrow> relay_backlog env c w = (frames, e, w') \<Longrightarrow>
    relays D cs ls w'"
| turn: "relays D cs ls w \<Longrightarrow> c \<in> set cs \<Longrightarrow> relay_turn env c ev w = Some (sent, r, w') \<Longrightarrow>
    relays D cs ls w'"
| leave: "relays D (cs @ c # cs') ls w \<Longrightarrow> relays D (cs @ cs') (c # ls) (leave_relay c w)"
| gone: "relays D cs (ls @ c # ls') w \<Longrightarrow> relays D cs (ls @ ls') (drop_relay c w)"
| wake: "relays D cs ls w \<Longrightarrow> relays D cs ls (w\<lparr>rw_hub := wake_user u (rw_hub w)\<rparr>)"
| elsewhere: "relays D cs ls w \<Longrightarrow> rw_hub w' = rw_hub w \<Longrightarrow> relays D cs ls w'"

subsection \<open>The invariant of the hub\<close>

definition chans_ok :: "sync_hub \<Rightarrow> bool" where
  "chans_ok hub \<longleftrightarrow>
     (\<forall>u a. tbl_get (hb_channels hub) u = Some a \<longrightarrow> a < hb_next_chan hub \<and> tbl_get (hb_heap hub) a \<noteq> None) \<and>
     (\<forall>u v a. tbl_get (hb_channels hub) u = Some a \<longrightarrow> tbl_get (hb_channels hub) v = Some a \<longrightarrow> u = v)"

definition attached :: "sync_hub \<Rightarrow> relay_conn \<Rightarrow> bool" where
  "attached hub c \<longleftrightarrow> tbl_get (hb_channels hub) (rc_user c) = Some (rc_chan c) \<and>
     tbl_get (receivers (rc_chan c) hub) (rc_rx c) \<noteq> None"

definition hears :: "sync_hub \<Rightarrow> uuid \<Rightarrow> fanout_batch \<Rightarrow> bool" where
  "hears hub u b \<longleftrightarrow> (\<exists>a x r. tbl_get (hb_channels hub) u = Some a \<and>
     tbl_get (receivers a hub) x = Some r \<and> Batch b \<in> set (rx_msgs r))"

definition hub_inv :: "(uuid \<times> uuid) set \<Rightarrow> relay_conn list \<Rightarrow> sync_hub \<Rightarrow> bool" where
  "hub_inv D cs hub \<longleftrightarrow> chans_ok hub \<and>
     (\<forall>c\<in>set cs. attached hub c \<and> rc_rx c < hb_next_rx hub \<and> (rc_device c, rc_user c) \<in> D) \<and>
     distinct (map rc_rx cs) \<and>
     (\<forall>u b. hears hub u b \<longrightarrow> (fb_origin b, u) \<in> D) \<and>
     (\<forall>p\<in>D. tbl_get (hb_channels hub) (snd p) \<noteq> None)"

lemma hub_invD:
  assumes "hub_inv D cs hub"
  shows "chans_ok hub" and "distinct (map rc_rx cs)"
    and "c \<in> set cs \<Longrightarrow> attached hub c" and "c \<in> set cs \<Longrightarrow> rc_rx c < hb_next_rx hub"
    and "c \<in> set cs \<Longrightarrow> (rc_device c, rc_user c) \<in> D"
    and "hears hub u b \<Longrightarrow> (fb_origin b, u) \<in> D"
    and "(dev, u) \<in> D \<Longrightarrow> tbl_get (hb_channels hub) u \<noteq> None"
  using assms unfolding hub_inv_def by fastforce+

lemma chans_okD:
  assumes "chans_ok hub" and "tbl_get (hb_channels hub) u = Some a"
  shows "a < hb_next_chan hub" and "tbl_get (hb_heap hub) a \<noteq> None"
    and "tbl_get (hb_channels hub) v = Some a \<Longrightarrow> v = u"
  using assms unfolding chans_ok_def by blast+

lemma receivers_upd:
  "receivers b (hub\<lparr>hb_heap := tbl_upd a f (hb_heap hub)\<rparr>) =
     (if b = a \<and> tbl_get (hb_heap hub) a \<noteq> None then f (receivers a hub) else receivers b hub)"
  by (auto simp: receivers_def split: option.splits)

lemma tbl_get_map_snd: "tbl_get (map (\<lambda>(x, r). (x, f r)) t) k = map_option f (tbl_get t k)"
  by (simp add: tbl_get_def map_of_map)

lemma push_msgs: "m' \<in> set (rx_msgs (push_msg m r)) \<Longrightarrow> m' = m \<or> m' \<in> set (rx_msgs r)"
  by (cases "rx_msgs r") (auto simp: push_msg_def split: if_splits)

text \<open>An update of one channel that keeps its receivers.\<close>

lemma hub_inv_upd:
  assumes inv: "hub_inv D cs hub"
    and keep: "\<And>x. tbl_get (receivers a hub) x \<noteq> None \<Longrightarrow> tbl_get (f (receivers a hub)) x \<noteq> None"
    and msgs: "\<And>u x r b. tbl_get (hb_channels hub) u = Some a \<Longrightarrow> tbl_get (f (receivers a hub)) x = Some r \<Longrightarrow>
      Batch b \<in> set (rx_msgs r) \<Longrightarrow> (fb_origin b, u) \<in> D"
  shows "hub_inv D cs (hub\<lparr>hb_heap := tbl_upd a f (hb_heap hub)\<rparr>)" (is "hub_inv _ _ ?h")
  unfolding hub_inv_def
proof (intro conjI ballI allI impI)
  show "chans_ok ?h" using hub_invD(1) [OF inv] by (simp add: chans_ok_def)
  show "distinct (map rc_rx cs)" using inv by (rule hub_invD)
next
  fix c assume c: "c \<in> set cs"
  show "attached ?h c" using hub_invD(3) [OF inv c] keep by (auto simp: attached_def receivers_upd)
  show "rc_rx c < hb_next_rx ?h" using hub_invD(4) [OF inv c] by simp
  show "(rc_device c, rc_user c) \<in> D" using hub_invD(5) [OF inv c] .
next
  fix u b assume "hears ?h u b"
  then obtain a' x r where h: "tbl_get (hb_channels hub) u = Some a'" "tbl_get (receivers a' ?h) x = Some r"
    "Batch b \<in> set (rx_msgs r)" by (auto simp: hears_def)
  show "(fb_origin b, u) \<in> D"
  proof (cases "a' = a \<and> tbl_get (hb_heap hub) a \<noteq> None")
    case True
    with h msgs show ?thesis by (simp add: receivers_upd)
  next
    case False
    with h have "hears hub u b" unfolding hears_def receivers_upd by (auto split: if_splits)
    with inv show ?thesis by (rule hub_invD)
  qed
next
  fix p assume "p \<in> D"
  with hub_invD(7) [OF inv, of "fst p" "snd p"] show "tbl_get (hb_channels ?h) (snd p) \<noteq> None" by simp
qed

lemma hub_inv_send:
  assumes "hub_inv D cs hub"
    and "\<And>u b. tbl_get (hb_channels hub) u = Some a \<Longrightarrow> m = Batch b \<Longrightarrow> (fb_origin b, u) \<in> D"
  shows "hub_inv D cs (chan_send a m hub)"
  unfolding chan_send_def
proof (rule hub_inv_upd [OF assms(1)])
  fix u x r b
  assume "tbl_get (hb_channels hub) u = Some a"
    "tbl_get (map (\<lambda>(x, r). (x, push_msg m r)) (receivers a hub)) x = Some r" "Batch b \<in> set (rx_msgs r)"
  then show "(fb_origin b, u) \<in> D"
    using assms(2) hub_invD(6) [OF assms(1)] push_msgs by (fastforce simp: tbl_get_map_snd hears_def)
qed (auto simp: tbl_get_map_snd)

lemma hub_inv_recv:
  assumes "hub_inv D cs hub" and "chan_recv a x hub = (m, hub')"
  shows "hub_inv D cs hub'"
proof -
  have upd: "hub_inv D cs (hub\<lparr>hb_heap := tbl_upd a (tbl_put x r') (hb_heap hub)\<rparr>)"
    if r: "tbl_get (receivers a hub) x = Some r" and sub: "set (rx_msgs r') \<subseteq> set (rx_msgs r)" for r r'
  proof (rule hub_inv_upd [OF assms(1)])
    fix u y r1 b
    assume h: "tbl_get (hb_channels hub) u = Some a" "tbl_get (tbl_put x r' (receivers a hub)) y = Some r1"
      "Batch b \<in> set (rx_msgs r1)"
    with r sub have "hears hub u b" by (auto simp: hears_def split: if_splits)
    with assms(1) show "(fb_origin b, u) \<in> D" by (rule hub_invD)
  qed auto
  from assms show ?thesis
    by (auto simp: chan_recv_def intro!: upd split: option.splits if_splits list.splits)
qed

lemma hub_inv_wake: "hub_inv D cs hub \<Longrightarrow> hub_inv D cs (wake_user u hub)"
  by (auto simp: wake_user_def intro: hub_inv_send split: option.split)

text \<open>\<open>hub.leave\<close> never finds a channel without receivers: the caller's own is still alive.\<close>

lemma hub_leave_same:
  assumes "hub_inv D cs hub" and "c \<in> set cs"
  shows "hub_leave (rc_user c) hub = hub"
  using hub_invD(3) [OF assms]
  by (auto simp: hub_leave_def attached_def receiver_count_def split: option.split)

lemma hub_inv_drop:
  assumes inv: "hub_inv D (cs @ c # cs') hub"
  shows "hub_inv D (cs @ cs') (drop_rx (rc_chan c) (rc_rx c) hub)" (is "hub_inv _ _ ?h")
  unfolding hub_inv_def
proof (intro conjI ballI allI impI)
  show "chans_ok ?h" using hub_invD(1) [OF inv] by (simp add: chans_ok_def drop_rx_def)
  show "distinct (map rc_rx (cs @ cs'))" using hub_invD(2) [OF inv] by auto
next
  fix e assume e: "e \<in> set (cs @ cs')"
  then have in': "e \<in> set (cs @ c # cs')" by auto
  have ne: "rc_rx e \<noteq> rc_rx c" using hub_invD(2) [OF inv] e by (auto simp: image_iff)
  show "attached ?h e"
    using hub_invD(3) [OF inv in'] ne by (auto simp: attached_def drop_rx_def receivers_upd)
  show "rc_rx e < hb_next_rx ?h" using hub_invD(4) [OF inv in'] by (simp add: drop_rx_def)
  show "(rc_device e, rc_user e) \<in> D" using hub_invD(5) [OF inv in'] .
next
  fix u b assume "hears ?h u b"
  then have "hears hub u b"
    unfolding hears_def drop_rx_def receivers_upd by (auto split: if_splits)
  with inv show "(fb_origin b, u) \<in> D" by (rule hub_invD)
next
  fix p assume "p \<in> D"
  with hub_invD(7) [OF inv, of "fst p" "snd p"] show "tbl_get (hb_channels ?h) (snd p) \<noteq> None"
    by (simp add: drop_rx_def)
qed

lemma hub_channel_spec:
  assumes "chans_ok hub" and "hub_channel u hub = (a, hub1)"
  shows "chans_ok hub1" and "hb_next_rx hub1 = hb_next_rx hub" and "tbl_get (hb_channels hub1) u = Some a"
    and "tbl_get (hb_channels hub) v = Some a' \<Longrightarrow>
      tbl_get (hb_channels hub1) v = Some a' \<and> receivers a' hub1 = receivers a' hub"
    and "tbl_get (hb_channels hub1) v = Some a' \<Longrightarrow> tbl_get (receivers a' hub1) x = Some r \<Longrightarrow>
      tbl_get (hb_channels hub) v = Some a' \<and> tbl_get (receivers a' hub) x = Some r"
    and "tbl_get (hb_heap hub1) a \<noteq> None"
proof -
  show ok: "chans_ok hub1"
  proof (cases "tbl_get (hb_channels hub) u")
    case None
    from assms(1) have "\<And>v b. tbl_get (hb_channels hub) v = Some b \<Longrightarrow> b < hb_next_chan hub" by (rule chans_okD(1))
    with None assms show ?thesis
      by (fastforce simp: hub_channel_def chans_ok_def split: if_splits)
  qed (use assms in \<open>simp add: hub_channel_def\<close>)
  show "hb_next_rx hub1 = hb_next_rx hub" using assms(2) by (auto simp: hub_channel_def split: option.splits)
  show u: "tbl_get (hb_channels hub1) u = Some a" using assms(2) by (auto simp: hub_channel_def split: option.splits)
  show "tbl_get (hb_channels hub) v = Some a' \<Longrightarrow>
      tbl_get (hb_channels hub1) v = Some a' \<and> receivers a' hub1 = receivers a' hub"
    using assms(2) chans_okD(1) [OF assms(1), of v a']
    by (auto simp: hub_channel_def receivers_def split: option.splits)
  show "tbl_get (hb_channels hub1) v = Some a' \<Longrightarrow> tbl_get (receivers a' hub1) x = Some r \<Longrightarrow>
      tbl_get (hb_channels hub) v = Some a' \<and> tbl_get (receivers a' hub) x = Some r"
    using assms(2) by (auto simp: hub_channel_def receivers_def split: option.splits if_splits)
  show "tbl_get (hb_heap hub1) a \<noteq> None" using chans_okD(2) [OF ok u] .
qed

lemma hub_inv_join:
  assumes inv: "hub_inv D cs hub" and join: "hub_join u hub = ((a, x), hub')"
    and c: "c = \<lparr>rc_user = u, rc_device = dev, rc_chan = a, rc_rx = x\<rparr>"
  shows "hub_inv (insert (dev, u) D) (c # cs) hub'"
proof -
  obtain hub1 where h1: "hub_channel u hub = (a, hub1)" and x: "x = hb_next_rx hub1"
    and hub': "hub' = hub1\<lparr>hb_heap := tbl_upd a (tbl_put x \<lparr>rx_msgs = [], rx_missed = 0\<rparr>) (hb_heap hub1),
      hb_next_rx := Suc x\<rparr>"
    using join by (auto simp: hub_join_def Let_def split: prod.splits)
  note ch = hub_channel_spec [OF hub_invD(1) [OF inv] h1]
  have rcv: "receivers b hub' = (if b = a then tbl_put x \<lparr>rx_msgs = [], rx_missed = 0\<rparr> (receivers a hub1)
      else receivers b hub1)" for b
    using ch(6) by (auto simp: hub' receivers_def split: option.splits)
  have chn: "hb_channels hub' = hb_channels hub1" by (simp add: hub')
  show ?thesis
    unfolding hub_inv_def
  proof (intro conjI ballI allI impI)
    show "chans_ok hub'" using ch(1) by (simp add: hub' chans_ok_def)
    show "distinct (map rc_rx (c # cs))"
      using hub_invD(2) [OF inv] hub_invD(4) [OF inv] by (fastforce simp: c x ch(2))
  next
    fix e assume "e \<in> set (c # cs)"
    then consider "e = c" | "e \<in> set cs" by auto
    then have "attached hub' e \<and> rc_rx e < hb_next_rx hub' \<and> (rc_device e, rc_user e) \<in> insert (dev, u) D"
    proof cases
      case 1
      have "hb_next_rx hub' = Suc x" by (simp add: hub')
      with 1 ch(3) show ?thesis by (simp add: c attached_def rcv chn)
    next
      case 2
      have "hb_next_rx hub' = Suc (hb_next_rx hub)" by (simp add: hub' x ch(2))
      with hub_invD(3-5) [OF inv 2] ch(4) show ?thesis by (auto simp: attached_def rcv chn)
    qed
    then show "attached hub' e" "rc_rx e < hb_next_rx hub'" "(rc_device e, rc_user e) \<in> insert (dev, u) D"
      by blast+
  next
    fix v b assume "hears hub' v b"
    then obtain a' y r where h: "tbl_get (hb_channels hub1) v = Some a'" "tbl_get (receivers a' hub') y = Some r"
      "Batch b \<in> set (rx_msgs r)" by (auto simp: hears_def chn)
    then have "tbl_get (receivers a' hub1) y = Some r" by (auto simp: rcv split: if_splits)
    with h ch(5) have "hears hub v b" unfolding hears_def by blast
    with hub_invD(6) [OF inv] show "(fb_origin b, v) \<in> insert (dev, u) D" by simp
  next
    fix p assume "p \<in> insert (dev, u) D"
    then consider "snd p = u" | "p \<in> D" by auto
    then show "tbl_get (hb_channels hub') (snd p) \<noteq> None"
      using ch(3) hub_invD(7) [OF inv, of "fst p" "snd p"] ch(4) [of "snd p"] by cases (auto simp: chn)
  qed
qed

lemma relay_backlog_hub: "relay_backlog env c w = (frames, e, w') \<Longrightarrow> rw_hub w' = rw_hub w"
  by (auto simp: relay_backlog_def split: prod.splits)

lemma touch_connected_hub [simp]: "rw_hub (touch_connected env dev w) = rw_hub w"
  by (simp add: touch_connected_def)

text \<open>What a turn does to the hub: a message taken off, or a batch of its own device fanned out.\<close>

lemma fan_out_hub:
  "rw_hub (fan_out env a u dev ins d1 w) =
     chan_send a (Batch \<lparr>fb_origin = dev, fb_frame = changes_frame (map snd ins)\<rparr>) (rw_hub w)"
  by (simp add: fan_out_def Let_def relay_notify_def split: option.split)

lemma relay_turn_hub:
  assumes "relay_turn env c ev w = Some (sent, r, w')"
  obtains "rw_hub w' = rw_hub w"
  | m where "chan_recv (rc_chan c) (rc_rx c) (rw_hub w) = (m, rw_hub w')"
  | b where "fb_origin b = rc_device c" "rw_hub w' = chan_send (rc_chan c) (Batch b) (rw_hub w)"
proof (cases "ev = Fanned")
  case True
  obtain m hub' where m: "chan_recv (rc_chan c) (rc_rx c) (rw_hub w) = (m, hub')" by fastforce
  have "rw_hub w' = hub'" if "backlog_turn (relay_backlog env c (w\<lparr>rw_hub := hub'\<rparr>)) = (sent, r, w')"
    using that relay_backlog_hub [of env c "w\<lparr>rw_hub := hub'\<rparr>"]
    by (auto simp: backlog_turn_def split: prod.splits)
  with True assms m have "rw_hub w' = hub'"
    by (auto simp: fanned_turn_def Let_def split: fanned.splits fanout_msg.splits if_splits)
  with m that(2) show thesis by simp
next
  case False
  show thesis
  proof (cases "\<exists>v. ev = Incoming (RText v)")
    case True
    then obtain v r' where hi: "handle_incoming env (rc_chan c) (rc_user c) (rc_device c) v w = Some (r', w')"
      using assms by auto
    then consider "rw_hub w' = rw_hub w" | ins d1 where "w' = fan_out env (rc_chan c) (rc_user c) (rc_device c) ins d1 w"
      by (auto simp: handle_incoming_def split: option.splits if_splits sum.splits prod.splits)
    then show thesis
    proof cases
      case (2 ins d1)
      then show thesis by (intro that(3)) (simp_all add: fan_out_hub)
    qed (rule that(1))
  next
    case no_text: False
    with False assms have "w' = w" by (cases "(env, c, ev, w)" rule: relay_turn.cases) auto
    with that(1) show thesis by simp
  qed
qed

lemma relays_inv: "relays D cs ls w \<Longrightarrow> hub_inv D (cs @ ls) (rw_hub w)"
proof (induction rule: relays.induct)
  case (start w)
  then show ?case by (simp add: hub_inv_def chans_ok_def hears_def empty_hub_def)
next
  case (connect D cs ls w env frame device c w')
  then obtain a x hub' where "hub_join (d_user_id device) (rw_hub w) = ((a, x), hub')"
    "c = \<lparr>rc_user = d_user_id device, rc_device = d_id device, rc_chan = a, rc_rx = x\<rparr>" "rw_hub w' = hub'"
    by (auto simp: open_relay_def Let_def split: prod.splits)
  with hub_inv_join [OF connect.IH] show ?case by simp
next
  case (turn D cs ls w c env ev sent r w')
  then have c: "c \<in> set (cs @ ls)" by simp
  from turn.hyps(3) show ?case
  proof (cases rule: relay_turn_hub)
    case (3 b)
    have "(rc_device c, u) \<in> D" if "tbl_get (hb_channels (rw_hub w)) u = Some (rc_chan c)" for u
    proof -
      have "tbl_get (hb_channels (rw_hub w)) (rc_user c) = Some (rc_chan c)"
        using hub_invD(3) [OF turn.IH c] by (simp add: attached_def)
      with hub_invD(1) [OF turn.IH] that have "u = rc_user c" by (metis chans_okD(3))
      with hub_invD(5) [OF turn.IH c] show ?thesis by simp
    qed
    with 3 turn.IH show ?thesis by (auto intro!: hub_inv_send)
  qed (use turn.IH hub_inv_recv in auto)
next
  case (leave D cs c cs' ls w)
  from hub_leave_same [OF leave.IH, of c] leave.IH show ?case
    by (simp add: leave_relay_def hub_inv_def)
next
  case (gone D cs ls c ls' w)
  from hub_inv_drop [of D "cs @ ls" c ls'] gone.IH show ?case by (simp add: drop_relay_def)
qed (auto simp: relay_backlog_hub hub_inv_wake)

subsection \<open>From a batch to the other devices\<close>

lemma append_loop_inserts:
  assumes "append_loop now u o1 sd b i ps d = (ins, d')" and "j < length ps" and "\<not> has_change u b (i + j) d"
    and "journal_ok d" and "0 < changes_next d"
  shows "ps ! j \<in> snd ` set ins"
  using assms
proof (induction ps arbitrary: i j d ins)
  case (Cons p ps)
  let ?n = "changes_next d" and ?d0 = "d\<lparr>changes_next := Suc (changes_next d)\<rparr>"
  have ok0: "journal_ok ?d0" using Cons.prems(4) by (auto simp: journal_ok_def less_Suc_eq)
  show ?case
  proof (cases "has_change u b i d")
    case True
    then have run: "append_loop now u o1 sd b (Suc i) ps ?d0 = (ins, d')" using Cons.prems(1) by (simp add: Let_def)
    from True Cons.prems(3) obtain k where k: "j = Suc k" by (cases j) auto
    show ?thesis using Cons.IH [OF run, of k] Cons.prems(2,3) ok0 by (simp add: k)
  next
    case False
    define row where "row = \<lparr>c_seq = ?n, c_user_id = u, c_origin_device_id = o1, c_batch_id = b,
      c_batch_index = i, c_sync_device_id = sd, c_payload = p, c_received_at = now\<rparr>"
    from False Cons.prems(1) obtain jobs ins1 where
      run: "append_loop now u o1 sd b (Suc i) ps (?d0\<lparr>changes := tbl_put ?n row (changes d), projection_jobs := jobs\<rparr>) = (ins1, d')"
      and ins: "ins = (?n, p) # ins1"
      by (auto simp: Let_def row_def split: prod.splits cong: if_cong)
    have fresh: "tbl_get (changes d) ?n = None" by (rule journal_fresh [OF Cons.prems(4)])
    have ok1: "journal_ok (?d0\<lparr>changes := tbl_put ?n row (changes d), projection_jobs := jobs\<rparr>)"
      using Cons.prems(4,5) by (auto simp: journal_ok_def row_def less_Suc_eq split: if_splits)
    show ?thesis
    proof (cases j)
      case (Suc k)
      have "\<not> has_change u b (Suc i + k) (?d0\<lparr>changes := tbl_put ?n row (changes d), projection_jobs := jobs\<rparr>)"
        using Cons.prems(3) Suc by (auto simp: has_change_def tbl_put_set [OF fresh] row_def)
      with Cons.IH [OF run, of k] Cons.prems(2) ok1 show ?thesis by (simp add: Suc ins)
    qed (simp add: ins)
  qed
qed simp

lemma append_loop_cursors: "device_cursors (snd (append_loop now u o1 sd b i ps d)) = device_cursors d"
  by (induction ps arbitrary: i d) (simp_all add: Let_def case_prod_beta)

lemma projects_cursors:
  assumes "projects u d d'"
  shows "device_cursors d' = device_cursors d"
proof -
  have eq: "d'\<lparr>notebooks := notebooks d, tags := tags d, note_tags := note_tags d,
      resources := resources d, resource_blobs := resource_blobs d\<rparr> = d"
    using assms by (simp add: projects_def same_rest_def)
  show ?thesis using arg_cong [OF eq, of device_cursors] by simp
qed

lemma run_job_cursors [simp]: "device_cursors (run_job pj n k payload d) = device_cursors d"
  by (auto simp: run_job_eq finish_job_def projects_cursors [OF job_result_projects] split: sum.splits option.splits)

lemma drain_available_kept:
  "changes (drain_available pj user n k d) = changes d"
  "device_cursors (drain_available pj user n k d) = device_cursors d"
  "numbered (drain_available pj user n k d) = numbered d"
  by (induction pj user n k d rule: drain_available.induct) (simp_all add: run_job_kept split: option.split)

lemma backlog_has:
  assumes "journal_ok d" and "deliver_backlog ok u dev d = (frames, None, d')"
    and "tbl_get (changes d) k = Some c" and "c_user_id c = u" and "c_origin_device_id c \<noteq> dev"
    and "get_cursor dev d < k"
  shows "c_payload c \<in> set (concat frames)"
proof -
  have all: "concat frames = pending u dev (get_cursor dev d) (get_cursor dev d') d"
    "\<forall>c\<in>set (user_changes u d). c_seq c \<le> get_cursor dev d'"
    using backlog_loop_delivers [OF assms(2) [unfolded deliver_backlog_def] assms(1) refl] by auto
  have seq: "c_seq c = k" using assms(1,3) by (simp add: journal_ok_def)
  have "(k, c) \<in> set (changes d)" using assms(1,3) by (simp add: journal_ok_def tbl_get_in_iff)
  then have "c \<in> set (user_changes u d)" using assms(4) by (auto simp: user_changes_def tbl_select_def image_iff)
  with all(2) assms(5,6) seq show ?thesis unfolding all(1) pending_def by auto
qed

lemma appended_delivered:
  assumes "numbered d" and "append_loop now u dev sd b 0 ps d = (ins, d1)"
    and "changes d2 = changes d1" and "device_cursors d2 = device_cursors d" and "numbered d2"
    and "dev' \<noteq> dev" and "get_cursor dev' d < changes_next d"
    and "deliver_backlog ok u dev' d2 = (frames, None, d3)"
    and "j < length ps" and "\<not> has_change u b j d"
  shows "ps ! j \<in> set (concat frames)"
proof -
  have ok: "journal_ok d" "0 < changes_next d" using assms(1) by (simp_all add: numbered_def)
  obtain seq where seq: "(seq, ps ! j) \<in> set ins"
    using append_loop_inserts [OF assms(2,9) _ ok] assms(10) by auto
  note eff = append_loop_effect [OF assms(2) ok]
  obtain c where c: "(seq, c) \<in> set (changes d1)" "c_payload c = ps ! j" using eff seq by fastforce
  have new: "changes_next d \<le> seq" using eff seq by fastforce
  have "(seq, c) \<notin> set (changes d)"
  proof
    assume "(seq, c) \<in> set (changes d)"
    then have "tbl_get (changes d) seq = Some c" using ok(1) by (simp add: journal_ok_def tbl_get_in_iff)
    with ok(1) new show False unfolding journal_ok_def by (metis not_le)
  qed
  then have cu: "c_user_id c = u" "c_origin_device_id c = dev" using eff c(1) by fastforce+
  have "tbl_get (changes d2) seq = Some c"
    using c(1) assms(3) eff by (simp add: journal_ok_def tbl_get_in_iff)
  moreover have "get_cursor dev' d2 < seq" using assms(4,7) new by (simp add: get_cursor_def)
  ultimately show ?thesis
    using backlog_has [OF numberedD [OF assms(5)] assms(8)] cu c(2) assms(6) by metis
qed

text \<open>On a socket that stays open, the delivery to a known device completes.\<close>

lemma backlog_loop_completes:
  assumes "\<forall>k. ok k" and "tbl_get (user_devices d) dev \<noteq> None"
  shows "\<exists>frames d'. backlog_loop ok k u dev cur d = (frames, None, d')"
  using assms
proof (induction ok k u dev cur d rule: backlog_loop.induct)
  case (1 ok k u dev cur d)
  let ?rows = "changes_after u cur CHUNK_SIZE d"
  show ?case
  proof (cases "?rows = []")
    case True
    then show ?thesis by (simp add: backlog_done)
  next
    case False
    obtain d1 where d1: "advance_cursor dev (c_seq (last ?rows)) d = Inr d1"
      "user_devices d1 = user_devices d"
      using "1.prems"(2) by (cases "tbl_get (device_cursors d) dev") (auto simp: advance_cursor_def)
    have "\<exists>frames d'. backlog_loop ok (if filter (\<lambda>r. c_origin_device_id r \<noteq> dev) ?rows = [] then k else Suc k)
        u dev (c_seq (last ?rows)) d1 = (frames, None, d')"
      by (rule "1.IH" [OF refl False refl refl refl _ d1(1)]) (use "1.prems" d1(2) in auto)
    with False d1(1) "1.prems"(1) show ?thesis
      by (subst backlog_loop.simps) (auto simp: Let_def)
  qed
qed

subsection \<open>Properties\<close>

text \<open>
  C8: in every interleaving of connections, batches, wakes and departures, a device in its
  relay loop is attached to the one channel the hub keeps for its user, so a wake of the user
  is queued for it; and every batch that waits in a channel was sent by a device that had
  authenticated as a device of that channel's user. No batch crosses accounts.
\<close>

theorem relay_isolated:
  assumes "relays D cs ls w"
  shows "(\<forall>c\<in>set cs. attached (rw_hub w) c \<and>
      (\<exists>r. tbl_get (receivers (rc_chan c) (rw_hub w)) (rc_rx c) = Some r \<and>
        tbl_get (receivers (rc_chan c) (wake_user (rc_user c) (rw_hub w))) (rc_rx c) = Some (push_msg Rescan r)))
    \<and> (\<forall>u b. hears (rw_hub w) u b \<longrightarrow> (fb_origin b, u) \<in> D)"
proof (intro conjI ballI allI impI)
  note inv = relays_inv [OF assms]
  fix c assume "c \<in> set cs"
  then have c: "c \<in> set (cs @ ls)" by simp
  show att: "attached (rw_hub w) c" using hub_invD(3) [OF inv c] .
  have "tbl_get (hb_heap (rw_hub w)) (rc_chan c) \<noteq> None"
    using att chans_okD(2) [OF hub_invD(1) [OF inv]] unfolding attached_def by blast
  with att show "\<exists>r. tbl_get (receivers (rc_chan c) (rw_hub w)) (rc_rx c) = Some r \<and>
      tbl_get (receivers (rc_chan c) (wake_user (rc_user c) (rw_hub w))) (rc_rx c) = Some (push_msg Rescan r)"
    by (auto simp: attached_def wake_user_def chan_send_def receivers_upd tbl_get_map_snd)
next
  fix u b assume "hears (rw_hub w) u b"
  with relays_inv [OF assms] show "(fb_origin b, u) \<in> D" by (rule hub_invD)
qed

text \<open>
  C31: \<open>hub.leave\<close> never removes a channel. A connection calls it while its own receiver is
  alive, so the receiver count it sees is never zero: every user who has ever connected keeps
  an entry, even with no connection left, and \<open>live_users\<close> does not fall.
\<close>

theorem hub_never_forgets:
  assumes "relays D cs ls w" and "(device, user) \<in> D"
  shows "tbl_get (hb_channels (rw_hub w)) user \<noteq> None
    \<and> (\<forall>c\<in>set cs. hub_leave (rc_user c) (rw_hub w) = rw_hub w)"
  using hub_invD(7) [OF relays_inv [OF assms(1)] assms(2)] hub_leave_same [OF relays_inv [OF assms(1)]] by auto


subsection \<open>Closed instances\<close>

definition relay_lib :: auth_lib where
  "relay_lib = \<lparr>jwt_encode = (\<lambda>_ _. Inr ''t''),
     jwt_decode = (\<lambda>_ _ _. Some \<lparr>cl_sub = 1, cl_device_id = 11, cl_email = ''a'', cl_exp = 9\<rparr>),
     argon_hash = (\<lambda>_ p. Inr p), argon_parse = (\<lambda>_. None), argon_verify = (=)\<rparr>"

definition relay_demo :: relay_env where
  "relay_demo = \<lparr>rv_app = demo_app, rv_lib = relay_lib, rv_instance = 70, rv_now = 0,
     rv_uuid_parse = (\<lambda>_. Some 100), rv_new_uuid = 101, rv_pj = plain_projector\<lparr>pj_claim_err := (\<lambda>_. True)\<rparr>,
     rv_fuel = 10, rv_fails = (\<lambda>_. None), rv_ok = (\<lambda>_. True)\<rparr>"

definition relay_start :: relay_world where
  "relay_start = \<lparr>rw_hub = empty_hub, rw_db = race_db, rw_notified = []\<rparr>"

definition auth_frame :: relay_frame where
  "auth_frame = RText (Some (JObj [(''type'', JStr ''auth''), (''token'', JStr ''t'')]))"

definition batch_frame :: json where
  "batch_frame = JObj [(''type'', JStr ''changes''), (''changes'', JArr [JStr ''x''])]"

lemma relay_demo_connect:
  "\<exists>c w. relays {(11, 1)} [c] [] w \<and> rc_user c = 1"
proof -
  obtain device where auth: "authenticate relay_demo (Some auth_frame) (rw_db relay_start) = Some device"
    and d: "d_id device = 11" "d_user_id device = 1"
    by (simp add: authenticate_def auth_frame_def json_at_def relay_demo_def relay_lib_def verify_token_def
        get_device_def relay_start_def race_db_def tbl_get_def)
  obtain c w where o: "open_relay relay_demo device relay_start = (c, w)" by fastforce
  have "relays {} [] [] relay_start" by (rule relays.start) (simp add: relay_start_def)
  from relays.connect [OF this auth o] d have "relays {(11, 1)} [c] [] w" by simp
  moreover have "rc_user c = 1" using o d by (auto simp: open_relay_def Let_def split: prod.splits)
  ultimately show ?thesis by blast
qed

theorem relay_isolated_witness:
  "\<exists>c w. relays {(11, 1)} [c] [] w \<and> attached (rw_hub w) c
     \<and> (\<nexists>u b. hears (rw_hub w) u b \<and> (fb_origin b, u) \<noteq> (11, 1))"
proof -
  obtain c w where run: "relays {(11, 1)} [c] [] w" using relay_demo_connect by blast
  with relay_isolated [OF run] show ?thesis by (intro exI [of _ c] exI [of _ w]) auto
qed

theorem hub_never_forgets_witness:
  "\<exists>w. relays {(11, 1)} [] [] w \<and> tbl_get (hb_channels (rw_hub w)) 1 \<noteq> None"
proof -
  obtain c w where run: "relays {(11, 1)} [c] [] w" using relay_demo_connect by blast
  from relays.leave [of _ "[]" c "[]"] run have "relays {(11, 1)} [] [c] (leave_relay c w)" by simp
  with relays.gone [of _ "[]" "[]" c "[]"] have "relays {(11, 1)} [] [] (drop_relay c (leave_relay c w))" by simp
  with hub_never_forgets [OF this, of 11 1] show ?thesis by blast
qed


end
