(* ===== verification/Bus.thy ===== *)
theory Bus
  imports Collab_Sessions Relay_Delivery
begin

text \<open>
  \<open>bus.rs\<close>: what an instance does with a notification of another one. A notification names its
  channel and carries a payload of two fields. The parser of identifiers is a parameter; the
  state is the registry of live sessions and the relay hub of the instance.
\<close>

subsection \<open>Handlers\<close>

definition CH_COLLAB_OP :: string where "CH_COLLAB_OP = ''collab_op''"
definition CH_COLLAB_PRESENCE :: string where "CH_COLLAB_PRESENCE = ''collab_presence''"
definition CH_SYNC_BATCH :: string where "CH_SYNC_BATCH = ''sync_batch''"

record bus_env =
  bs_collab :: collab_env
  bs_uuid_parse :: "string \<Rightarrow> uuid option"

text \<open>The two fields of a payload, when both parse and the origin is another instance.\<close>

definition foreign_payload :: "bus_env \<Rightarrow> (string \<Rightarrow> 'a option) \<Rightarrow> string \<Rightarrow> 'a option" where
  "foreign_payload b parse payload =
     (case split_once CHR '':'' payload of
        None \<Rightarrow> None
      | Some (x, origin) \<Rightarrow>
          (case (parse x, bs_uuid_parse b origin) of
             (Some v, Some o1) \<Rightarrow> if o1 = cv_instance (bs_collab b) then None else Some v
           | _ \<Rightarrow> None))"

definition handle_collab_op :: "bus_env \<Rightarrow> string \<Rightarrow> shared \<Rightarrow> registry \<Rightarrow> registry" where
  "handle_collab_op b payload sh rg =
     (case foreign_payload b (parse_sint 64) payload of
        None \<Rightarrow> rg
      | Some seq \<Rightarrow>
          if cv_fails (bs_collab b) ''get_collab_event'' \<noteq> None then rg
          else (case (if seq < 0 then None else get_collab_event (nat seq) sh) of
                  Some e \<Rightarrow> deliver_event (bs_collab b) e rg
                | None \<Rightarrow> rg))"

definition handle_collab_presence :: "bus_env \<Rightarrow> string \<Rightarrow> shared \<Rightarrow> registry \<Rightarrow> registry" where
  "handle_collab_presence b payload sh rg =
     (case foreign_payload b (bs_uuid_parse b) payload of
        None \<Rightarrow> rg
      | Some note_id \<Rightarrow> deliver_presence (bs_collab b) note_id sh rg)"

definition handle_sync_batch :: "bus_env \<Rightarrow> string \<Rightarrow> sync_hub \<Rightarrow> sync_hub" where
  "handle_sync_batch b payload hub =
     (case foreign_payload b (bs_uuid_parse b) payload of
        None \<Rightarrow> hub
      | Some user_id \<Rightarrow> wake_user user_id hub)"

definition handle_notification ::
    "bus_env \<Rightarrow> string \<times> string \<Rightarrow> shared \<Rightarrow> registry \<times> sync_hub \<Rightarrow> registry \<times> sync_hub" where
  "handle_notification b n sh st =
     (case (n, st) of ((channel, payload), (rg, hub)) \<Rightarrow>
        if channel = CH_COLLAB_OP then (handle_collab_op b payload sh rg, hub)
        else if channel = CH_COLLAB_PRESENCE then (handle_collab_presence b payload sh rg, hub)
        else if channel = CH_SYNC_BATCH then (rg, handle_sync_batch b payload hub)
        else (rg, hub))"

subsection \<open>Payloads\<close>

text \<open>Identifiers are printed without colons and parse back.\<close>

definition uuid_text :: "(string \<Rightarrow> uuid option) \<Rightarrow> (uuid \<Rightarrow> string) \<Rightarrow> bool" where
  "uuid_text parse sh \<longleftrightarrow> (\<forall>u. parse (sh u) = Some u \<and> CHR '':'' \<notin> set (sh u))"

lemma digit_of_show [simp]: "m < 10 \<Longrightarrow> digit_of (char_of (48 + m)) = Some m"
  by (simp add: digit_of_def Let_def of_char_of)

lemma parse_digits_append:
  "parse_digits acc (s @ t) = (case parse_digits acc s of None \<Rightarrow> None | Some n \<Rightarrow> parse_digits n t)"
  by (induction acc s rule: parse_digits.induct) (auto split: option.splits)

lemma show_nat_nonempty [simp]: "show_nat n \<noteq> []"
  by (subst show_nat.simps) auto

lemma parse_digits_show: "parse_digits 0 (show_nat n) = Some n"
proof (induction n rule: show_nat.induct)
  case (1 n)
  show ?case
  proof (cases "n < 10")
    case False
    with 1 have "parse_digits 0 (show_nat (n div 10)) = Some (n div 10)" by simp
    moreover have "10 * (n div 10) + n mod 10 = n" by simp
    ultimately show ?thesis
      by (subst show_nat.simps) (simp add: False parse_digits_append)
  qed (subst show_nat.simps, simp)
qed

lemma show_nat_digits: "c \<in> set (show_nat n) \<Longrightarrow> \<exists>m::nat. m < 10 \<and> c = char_of (48 + m)"
proof (induction n rule: show_nat.induct)
  case (1 n)
  show ?case
  proof (cases "n < 10")
    case True
    with "1.prems" have "c = char_of (48 + n)" by (subst (asm) show_nat.simps) simp
    with True show ?thesis by blast
  next
    case False
    with "1.prems" have "c \<in> set (show_nat (n div 10)) \<or> c = char_of (48 + n mod 10)"
      by (subst (asm) show_nat.simps) auto
    with 1(1) [OF False] show ?thesis by (auto intro: exI [of _ "n mod 10"])
  qed
qed

lemma show_nat_not_sign:
  assumes "c \<in> set (show_nat n)"
  shows "c \<noteq> CHR '':''" and "c \<noteq> CHR ''-''" and "c \<noteq> CHR ''+''"
proof -
  obtain m :: nat where m: "m < 10" "c = char_of (48 + m)" using show_nat_digits [OF assms] by blast
  then have "(of_char c :: nat) = 48 + m" by (simp add: of_char_of)
  with m(1) show "c \<noteq> CHR '':''" "c \<noteq> CHR ''-''" "c \<noteq> CHR ''+''" by auto
qed

lemma case_char_sign:
  "(case c # cs of CHR ''-'' # r \<Rightarrow> f r | _ \<Rightarrow> g) = (if c = CHR ''-'' then f cs else g)"
  "(case c # cs of CHR ''+'' # r \<Rightarrow> f r | _ \<Rightarrow> g) = (if c = CHR ''+'' then f cs else g)"
  by (cases c; simp split: bool.split)+

lemma parse_sint_show:
  assumes "n < 2 ^ 63"
  shows "parse_sint 64 (show_nat n) = Some (int n)"
proof -
  obtain c cs where s: "show_nat n = c # cs" by (meson neq_Nil_conv show_nat_nonempty)
  then have "c \<noteq> CHR ''-''" "c \<noteq> CHR ''+''" using show_nat_not_sign [of c n] by auto
  moreover have "parse_nat (c # cs) = Some n" using parse_digits_show [of n] by (simp add: parse_nat_def s)
  ultimately show ?thesis using assms unfolding parse_sint_def s case_char_sign by simp
qed

lemma foreign_payload_made:
  assumes "uuid_text (bs_uuid_parse b) us" and "CHR '':'' \<notin> set x" and "parse x = Some v"
  shows "foreign_payload b parse (x @ '':'' @ us inst) =
    (if inst = cv_instance (bs_collab b) then None else Some v)"
  using assms by (simp add: foreign_payload_def split_once_append uuid_text_def)

end
