(* ===== verification/Collab_Delivery.thy ===== *)
theory Collab_Delivery
  imports Bus Collab_Lines
begin

text \<open>
  What the live sessions deliver: a connection is sent nothing about a note its user could not
  read when it joined, in any interleaving of any number of connections with the bus and with
  the rest of the system; and what a batch of operations broadcasts is what it committed.
\<close>

subsection \<open>Queues and subscribers\<close>

fun msg_note :: "server_msg \<Rightarrow> uuid option" where
  "msg_note (Welcome n _) = Some n"
| "msg_note (OpMsg _ n _ _) = Some n"
| "msg_note (PresenceMsg n _) = Some n"
| "msg_note (ErrorMsg _ _ _) = None"

text \<open>
  \<open>A\<close> is the set of connections and notes that were admitted. Subscribers are admitted to the
  note of their session and nobody has a message about a note it was not admitted to.
\<close>

definition may_tell :: "(nat \<times> uuid) set \<Rightarrow> nat \<Rightarrow> server_msg \<Rightarrow> bool" where
  "may_tell A c m = (case msg_note m of None \<Rightarrow> True | Some n \<Rightarrow> (c, n) \<in> A)"

definition admits :: "(nat \<times> uuid) set \<Rightarrow> registry \<Rightarrow> bool" where
  "admits A rg \<longleftrightarrow>
     (\<forall>a s. tbl_get (rg_heap rg) a = Some s \<longrightarrow> (\<forall>c\<in>set (se_subs s). (c, fst a) \<in> A)) \<and>
     (\<forall>n a. tbl_get (rg_sessions rg) n = Some a \<longrightarrow> fst a = n) \<and>
     (\<forall>c q. tbl_get (rg_queues rg) c = Some q \<longrightarrow> (\<forall>m\<in>set q. may_tell A c m))"

lemma admitsD:
  assumes "admits A rg"
  shows "tbl_get (rg_heap rg) a = Some s \<Longrightarrow> c \<in> set (se_subs s) \<Longrightarrow> (c, fst a) \<in> A"
    and "tbl_get (rg_sessions rg) n = Some a \<Longrightarrow> fst a = n"
    and "tbl_get (rg_queues rg) c = Some q \<Longrightarrow> m \<in> set q \<Longrightarrow> may_tell A c m"
  using assms unfolding admits_def by blast+

named_theorems admits_intros \<open>the operations of the registry keep \<open>admits\<close>\<close>

lemma admits_mono: "admits A rg \<Longrightarrow> A \<subseteq> B \<Longrightarrow> admits B rg"
  unfolding admits_def may_tell_def by (fastforce split: option.splits)

lemma admits_try_send [admits_intros]: "admits A rg \<Longrightarrow> may_tell A c m \<Longrightarrow> admits A (try_send c m rg)"
  by (auto simp: admits_def try_send_def)

lemma admits_subscribe [admits_intros]: "admits A rg \<Longrightarrow> (c, fst a) \<in> A \<Longrightarrow> admits A (subscribe a c rg)"
  by (auto simp: admits_def subscribe_def split: if_splits)

lemma admits_unsubscribe [admits_intros]: "admits A rg \<Longrightarrow> admits A (unsubscribe a cs rg)"
  by (auto simp: admits_def unsubscribe_def split: if_splits)

lemma admits_bump [admits_intros]: "admits A rg \<Longrightarrow> admits A (snd (bump_seq a rg))"
  by (auto simp: admits_def bump_seq_def split: if_splits)

lemma admits_get_or_create:
  assumes "admits A rg" and "get_or_create n rg = (a, rg')"
  shows "admits A rg' \<and> fst a = n"
proof (cases "tbl_get (rg_sessions rg) n")
  case None
  with assms(2) have rg': "a = (n, rg_next_addr rg)"
    "rg' = rg\<lparr>rg_sessions := tbl_put n a (rg_sessions rg),
       rg_heap := tbl_put a \<lparr>se_seq = 0, se_subs = []\<rparr> (rg_heap rg), rg_next_addr := Suc (rg_next_addr rg)\<rparr>"
    by (auto simp: get_or_create_def Let_def)
  from assms(1) have "admits A rg'"
    unfolding rg'(2) admits_def by (simp add: rg'(1) del: split_paired_All)
  with rg'(1) show ?thesis by simp
next
  case (Some b)
  with assms admitsD(2) [OF assms(1) Some] show ?thesis by (simp add: get_or_create_def)
qed

lemma admits_drop [admits_intros]: "admits A rg \<Longrightarrow> admits A (drop_if_empty n rg)"
  by (auto simp: admits_def drop_if_empty_def split: option.splits if_splits)

lemma subs_of_admitted: "admits A rg \<Longrightarrow> c \<in> set (subs_of a rg) \<Longrightarrow> (c, fst a) \<in> A"
  by (cases "tbl_get (rg_heap rg) a") (auto simp: subs_of_def dest: admitsD(1))

lemma admits_send_all:
  assumes "admits A rg" and "\<And>c. c \<in> set cs \<Longrightarrow> may_tell A c m"
  shows "admits A (snd (send_all cs m rg))"
  using assms
  by (induction cs m rg rule: send_all.induct) (auto simp: Let_def case_prod_beta intro: admits_try_send)

lemma admits_broadcast [admits_intros]:
  assumes "admits A rg" and "msg_note m = Some (fst a)"
  shows "admits A (broadcast a m skip rg)"
proof -
  have "admits A (snd (send_all (filter (\<lambda>c. Some c \<noteq> skip) (subs_of a rg)) m rg))"
    using assms subs_of_admitted [OF assms(1)] by (intro admits_send_all) (auto simp: may_tell_def)
  then show ?thesis by (simp add: broadcast_def case_prod_beta admits_unsubscribe)
qed

lemma admits_deliver_presence [admits_intros]:
  assumes "admits A rg"
  shows "admits A (deliver_presence env n sh rg)"
proof -
  have "fst a = n" if "get_session n rg = Some a" for a
    using admitsD(2) [OF assms] that by (simp add: get_session_def)
  with assms show ?thesis
    by (auto simp: deliver_presence_def intro!: admits_broadcast split: option.split)
qed

lemma admits_deliver_event [admits_intros]:
  assumes "admits A rg"
  shows "admits A (deliver_event env e rg)"
proof -
  have "fst a = ev_note_id e" if "get_session (ev_note_id e) rg = Some a" for a
    using admitsD(2) [OF assms] that by (simp add: get_session_def)
  with assms show ?thesis
    by (auto simp: deliver_event_def case_prod_beta intro!: admits_broadcast admits_bump split: option.split)
qed

lemma admits_announce [admits_intros]: "admits A (fst st) \<Longrightarrow> admits A (fst (announce_presence env n st))"
  by (auto simp: announce_presence_def case_prod_beta intro: admits_deliver_presence)

lemma admits_touch [admits_intros]: "admits A (fst st) \<Longrightarrow> admits A (fst (snd (touch_presence env cn n cur st)))"
  by (auto simp: touch_presence_def case_prod_beta intro!: admits_announce split: option.split)

lemma admits_clear [admits_intros]: "admits A (fst st) \<Longrightarrow> admits A (fst (clear_presence env c n st))"
  by (auto simp: clear_presence_def case_prod_beta intro!: admits_announce)

lemma admits_leave [admits_intros]: "admits A (fst st) \<Longrightarrow> admits A (fst (leave_session env c j st))"
  by (auto simp: leave_session_def case_prod_beta Let_def intro!: admits_drop admits_clear admits_unsubscribe)

lemma may_tell_error [simp]: "may_tell A c (ErrorMsg code message n)"
  by (simp add: may_tell_def)

lemma admits_error [admits_intros]:
  "admits A rg \<Longrightarrow> admits A (send_note_error c n code message rg)"
  "admits A rg \<Longrightarrow> admits A (send_error c code message rg)"
  by (simp_all add: send_note_error_def send_error_def admits_try_send)

lemma admits_refusals [admits_intros]: "admits A rg \<Longrightarrow> admits A (send_refusals c n errs rg)"
  unfolding send_refusals_def by (induction errs arbitrary: rg) (auto intro: admits_error)

lemma admits_publish [admits_intros]:
  "admits A (fst st) \<Longrightarrow> fst a = n \<Longrightarrow> admits A (fst (publish_ops env cn n a applied st))"
  by (auto simp: publish_ops_def case_prod_beta Let_def intro!: admits_broadcast admits_bump split: option.split sum.split)

subsection \<open>Messages\<close>

definition joined_ok :: "(nat \<times> uuid) set \<Rightarrow> nat \<Rightarrow> joined \<Rightarrow> bool" where
  "joined_ok A c j \<longleftrightarrow> (\<forall>n a. tbl_get j n = Some a \<longrightarrow> fst a = n \<and> (c, n) \<in> A)"

text \<open>The note a frame asks to join, if the user may read it.\<close>

definition join_admitted :: "conn \<Rightarrow> ws_frame \<Rightarrow> shared \<Rightarrow> (nat \<times> uuid) set" where
  "join_admitted cn f sh =
     (case f of
        TextFrame (Inr (Join n)) \<Rightarrow> if Read \<in> rights (sh_db sh) n (cn_user_id cn) then {(cn_id cn, n)} else {}
      | _ \<Rightarrow> {})"

lemma access_of_rights:
  assumes "find_note env n sh = Inr (Some row)" and "access_of env row u sh = Inr access"
  shows "cap_set (bits (acc_caps access)) = rights (sh_db sh) n u"
proof -
  have "get_note_on (app_store (cv_app env)) n (sh_db sh) = Inr (Some row)"
    using assms(1) by (simp add: find_note_def stmt_def split: option.splits)
  then obtain n0 t where "live_note (sh_db sh) n = Some n0" "row = n0\<lparr>n_title := t\<rparr>" by (rule get_note_on_Some)
  moreover have "resolve_note_access_on (app_scheme (cv_app env)) row u (sh_db sh) = Inr access"
    using assms(2) by (simp add: access_of_def stmt_def split: option.splits)
  ultimately show ?thesis using resolve_note_access_Inr by (simp add: rights_def)
qed

lemma joined_ok_mono: "joined_ok A c j \<Longrightarrow> A \<subseteq> B \<Longrightarrow> joined_ok B c j"
  unfolding joined_ok_def by blast

lemma join_keeps:
  assumes "admits A rg" and "joined_ok A (cn_id cn) j" and "(cn_id cn, n) \<in> A"
    and "join_note env cn n (j, rg, sh) = (r, j', rg', sh')"
  shows "joined_ok A (cn_id cn) j' \<and> admits A rg'"
proof -
  obtain a rg1 where go: "get_or_create n rg = (a, rg1)" by fastforce
  from admits_get_or_create [OF assms(1) go] have a: "admits A rg1" "fst a = n" by auto
  with assms(3) have sub: "admits A (try_send (cn_id cn) (Welcome n s) (subscribe a (cn_id cn) rg1))" for s
    by (intro admits_intros) (simp_all add: may_tell_def)
  have tp: "admits A rg2"
    if "touch_presence env cn n None
      (try_send (cn_id cn) (Welcome n s) (subscribe a (cn_id cn) rg1), sh) = (r2, rg2, sh2)" for s r2 rg2 sh2
    using admits_touch [of A "(try_send (cn_id cn) (Welcome n s) (subscribe a (cn_id cn) rg1), sh)" env cn n None]
      sub that by simp
  from assms(2,3) a(2) have j: "joined_ok A (cn_id cn) (tbl_put n a j)"
    by (simp add: joined_ok_def del: split_paired_All)
  show ?thesis
    using assms(2,4) go a tp j
    by (auto simp: join_note_def join_enter_def Let_def split: sum.splits prod.splits)
qed

lemma handle_join_keeps:
  assumes "admits A rg" and "joined_ok A (cn_id cn) j"
    and "handle_join env cn n (j, rg, sh) = (r, j', rg', sh')"
  shows "joined_ok (A \<union> join_admitted cn (TextFrame (Inr (Join n))) sh) (cn_id cn) j' \<and>
         admits (A \<union> join_admitted cn (TextFrame (Inr (Join n))) sh) rg'"
    (is "joined_ok ?B _ _ \<and> _")
proof -
  from assms have B: "admits ?B rg" "joined_ok ?B (cn_id cn) j"
    by (auto intro: admits_mono joined_ok_mono)
  show ?thesis
  proof (cases "\<exists>row a. find_note env n sh = Inr (Some row) \<and> access_of env row (cn_user_id cn) sh = Inr a \<and> acc_can_read a")
    case True
    then obtain row a where acc: "find_note env n sh = Inr (Some row)"
      "access_of env row (cn_user_id cn) sh = Inr a" "acc_can_read a" by blast
    from access_of_rights [OF acc(1,2)] acc(3) have "Read \<in> rights (sh_db sh) n (cn_user_id cn)"
      by (auto simp: acc_can_read_def can_read_def cap_set_def)
    then have "(cn_id cn, n) \<in> ?B" by (simp add: join_admitted_def)
    with B acc assms(3) show ?thesis by (auto simp: handle_join_def intro: join_keeps dest: join_keeps)
  next
    case False
    with B assms(3) show ?thesis
      by (auto simp: handle_join_def intro: admits_error split: sum.splits option.splits if_splits)
  qed
qed

lemma handle_ops_keeps:
  assumes "admits A rg" and "joined_ok A (cn_id cn) j"
    and "handle_ops env cn n ops (j, rg, sh) = (r, j', rg', sh')"
  shows "joined_ok A (cn_id cn) j' \<and> admits A rg'"
proof -
  have "joined_ok A (cn_id cn) j1 \<and> admits A rg1"
    if "tbl_get j n = Some a" "apply_batch env cn n a ops (j, rg, sh) = (r1, j1, rg1, sh1)" for a r1 j1 rg1 sh1
  proof -
    from assms(2) that(1) have a: "fst a = n" unfolding joined_ok_def by blast
    have "admits A (send_refusals (cn_id cn) n errs rg)" for errs using assms(1) by (rule admits_refusals)
    with a have "admits A rg2"
      if "publish_ops env cn n a ap (send_refusals (cn_id cn) n errs rg, s) = (rg2, s2)" for errs ap s rg2 s2
      using admits_publish [of A "(send_refusals (cn_id cn) n errs rg, s)" a n env cn ap] that by simp
    with that(2) assms(1,2) show ?thesis
      by (auto simp: apply_batch_def Let_def intro: admits_refusals split: option.splits prod.splits sum.splits)
  qed
  with assms show ?thesis
    by (auto simp: handle_ops_def intro: admits_error split: sum.splits option.splits if_splits)
qed

lemma handle_leave_keeps:
  assumes "admits A rg" and "joined_ok A c j"
    and "handle_leave env cn n (j, rg, sh) = (r, j', rg', sh')"
  shows "joined_ok A c j' \<and> admits A rg'"
proof (cases "tbl_get j n")
  case None
  with assms show ?thesis by (simp add: handle_leave_def)
next
  case (Some a)
  from assms(2) have "joined_ok A c (tbl_del n j)" by (simp add: joined_ok_def del: split_paired_All)
  moreover have "admits A (fst (leave_session env (cn_id cn) (n, a) (rg, sh)))"
    using assms(1) by (intro admits_leave) simp
  ultimately show ?thesis using assms(3) Some by (auto simp: handle_leave_def)
qed

lemma handle_msg_keeps:
  assumes "admits A rg" and "joined_ok A (cn_id cn) j"
    and "handle_msg env cn m (j, rg, sh) = (r, j', rg', sh')"
  shows "joined_ok (A \<union> join_admitted cn (TextFrame (Inr m)) sh) (cn_id cn) j' \<and>
         admits (A \<union> join_admitted cn (TextFrame (Inr m)) sh) rg'"
proof (cases m)
  case (Join n)
  with assms show ?thesis using handle_join_keeps by simp
next
  case (CursorMsg n cur)
  have "admits A (fst (snd (touch_presence env cn n (Some cur) (rg, sh))))"
    using assms(1) by (intro admits_touch) simp
  with CursorMsg assms show ?thesis
    by (auto simp: join_admitted_def split: if_splits prod.splits)
next
  case (OpBatch n ops)
  with assms handle_ops_keeps [OF assms(1,2), of env n ops sh r j' rg' sh'] show ?thesis
    by (simp add: join_admitted_def)
next
  case (Leave n)
  with assms handle_leave_keeps [OF assms(1,2), of env cn n sh r j' rg' sh'] show ?thesis
    by (simp add: join_admitted_def)
next
  case (Ack q)
  with assms show ?thesis by (simp add: join_admitted_def)
qed

lemma handle_frame_keeps:
  assumes "admits A rg" and "joined_ok A (cn_id cn) j"
    and "handle_frame env cn f (j, rg, sh) = (j', rg', sh')"
  shows "joined_ok (A \<union> join_admitted cn f sh) (cn_id cn) j' \<and> admits (A \<union> join_admitted cn f sh) rg'"
proof (cases f)
  case (TextFrame x)
  show ?thesis
  proof (cases x)
    case (Inl e)
    with TextFrame assms show ?thesis by (auto simp: join_admitted_def intro: admits_error)
  next
    case (Inr m)
    obtain r j1 rg1 sh1 where hm: "handle_msg env cn m (j, rg, sh) = (r, j1, rg1, sh1)" by (metis prod_cases4)
    from handle_msg_keeps [OF assms(1,2) hm] TextFrame Inr assms(3) hm show ?thesis
      by (auto intro: admits_error split: sum.splits)
  qed
qed (use assms in \<open>simp_all add: join_admitted_def\<close>)

lemma close_keeps:
  assumes "admits A rg" and "close_conn env cn (j, rg, sh) = (rg', sh')"
  shows "admits A rg'"
proof -
  have "admits A (fst (fold (leave_session env (cn_id cn)) js st))" if "admits A (fst st)" for js st
    using that by (induction js arbitrary: st) (simp_all add: admits_leave)
  then have "admits A (fst (fold (leave_session env (cn_id cn)) j (rg, sh)))" using assms(1) by simp
  then have "admits A (fst (fold (leave_session env (cn_id cn)) j (rg, sh))
      \<lparr>rg_queues := tbl_del (cn_id cn) (rg_queues (fst (fold (leave_session env (cn_id cn)) j (rg, sh))))\<rparr>)"
    unfolding admits_def by (simp del: split_paired_All)
  with assms(2) show ?thesis by (auto simp: close_conn_def case_prod_beta Let_def)
qed

subsection \<open>Interleavings\<close>

text \<open>
  One instance: its registry, the tables it shares with the others, and for every open
  connection its identity and its joined notes. \<open>L\<close> logs the frames that were handled, each with
  its connection and the shared state it met; \<open>elsewhere\<close> is any statement of any other part or
  instance.
\<close>

record collab_sys =
  sy_reg :: registry
  sy_sh :: shared
  sy_conns :: "(nat, conn \<times> joined) table"

inductive runs :: "(conn \<times> ws_frame \<times> shared) list \<Rightarrow> collab_sys \<Rightarrow> bool" where
  start: "runs [] \<lparr>sy_reg = empty_registry, sy_sh = sh, sy_conns = []\<rparr>"
| connect: "runs L s \<Longrightarrow> open_conn (sy_reg s) = (cn_id cn, rg') \<Longrightarrow>
    runs L (s\<lparr>sy_reg := rg', sy_conns := tbl_put (cn_id cn) (cn, []) (sy_conns s)\<rparr>)"
| frame: "runs L s \<Longrightarrow> tbl_get (sy_conns s) c = Some (cn, j) \<Longrightarrow>
    handle_frame env cn f (j, sy_reg s, sy_sh s) = (j', rg', sh') \<Longrightarrow>
    runs ((cn, f, sy_sh s) # L) (s\<lparr>sy_reg := rg', sy_sh := sh', sy_conns := tbl_put c (cn, j') (sy_conns s)\<rparr>)"
| close: "runs L s \<Longrightarrow> tbl_get (sy_conns s) c = Some (cn, j) \<Longrightarrow>
    close_conn env cn (j, sy_reg s, sy_sh s) = (rg', sh') \<Longrightarrow>
    runs L (s\<lparr>sy_reg := rg', sy_sh := sh', sy_conns := tbl_del c (sy_conns s)\<rparr>)"
| bus: "runs L s \<Longrightarrow> handle_notification b n (sy_sh s) (sy_reg s, hub) = (rg', hub') \<Longrightarrow>
    runs L (s\<lparr>sy_reg := rg'\<rparr>)"
| written: "runs L s \<Longrightarrow> write_out c (sy_reg s) = (m, rg') \<Longrightarrow> runs L (s\<lparr>sy_reg := rg'\<rparr>)"
| writer_gone: "runs L s \<Longrightarrow>
    runs L (s\<lparr>sy_reg := (sy_reg s)\<lparr>rg_queues := tbl_del c (rg_queues (sy_reg s))\<rparr>\<rparr>)"
| elsewhere: "runs L s \<Longrightarrow> runs L (s\<lparr>sy_sh := sh'\<rparr>)"

definition admitted :: "(conn \<times> ws_frame \<times> shared) list \<Rightarrow> (nat \<times> uuid) set" where
  "admitted L = (\<Union>(cn, f, sh)\<in>set L. join_admitted cn f sh)"

lemma admitted_Cons: "admitted ((cn, f, sh) # L) = admitted L \<union> join_admitted cn f sh"
  by (auto simp: admitted_def)

lemma admitted_iff:
  "(c, n) \<in> admitted L \<longleftrightarrow>
     (\<exists>cn sh. (cn, TextFrame (Inr (Join n)), sh) \<in> set L \<and> cn_id cn = c \<and> Read \<in> rights (sh_db sh) n (cn_user_id cn))"
proof -
  have one: "(c, n) \<in> join_admitted cn f sh \<longleftrightarrow>
      f = TextFrame (Inr (Join n)) \<and> cn_id cn = c \<and> Read \<in> rights (sh_db sh) n (cn_user_id cn)" for cn f sh
    by (auto simp: join_admitted_def split: ws_frame.splits sum.splits client_msg.splits)
  have "(c, n) \<in> admitted L \<longleftrightarrow> (\<exists>cn f sh. (cn, f, sh) \<in> set L \<and> (c, n) \<in> join_admitted cn f sh)"
    unfolding admitted_def by (simp add: case_prod_beta) (metis prod.collapse fst_conv snd_conv)
  then show ?thesis unfolding one by blast
qed

definition conns_ok :: "(nat \<times> uuid) set \<Rightarrow> (nat, conn \<times> joined) table \<Rightarrow> bool" where
  "conns_ok A cs \<longleftrightarrow> (\<forall>c cn j. tbl_get cs c = Some (cn, j) \<longrightarrow> cn_id cn = c \<and> joined_ok A c j)"

lemma conns_okD: "conns_ok A cs \<Longrightarrow> tbl_get cs c = Some (cn, j) \<Longrightarrow> cn_id cn = c \<and> joined_ok A c j"
  by (simp add: conns_ok_def)

lemma conns_ok_mono: "conns_ok A cs \<Longrightarrow> A \<subseteq> B \<Longrightarrow> conns_ok B cs"
  unfolding conns_ok_def by (blast intro: joined_ok_mono)

lemma conns_ok_put: "conns_ok A cs \<Longrightarrow> joined_ok A (cn_id cn) j \<Longrightarrow> conns_ok A (tbl_put (cn_id cn) (cn, j) cs)"
  by (simp add: conns_ok_def)

lemma conns_ok_del: "conns_ok A cs \<Longrightarrow> conns_ok A (tbl_del c cs)"
  by (simp add: conns_ok_def)

lemma admits_queues [admits_intros]:
  "admits A rg \<Longrightarrow> open_conn rg = (c, rg') \<Longrightarrow> admits A rg'"
  "admits A rg \<Longrightarrow> write_out c rg = (m, rg') \<Longrightarrow> admits A rg'"
  "admits A rg \<Longrightarrow> admits A (rg\<lparr>rg_queues := tbl_del c (rg_queues rg)\<rparr>)"
  by (auto simp: admits_def open_conn_def write_out_def split: option.splits list.splits if_splits)

lemma admits_bus [admits_intros]:
  assumes "admits A rg" and "handle_notification b n sh (rg, hub) = (rg', hub')"
  shows "admits A rg'"
  using assms
  by (cases n) (auto simp: handle_notification_def handle_collab_op_def handle_collab_presence_def
      intro!: admits_deliver_presence admits_deliver_event split: if_splits option.splits)

lemma runs_admits: "runs L s \<Longrightarrow> admits (admitted L) (sy_reg s) \<and> conns_ok (admitted L) (sy_conns s)"
proof (induction rule: runs.induct)
  case (start sh)
  show ?case by (simp add: admits_def conns_ok_def empty_registry_def)
next
  case (connect L s cn rg')
  then have "admits (admitted L) rg'" by (blast intro: admits_queues(1))
  moreover have "joined_ok (admitted L) (cn_id cn) []" by (simp add: joined_ok_def)
  ultimately show ?case using connect.IH by (simp add: conns_ok_put)
next
  case (frame L s c cn j env f j' rg' sh')
  from frame.IH have a: "admits (admitted L) (sy_reg s)" and "conns_ok (admitted L) (sy_conns s)" by blast+
  from conns_okD [OF this(2) frame.hyps(2)] have c: "cn_id cn = c" and j: "joined_ok (admitted L) (cn_id cn) j" by auto
  from handle_frame_keeps [OF a j frame.hyps(3)] frame.IH
  show ?case by (auto simp: admitted_Cons c intro: conns_ok_put [of _ _ cn j', unfolded c] conns_ok_mono)
next
  case (close L s c cn j env rg' sh')
  then show ?case using close_keeps [OF _ close.hyps(3)] by (simp add: conns_ok_del)
next
  case (bus L s b n hub rg' hub')
  then show ?case using admits_bus [OF _ bus.hyps(2)] by simp
next
  case (written L s c m rg')
  then show ?case using admits_queues(2) [OF _ written.hyps(2)] by simp
next
  case (writer_gone L s c)
  then show ?case using admits_queues(3) by simp
qed simp

subsection \<open>A batch of operations\<close>

definition subs_distinct :: "registry \<Rightarrow> bool" where
  "subs_distinct rg \<longleftrightarrow> (\<forall>a. distinct (subs_of a rg))"

lemma subs_distinctD: "subs_distinct rg \<Longrightarrow> distinct (subs_of a rg)"
  unfolding subs_distinct_def by blast

lemma op_loop_apply_ops:
  assumes "op_loop env n dev i ops d = (errs, Inr (applied, d'))"
  shows "apply_ops (app_core (cv_app env)) (app_store (cv_app env)) (cv_nonces env) (cv_now env) n dev i ops d =
    Inr (applied, errs, d')"
  using assms
proof (induction ops arbitrary: i d errs applied)
  case (Cons op ops)
  from Cons.prems obtain out d1 where
    hd: "apply_op (app_core (cv_app env)) (app_store (cv_app env)) (cv_nonces env i) (cv_now env) n dev op d = Inr (out, d1)"
    by (auto split: sum.splits)
  obtain errs1 r where lp: "op_loop env n dev (Suc i) ops d1 = (errs1, r)" by fastforce
  from Cons.prems hd lp obtain applied1 where r: "r = Inr (applied1, d')"
    by (cases r) (auto split: op_outcome.splits)
  from Cons.IH [OF lp [unfolded r]] Cons.prems hd lp r show ?case
    by (cases out) auto
qed simp

lemma has_room_try_send: "c' \<noteq> c \<Longrightarrow> has_room c' (try_send c m rg) = has_room c' rg"
  by (simp add: has_room_def try_send_def)

text \<open>\<open>try_send\<close> on each of several connections: who has room gets the message.\<close>

lemma send_all_spec:
  assumes "distinct cs"
  shows "fst (send_all cs m rg) = filter (\<lambda>c. \<not> has_room c rg) cs
    \<and> tbl_get (rg_queues (snd (send_all cs m rg))) c =
        (if c \<in> set cs \<and> has_room c rg then map_option (\<lambda>q. q @ [m]) (tbl_get (rg_queues rg) c)
         else tbl_get (rg_queues rg) c)
    \<and> rg_heap (snd (send_all cs m rg)) = rg_heap rg \<and> rg_sessions (snd (send_all cs m rg)) = rg_sessions rg"
  using assms
proof (induction cs m rg rule: send_all.induct)
  case (2 c0 cs m rg)
  have room: "has_room e (try_send c0 m rg) = has_room e rg" if "e \<in> set cs" for e
    using "2.prems" that by (intro has_room_try_send) auto
  then have "filter (\<lambda>c. \<not> has_room c (try_send c0 m rg)) cs = filter (\<lambda>c. \<not> has_room c rg) cs"
    by (intro filter_cong) simp_all
  moreover have "rg_heap (try_send c0 m rg) = rg_heap rg" "rg_sessions (try_send c0 m rg) = rg_sessions rg"
    by (simp_all add: try_send_def)
  moreover have "tbl_get (rg_queues (try_send c0 m rg)) c =
      (if c = c0 \<and> has_room c rg then map_option (\<lambda>q. q @ [m]) (tbl_get (rg_queues rg) c)
       else tbl_get (rg_queues rg) c)" by (auto simp: try_send_def)
  moreover note room [of c]
  ultimately show ?case using 2 by (auto simp: Let_def case_prod_beta)
qed simp

lemma broadcast_spec:
  assumes "distinct (subs_of a rg)"
  shows "tbl_get (rg_queues (broadcast a m skip rg)) c =
      (if c \<in> set (subs_of a rg) \<and> Some c \<noteq> skip \<and> has_room c rg
       then map_option (\<lambda>q. q @ [m]) (tbl_get (rg_queues rg) c) else tbl_get (rg_queues rg) c)"
    and "c \<in> set (subs_of a (broadcast a m skip rg)) \<longleftrightarrow>
      c \<in> set (subs_of a rg) \<and> (Some c = skip \<or> has_room c rg)"
proof -
  note sa = send_all_spec [of "filter (\<lambda>c. Some c \<noteq> skip) (subs_of a rg)" m rg]
  have d: "distinct (filter (\<lambda>c. Some c \<noteq> skip) (subs_of a rg))" using assms by simp
  show "tbl_get (rg_queues (broadcast a m skip rg)) c =
      (if c \<in> set (subs_of a rg) \<and> Some c \<noteq> skip \<and> has_room c rg
       then map_option (\<lambda>q. q @ [m]) (tbl_get (rg_queues rg) c) else tbl_get (rg_queues rg) c)"
    using sa [OF d, of c] by (auto simp: broadcast_def case_prod_beta unsubscribe_def)
  show "c \<in> set (subs_of a (broadcast a m skip rg)) \<longleftrightarrow>
      c \<in> set (subs_of a rg) \<and> (Some c = skip \<or> has_room c rg)"
    using sa [OF d]
    by (auto simp: broadcast_def case_prod_beta unsubscribe_def subs_of_def split: option.splits)
qed

lemma send_refusals_kept:
  "rg_heap (send_refusals c n errs rg) = rg_heap rg"
  "e \<noteq> c \<Longrightarrow> tbl_get (rg_queues (send_refusals c n errs rg)) e = tbl_get (rg_queues rg) e"
  unfolding send_refusals_def
  by (induction errs arbitrary: rg) (auto simp: send_note_error_def try_send_def)

lemma send_refusals_subs [simp]: "subs_of a (send_refusals c n errs rg) = subs_of a rg"
  by (simp add: subs_of_def send_refusals_kept)

lemma bump_seq_kept [simp]:
  "subs_of a' (snd (bump_seq a rg)) = subs_of a' rg" "rg_queues (snd (bump_seq a rg)) = rg_queues rg"
  by (auto simp: bump_seq_def subs_of_def split: option.splits)

lemma has_room_queues: "tbl_get (rg_queues rg') c = tbl_get (rg_queues rg) c \<Longrightarrow> has_room c rg' = has_room c rg"
  by (simp add: has_room_def)

lemma has_roomE:
  assumes "has_room c rg"
  obtains q where "tbl_get (rg_queues rg) c = Some q"
  using assms by (auto simp: has_room_def split: option.splits)

lemma publish_ops_local:
  assumes "applied \<noteq> []" and "publish_ops env cn n a applied (rg, sh) = (rg', sh')"
  shows "rg' = broadcast a (OpMsg (fst (bump_seq a rg)) n (env_uuid env (cn_user_id cn)) applied) (Some (cn_id cn))
      (snd (bump_seq a rg))" and "sh_db sh' = sh_db sh"
  using assms
  by (auto simp: publish_ops_def Let_def case_prod_beta insert_collab_event_def stmt_def notify_def
      split: option.splits sum.splits prod.splits)

lemma touch_presence_db: "touch_presence env cn n cur (rg, sh) = (r, rg', sh') \<Longrightarrow> sh_db sh' = sh_db sh"
  by (auto simp: touch_presence_def announce_presence_def notify_def upsert_presence_def Let_def split: option.splits)

lemma send_refusals_nil [simp]: "send_refusals c n [] rg = rg"
  by (simp add: send_refusals_def)

text \<open>A message that changed the database was a batch by a writer who had joined the note.\<close>

lemma handle_ops_changed:
  assumes "handle_ops env cn n ops (j, rg, sh) = (r, j', rg', sh')" and "sh_db sh' \<noteq> sh_db sh"
  obtains a applied errs d' where "tbl_get j n = Some a" "Write \<in> rights (sh_db sh) n (cn_user_id cn)"
    "op_loop env n (cn_device_id cn) 0 ops (sh_db sh) = (errs, Inr (applied, d'))" "applied \<noteq> []"
    "publish_ops env cn n a applied (send_refusals (cn_id cn) n errs rg, sh\<lparr>sh_db := d'\<rparr>) = (rg', sh')" "sh_db sh' = d'"
proof -
  from assms obtain a row access where
    a: "tbl_get j n = Some a" and acc: "find_note env n sh = Inr (Some row)" "access_of env row (cn_user_id cn) sh = Inr access"
      "acc_can_write access" and b: "apply_batch env cn n a ops (j, rg, sh) = (r, j', rg', sh')"
    by (auto simp: handle_ops_def split: option.splits sum.splits if_splits)
  from b assms(2) obtain errs applied d' where
    lp: "op_loop env n (cn_device_id cn) 0 ops (sh_db sh) = (errs, Inr (applied, d'))" and
    pub: "publish_ops env cn n a applied (send_refusals (cn_id cn) n errs rg, sh\<lparr>sh_db := d'\<rparr>) = (rg', sh')"
    by (auto simp: apply_batch_def Let_def split: option.splits prod.splits sum.splits)
  have w: "Write \<in> rights (sh_db sh) n (cn_user_id cn)"
    using access_of_rights [OF acc(1,2)] acc(3) by (auto simp: acc_can_write_def)
  have ne: "applied \<noteq> []"
  proof
    assume "applied = []"
    with apply_ops_applied_signed [OF op_loop_apply_ops [OF lp]] have "d' = sh_db sh" by simp
    with pub \<open>applied = []\<close> assms(2) show False by (simp add: publish_ops_def)
  qed
  from that [OF a w lp ne pub] publish_ops_local(2) [OF ne pub] show thesis by simp
qed

subsection \<open>Properties\<close>

text \<open>
  C3: a connection is sent nothing about a note that its user could not read when it joined.
  In every interleaving of any number of connections, frames, closings, notifications of other
  instances and writes of other parts, each queued \<open>Welcome\<close>, \<open>Op\<close> and \<open>Presence\<close> is about a note
  for which that connection sent a \<open>Join\<close> that met a database giving its user the right to read.
\<close>

theorem received_only_readable:
  assumes "runs L s" and "tbl_get (rg_queues (sy_reg s)) c = Some q" and "m \<in> set q" and "msg_note m = Some n"
  shows "\<exists>cn sh. (cn, TextFrame (Inr (Join n)), sh) \<in> set L \<and> cn_id cn = c
    \<and> Read \<in> rights (sh_db sh) n (cn_user_id cn)"
proof -
  have "may_tell (admitted L) c m" using admitsD(3) runs_admits [OF assms(1)] assms(2,3) by blast
  with assms(4) show ?thesis by (simp add: may_tell_def admitted_iff)
qed

text \<open>
  C9: a batch of operations that changed the database came from a connection that had joined
  the note and whose user may write it now; what it committed is what \<open>apply_ops\<close> applied; and
  every other subscriber of the session, whatever the rights of its user are by then, either
  has exactly the applied operations appended to its queue, or (its queue being full or closed)
  is unsubscribed.
\<close>

theorem committed_ops_delivered:
  assumes "subs_distinct rg" and "handle_ops env cn n ops (j, rg, sh) = (r, j', rg', sh')"
    and "sh_db sh' \<noteq> sh_db sh"
  shows "\<exists>a applied errs seq. tbl_get j n = Some a \<and> Write \<in> rights (sh_db sh) n (cn_user_id cn)
    \<and> apply_ops (app_core (cv_app env)) (app_store (cv_app env)) (cv_nonces env) (cv_now env) n
        (cn_device_id cn) 0 ops (sh_db sh) = Inr (applied, errs, sh_db sh') \<and> applied \<noteq> []
    \<and> (\<forall>c\<in>set (subs_of a rg) - {cn_id cn}.
        if has_room c rg
        then tbl_get (rg_queues rg') c = map_option
          (\<lambda>q. q @ [OpMsg seq n (env_uuid env (cn_user_id cn)) applied]) (tbl_get (rg_queues rg) c)
        else c \<notin> set (subs_of a rg'))"
proof -
  from assms(2,3) obtain a applied errs d' where a: "tbl_get j n = Some a"
    and w: "Write \<in> rights (sh_db sh) n (cn_user_id cn)"
    and lp: "op_loop env n (cn_device_id cn) 0 ops (sh_db sh) = (errs, Inr (applied, d'))" and ne: "applied \<noteq> []"
    and pub: "publish_ops env cn n a applied (send_refusals (cn_id cn) n errs rg, sh\<lparr>sh_db := d'\<rparr>) = (rg', sh')"
    and d': "sh_db sh' = d'" by (rule handle_ops_changed)
  let ?rg1 = "send_refusals (cn_id cn) n errs rg"
  let ?m = "OpMsg (fst (bump_seq a ?rg1)) n (env_uuid env (cn_user_id cn)) applied"
  have dist: "distinct (subs_of a (snd (bump_seq a ?rg1)))" using assms(1) by (simp add: subs_distinctD)
  have "if has_room c rg
      then tbl_get (rg_queues rg') c = map_option (\<lambda>q. q @ [?m]) (tbl_get (rg_queues rg) c)
      else c \<notin> set (subs_of a rg')" if c: "c \<in> set (subs_of a rg) - {cn_id cn}" for c
  proof -
    have q: "tbl_get (rg_queues (snd (bump_seq a ?rg1))) c = tbl_get (rg_queues rg) c"
      using c by (simp add: send_refusals_kept)
    show ?thesis
      unfolding publish_ops_local(1) [OF ne pub]
      using c broadcast_spec [OF dist, where m = ?m and skip = "Some (cn_id cn)" and c = c] has_room_queues [OF q] q by simp
  qed
  with a w ne op_loop_apply_ops [OF lp] d' show ?thesis by blast
qed

text \<open>
  C14: committed operations cross instances. If the statements of the origin and the read of the
  event succeed and the operations survive their JSON encoding, the notification the origin
  sent makes any other instance append the applied operations to the queue of every local
  subscriber that has room.
\<close>

theorem ops_cross_instances:
  assumes "handle_ops env cn n ops (j, rg, sh) = (r, j', rg', sh')" and "sh_db sh' \<noteq> sh_db sh"
    and "\<forall>name. cv_fails env name = None" and "cv_fails (bs_collab b) ''get_collab_event'' = None"
    and "\<forall>applied errs d'. apply_ops (app_core (cv_app env)) (app_store (cv_app env)) (cv_nonces env) (cv_now env) n
        (cn_device_id cn) 0 ops (sh_db sh) = Inr (applied, errs, d') \<longrightarrow>
      (\<exists>js. cv_ops_json env applied = Some js \<and> cv_ops_parse (bs_collab b) js = Some applied)"
    and "uuid_text (bs_uuid_parse b) (env_uuid env)" and "cv_instance (bs_collab b) \<noteq> cv_instance env"
    and "sh_next_seq sh < 2 ^ 63" and "subs_distinct rg2" and "get_session n rg2 = Some a2"
  shows "\<exists>payload applied errs seq. sh_notified sh' = sh_notified sh @ [(CH_COLLAB_OP, payload)]
    \<and> apply_ops (app_core (cv_app env)) (app_store (cv_app env)) (cv_nonces env) (cv_now env) n
        (cn_device_id cn) 0 ops (sh_db sh) = Inr (applied, errs, sh_db sh')
    \<and> (\<forall>c\<in>set (subs_of a2 rg2). has_room c rg2 \<longrightarrow>
        tbl_get (rg_queues (handle_collab_op b payload sh' rg2)) c = map_option
          (\<lambda>q. q @ [OpMsg seq n (env_uuid (bs_collab b) (cn_user_id cn)) applied]) (tbl_get (rg_queues rg2) c))"
proof -
  from assms(1,2) obtain a applied errs d' where
    lp: "op_loop env n (cn_device_id cn) 0 ops (sh_db sh) = (errs, Inr (applied, d'))" and ne: "applied \<noteq> []"
    and pub: "publish_ops env cn n a applied (send_refusals (cn_id cn) n errs rg, sh\<lparr>sh_db := d'\<rparr>) = (rg', sh')"
    and d': "sh_db sh' = d'" by (rule handle_ops_changed)
  obtain js where js: "cv_ops_json env applied = Some js" "cv_ops_parse (bs_collab b) js = Some applied"
    using assms(5) op_loop_apply_ops [OF lp] by blast
  let ?p = "show_nat (sh_next_seq sh) @ '':'' @ env_uuid env (cv_instance env)"
  from pub ne js(1) assms(3) have nt: "sh_notified sh' = sh_notified sh @ [(CH_COLLAB_OP, ?p)]"
    and ev: "\<exists>e. get_collab_event (sh_next_seq sh) sh' = Some e \<and> ev_note_id e = n \<and> ev_ops e = js
      \<and> ev_user_id e = cn_user_id cn"
    by (auto simp: publish_ops_def Let_def case_prod_beta insert_collab_event_def stmt_def notify_def
        get_collab_event_def CH_COLLAB_OP_def)
  have "CHR '':'' \<notin> set (show_nat (sh_next_seq sh))" using show_nat_not_sign(1) by blast
  from foreign_payload_made [where parse = "parse_sint 64" and inst = "cv_instance env", OF assms(6) this
      parse_sint_show [OF assms(8)]] assms(7)
  have fp: "foreign_payload b (parse_sint 64) ?p = Some (int (sh_next_seq sh))" by simp
  from ev obtain e where e: "get_collab_event (sh_next_seq sh) sh' = Some e" "ev_note_id e = n" "ev_ops e = js"
    "ev_user_id e = cn_user_id cn" by blast
  let ?m = "OpMsg (fst (bump_seq a2 rg2)) n (env_uuid (bs_collab b) (cn_user_id cn)) applied"
  have del: "handle_collab_op b ?p sh' rg2 = broadcast a2 ?m None (snd (bump_seq a2 rg2))"
    using fp assms(4,10) e js(2) by (simp add: handle_collab_op_def deliver_event_def case_prod_beta)
  have "distinct (subs_of a2 (snd (bump_seq a2 rg2)))" using assms(9) by (simp add: subs_distinctD)
  from broadcast_spec(1) [OF this, of ?m None] has_room_queues [of "snd (bump_seq a2 rg2)" _ rg2]
  have "\<forall>c\<in>set (subs_of a2 rg2). has_room c rg2 \<longrightarrow>
      tbl_get (rg_queues (handle_collab_op b ?p sh' rg2)) c = map_option (\<lambda>q. q @ [?m]) (tbl_get (rg_queues rg2) c)"
    unfolding del by simp
  with nt op_loop_apply_ops [OF lp] d' show ?thesis by blast
qed

subsection \<open>Closed instances\<close>

definition ops_text :: "line_op list \<Rightarrow> json option" where
  "ops_text l = (if l = demo_ops then Some (JStr ''ops'') else None)"

definition live_env :: "uuid \<Rightarrow> collab_env" where
  "live_env inst = \<lparr>cv_app = demo_app, cv_instance = inst, cv_now = 9, cv_nonces = (\<lambda>_. []),
     cv_ops_json = ops_text, cv_ops_parse = (\<lambda>_. Some demo_ops), cv_fails = (\<lambda>_. None)\<rparr>"

definition live_shared :: shared where
  "live_shared = \<lparr>sh_db = demo_db, sh_presence = [], sh_events = [], sh_next_seq = 1, sh_notified = []\<rparr>"

definition live_conn :: "nat \<Rightarrow> conn" where
  "live_conn c = \<lparr>cn_id = c, cn_user_id = 1, cn_device_id = 1, cn_display_name = ''n''\<rparr>"

text \<open>Two connections of the owner have joined note 5.\<close>

definition live_registry :: registry where
  "live_registry = \<lparr>rg_sessions = [(5, (5, 0))], rg_heap = [((5, 0), \<lparr>se_seq = 0, se_subs = [0, 1]\<rparr>)],
     rg_next_addr = 1, rg_next_conn = 2, rg_queues = [(0, []), (1, [])]\<rparr>"

lemma op_loop_of_apply_ops:
  assumes "apply_ops (app_core (cv_app env)) (app_store (cv_app env)) (cv_nonces env) (cv_now env) n dev i ops d =
    Inr (applied, errs, d')"
  shows "op_loop env n dev i ops d = (errs, Inr (applied, d'))"
  using assms
proof (induction ops arbitrary: i d errs applied)
  case (Cons op ops)
  then obtain out d1 applied1 errs1 d2 where
    hd: "apply_op (app_core (cv_app env)) (app_store (cv_app env)) (cv_nonces env i) (cv_now env) n dev op d = Inr (out, d1)" and
    tl: "apply_ops (app_core (cv_app env)) (app_store (cv_app env)) (cv_nonces env) (cv_now env) n dev (Suc i) ops d1 =
      Inr (applied1, errs1, d2)" and
    eq: "note_outcome out (applied1, errs1, d2) = (applied, errs, d')"
    by (auto simp: res_simps)
  have "d2 = d'" using eq by (cases out) auto
  with Cons.IH [of "Suc i" d1 applied1 errs1] hd tl eq show ?case by (cases out) auto
qed simp

lemma demo_ops_applied:
  "\<exists>d. apply_ops ref_core plain_store (\<lambda>_. []) 9 5 1 0 demo_ops demo_db = Inr (demo_ops, [], d)
    \<and> map_option o_order (tbl_get (note_line_order d) 5) = Some [8, 7]"
  by (simp add: demo_ops_def demo_defs op_eval is_prefix_def ENC_PREFIX_def)

definition live_joined :: joined where
  "live_joined = [(5, (5, 0))]"

lemma live_access:
  "find_note (live_env 70) 5 live_shared = Inr (Some demo_note)"
  "\<exists>a. access_of (live_env 70) demo_note 1 live_shared = Inr a \<and> acc_can_write a \<and> acc_can_read a"
  by (simp_all add: find_note_def access_of_def stmt_def live_env_def live_shared_def get_note_on_def live_note_def demo_db_def
      demo_note_def empty_db_def tbl_get_def decrypt_note_title_def is_prefix_def ENC_PREFIX_def
      resolve_note_access_on_def is_note_owner_def acc_can_write_def acc_can_read_def access_owner_def)

lemma live_batch:
  "\<exists>rg' sh'. handle_ops (live_env 70) (live_conn 0) 5 demo_ops (live_joined, live_registry, live_shared) =
       (Inr (), live_joined, rg', sh') \<and> sh_db sh' \<noteq> sh_db live_shared"
proof -
  obtain d where run: "apply_ops ref_core plain_store (\<lambda>_. []) 9 5 1 0 demo_ops demo_db = Inr (demo_ops, [], d)"
    and ord: "map_option o_order (tbl_get (note_line_order d) 5) = Some [8, 7]" using demo_ops_applied by blast
  have lp: "op_loop (live_env 70) 5 1 0 demo_ops demo_db = ([], Inr (demo_ops, d))"
    by (rule op_loop_of_apply_ops) (use run in \<open>simp add: live_env_def\<close>)
  obtain rg' sh' where pub: "publish_ops (live_env 70) (live_conn 0) 5 (5, 0) demo_ops (live_registry, live_shared\<lparr>sh_db := d\<rparr>) = (rg', sh')"
    by fastforce
  have "d \<noteq> demo_db" using ord by (auto simp: demo_db_def demo_order_def empty_db_def tbl_get_def)
  moreover have "sh_db sh' = d" using publish_ops_local(2) [OF _ pub] by (simp add: demo_ops_def)
  ultimately show ?thesis
    using lp pub live_access by (auto simp: handle_ops_def apply_batch_def live_conn_def live_joined_def live_shared_def tbl_get_def
        live_env_def)
qed

lemma live_subs_distinct: "subs_distinct live_registry"
  by (simp add: subs_distinct_def subs_of_def live_registry_def tbl_get_def)

theorem committed_ops_delivered_witness:
  "\<exists>rg' sh' q. handle_ops (live_env 70) (live_conn 0) 5 demo_ops (live_joined, live_registry, live_shared) =
       (Inr (), live_joined, rg', sh') \<and> tbl_get (rg_queues rg') 1 = Some q \<and> length q = 1"
proof -
  obtain rg' sh' where run: "handle_ops (live_env 70) (live_conn 0) 5 demo_ops (live_joined, live_registry, live_shared) =
       (Inr (), live_joined, rg', sh')" "sh_db sh' \<noteq> sh_db live_shared" using live_batch by blast
  have room: "has_room 1 live_registry" "1 \<in> set (subs_of (5, 0) live_registry) - {cn_id (live_conn 0)}"
    by (simp_all add: has_room_def live_registry_def tbl_get_def OUTBOUND_CAPACITY_def subs_of_def live_conn_def)
  from committed_ops_delivered [OF live_subs_distinct run] obtain a applied seq where
    a: "tbl_get live_joined 5 = Some a" and
    del: "\<forall>c\<in>set (subs_of a live_registry) - {cn_id (live_conn 0)}.
        if has_room c live_registry
        then tbl_get (rg_queues rg') c = map_option
          (\<lambda>q. q @ [OpMsg seq 5 (env_uuid (live_env 70) (cn_user_id (live_conn 0))) applied]) (tbl_get (rg_queues live_registry) c)
        else c \<notin> set (subs_of a rg')" by blast
  have "a = (5, 0)" using a by (simp add: live_joined_def tbl_get_def)
  with bspec [OF del, of 1] room have "tbl_get (rg_queues rg') 1 = map_option
      (\<lambda>q. q @ [OpMsg seq 5 (env_uuid (live_env 70) (cn_user_id (live_conn 0))) applied]) (tbl_get (rg_queues live_registry) 1)"
    by (simp only: if_True)
  then show ?thesis using run(1) by (auto simp: live_registry_def tbl_get_def)
qed

definition live_bus :: bus_env where
  "live_bus = \<lparr>bs_collab = live_env 71, bs_uuid_parse = (\<lambda>s. Some (length s))\<rparr>"

theorem ops_cross_instances_witness:
  "\<exists>rg' sh' payload q. handle_ops (live_env 70) (live_conn 0) 5 demo_ops (live_joined, live_registry, live_shared) =
       (Inr (), live_joined, rg', sh') \<and> sh_notified sh' = [(CH_COLLAB_OP, payload)]
     \<and> tbl_get (rg_queues (handle_collab_op live_bus payload sh' live_registry)) 0 = Some q \<and> q \<noteq> []"
proof -
  obtain rg' sh' where run: "handle_ops (live_env 70) (live_conn 0) 5 demo_ops (live_joined, live_registry, live_shared) =
       (Inr (), live_joined, rg', sh')" "sh_db sh' \<noteq> sh_db live_shared" using live_batch by blast
  have fails: "\<forall>name. cv_fails (live_env 70) name = None" "cv_fails (bs_collab live_bus) ''get_collab_event'' = None"
    "cv_instance (bs_collab live_bus) \<noteq> cv_instance (live_env 70)" "sh_next_seq live_shared < 2 ^ 63"
    "get_session 5 live_registry = Some (5, 0)"
    by (simp_all add: live_env_def live_bus_def live_shared_def live_registry_def get_session_def tbl_get_def)
  have enc: "\<forall>applied errs d'. apply_ops (app_core (cv_app (live_env 70))) (app_store (cv_app (live_env 70)))
      (cv_nonces (live_env 70)) (cv_now (live_env 70)) 5 (cn_device_id (live_conn 0)) 0 demo_ops (sh_db live_shared) =
        Inr (applied, errs, d') \<longrightarrow>
      (\<exists>js. cv_ops_json (live_env 70) applied = Some js \<and> cv_ops_parse (bs_collab live_bus) js = Some applied)"
    using demo_ops_applied by (auto simp: live_env_def live_conn_def live_shared_def live_bus_def ops_text_def)
  have ut: "uuid_text (bs_uuid_parse live_bus) (env_uuid (live_env 70))"
    by (simp add: uuid_text_def live_bus_def env_uuid_def live_env_def ref_core_def)
  have room: "has_room 0 live_registry" "0 \<in> set (subs_of (5, 0) live_registry)"
    "tbl_get (rg_queues live_registry) 0 = Some []" "sh_notified live_shared = []"
    by (simp_all add: has_room_def live_registry_def tbl_get_def OUTBOUND_CAPACITY_def subs_of_def live_shared_def)
  from ops_cross_instances [OF run fails(1,2) enc ut fails(3,4) live_subs_distinct fails(5)] run(1) room
  show ?thesis by fastforce
qed

lemma demo_snapshot: "\<exists>snap. read_snapshot plain_store 5 demo_db = Inr snap"
  by (simp add: read_snapshot_def demo_defs list_lines_def tbl_defs get_note_order_on_def)

theorem received_only_readable_witness:
  "\<exists>L s q m. runs L s \<and> tbl_get (rg_queues (sy_reg s)) 0 = Some q \<and> m \<in> set q \<and> msg_note m = Some 5
     \<and> (\<exists>cn sh. (cn, TextFrame (Inr (Join 5)), sh) \<in> set L \<and> Read \<in> rights (sh_db sh) 5 (cn_user_id cn))"
proof -
  let ?s0 = "\<lparr>sy_reg = empty_registry, sy_sh = live_shared, sy_conns = []\<rparr>"
  obtain rg1 where rg1: "open_conn empty_registry = (cn_id (live_conn 0), rg1)"
    "rg1 = empty_registry\<lparr>rg_next_conn := 1, rg_queues := [(0, [])]\<rparr>"
    by (simp add: open_conn_def empty_registry_def live_conn_def tbl_put_def)
  have "runs [] ?s0" by (rule runs.start)
  from runs.connect [OF this, of "live_conn 0" rg1] rg1(1)
  have r1: "runs [] \<lparr>sy_reg = rg1, sy_sh = live_shared, sy_conns = [(0, live_conn 0, [])]\<rparr>" (is "runs [] ?s1")
    by (simp add: tbl_put_def live_conn_def)
  obtain j' rg2 sh2 where hf: "handle_frame (live_env 70) (live_conn 0) (TextFrame (Inr (Join 5))) ([], rg1, live_shared) = (j', rg2, sh2)"
    by (metis prod_cases3)
  have q: "\<exists>q m. tbl_get (rg_queues rg2) 0 = Some q \<and> m \<in> set q \<and> msg_note m = Some 5"
  proof -
    obtain a where "access_of (live_env 70) demo_note 1 live_shared = Inr a" "acc_can_read a"
      using live_access(2) by blast
    moreover obtain snap where "read_snapshot plain_store 5 demo_db = Inr snap" using demo_snapshot by blast
    ultimately have "\<exists>q. tbl_get (rg_queues rg2) 0 = Some q \<and> Welcome 5 snap \<in> set q"
      using hf live_access(1) rg1(2)
      by (auto simp: handle_join_def join_note_def join_enter_def live_conn_def stmt_def live_shared_def get_or_create_def
          empty_registry_def subscribe_def try_send_def has_room_def OUTBOUND_CAPACITY_def touch_presence_def
          announce_presence_def deliver_presence_def get_session_def broadcast_def subs_of_def unsubscribe_def
          live_env_def tbl_defs Let_def)
    then show ?thesis by (metis msg_note.simps(1))
  qed
  from runs.frame [OF r1, of 0 "live_conn 0" "[]" "live_env 70"] hf
  have r2: "runs [(live_conn 0, TextFrame (Inr (Join 5)), live_shared)]
      \<lparr>sy_reg = rg2, sy_sh = sh2, sy_conns = [(0, live_conn 0, j')]\<rparr>"
    by (simp add: tbl_get_def tbl_put_def)
  from q obtain q m where qm: "tbl_get (rg_queues rg2) 0 = Some q" "m \<in> set q" "msg_note m = Some 5" by blast
  from received_only_readable [OF r2 _ qm(2,3), of 0] qm r2 show ?thesis by fastforce
qed

text \<open>
  A join can race the departure of the last subscriber. A connection looks the session of
  note 5 up, the only other subscriber leaves and the registry drops the session, then the
  first one subscribes: it holds a session that the registry no longer has. The next join of
  the note opens a second session, and what is broadcast there does not reach it.
\<close>

theorem join_races_leave:
  "\<exists>rg0 rg2 sh2 j3 rg3 sh3.
     get_or_create 5 (unsubscribe (5, 0) [1] live_registry) = ((5, 0), rg0)
     \<and> handle_leave (live_env 70) (live_conn 0) 5 (live_joined, rg0, live_shared) = (Inr (), [], rg2, sh2)
     \<and> join_enter (live_env 70) (live_conn 1) 5 (5, 0) ([], rg2, sh2) = (Inr (), j3, rg3, sh3)
     \<and> tbl_get j3 5 = Some (5, 0) \<and> subs_of (5, 0) rg3 = [1] \<and> get_session 5 rg3 = None
     \<and> fst (get_or_create 5 rg3) \<noteq> (5, 0)"
proof -
  obtain snap where "read_snapshot plain_store 5 demo_db = Inr snap" using demo_snapshot by blast
  then show ?thesis
    by (auto simp: handle_leave_def leave_session_def clear_presence_def join_enter_def live_conn_def stmt_def live_shared_def
        get_or_create_def subscribe_def unsubscribe_def live_registry_def live_joined_def drop_if_empty_def
        try_send_def has_room_def OUTBOUND_CAPACITY_def touch_presence_def notify_def upsert_presence_def delete_presence_def
        announce_presence_def deliver_presence_def get_session_def broadcast_def subs_of_def live_env_def tbl_defs Let_def)
qed

end
