(* ===== verification/Listing.thy ===== *)
theory Listing
  imports Sharing_Rights "HOL-Library.Product_Lexorder"
begin

text \<open>
  The paginated lists: \<open>PageCursor\<close> and the list queries of \<open>store.rs\<close>, \<open>ListQuery\<close>,
  \<open>paginated\<close> and the list handlers of \<open>http.rs\<close>. All of them are keyset pagination over a key
  that is unique per row; its contract is the locale \<open>keyset\<close>, interpreted on every list query.
  Rendering and parsing of identifiers and instants is a parameter.
\<close>

subsection \<open>Cursors\<close>

record page_cursor =
  pc_ts :: timestamp
  pc_id :: uuid

record cursor_text =
  ct_micros :: "timestamp \<Rightarrow> string"
  ct_uuid :: "uuid \<Rightarrow> string"
  ct_parse_micros :: "string \<Rightarrow> timestamp option"
  ct_parse_uuid :: "string \<Rightarrow> uuid option"

definition pc_encode :: "cursor_text \<Rightarrow> page_cursor \<Rightarrow> string" where
  "pc_encode ct c = ct_micros ct (pc_ts c) @ ''_'' @ ct_uuid ct (pc_id c)"

definition pc_decode :: "cursor_text \<Rightarrow> string \<Rightarrow> page_cursor option" where
  "pc_decode ct token =
     (case split_once CHR ''_'' token of
        None \<Rightarrow> None
      | Some (micros, i) \<Rightarrow>
          (case ct_parse_micros ct micros of
             None \<Rightarrow> None
           | Some ts \<Rightarrow> (case ct_parse_uuid ct i of None \<Rightarrow> None | Some u \<Rightarrow> Some \<lparr>pc_ts = ts, pc_id = u\<rparr>)))"

text \<open>
  Decimal numbers and identifiers contain no underscore and parse back; instants do so within
  the range of \<open>chrono\<close>, here 146 millennia on both sides of 1970.
\<close>

definition ts_ok :: "timestamp \<Rightarrow> bool" where
  "ts_ok t \<longleftrightarrow> \<bar>t\<bar> < 2 ^ 62"

definition cursor_text_ok :: "cursor_text \<Rightarrow> bool" where
  "cursor_text_ok ct \<longleftrightarrow>
     (\<forall>t. ts_ok t \<longrightarrow> ct_parse_micros ct (ct_micros ct t) = Some t \<and> CHR ''_'' \<notin> set (ct_micros ct t)) \<and>
     (\<forall>u. ct_parse_uuid ct (ct_uuid ct u) = Some u)"

lemma pc_decode_encode [simp]: "cursor_text_ok ct \<Longrightarrow> ts_ok (pc_ts c) \<Longrightarrow> pc_decode ct (pc_encode ct c) = Some c"
  by (simp add: cursor_text_ok_def pc_encode_def pc_decode_def split_once_append)

subsection \<open>Requests and responses\<close>

definition MAX_PAGE_LIMIT :: int where
  "MAX_PAGE_LIMIT = 500"

record list_query =
  lq_limit :: "int option"
  lq_cursor :: "string option"

definition resolve_query :: "cursor_text \<Rightarrow> list_query \<Rightarrow> (nat option \<times> page_cursor option) result" where
  "resolve_query ct q =
     (let limit = map_option (\<lambda>l. nat (max 1 (min l MAX_PAGE_LIMIT))) (lq_limit q)
      in case lq_cursor q of
           None \<Rightarrow> Inr (limit, None)
         | Some token \<Rightarrow>
             res_then (ok_or (pc_decode ct token) (BadRequest ''invalid cursor''))
               (\<lambda>c. Inr (limit, Some c)))"

text \<open>The items and the \<open>x-next-cursor\<close> header.\<close>

definition paginated :: "cursor_text \<Rightarrow> 'a list \<Rightarrow> nat option \<Rightarrow> ('a \<Rightarrow> page_cursor) \<Rightarrow> 'a list \<times> string option" where
  "paginated ct items limit cursor_of =
     (items,
      case limit of
        Some l \<Rightarrow> if length items \<ge> l \<and> items \<noteq> [] then Some (pc_encode ct (cursor_of (last items))) else None
      | None \<Rightarrow> None)"

subsection \<open>Queries\<close>

definition limit_rows :: "nat option \<Rightarrow> 'a list \<Rightarrow> 'a list" where
  "limit_rows limit xs = (case limit of None \<Rightarrow> xs | Some l \<Rightarrow> take l xs)"

definition page_rows ::
    "('a \<Rightarrow> 'k::linorder) \<Rightarrow> nat option \<Rightarrow> 'k option \<Rightarrow> 'a list \<Rightarrow> 'a list" where
  "page_rows key limit after rows =
     limit_rows limit (sort_key key (filter (\<lambda>r. case after of None \<Rightarrow> True | Some k \<Rightarrow> k < key r) rows))"

definition nb_cursor :: "notebook \<Rightarrow> page_cursor" where
  "nb_cursor r = \<lparr>pc_ts = nb_created_at r, pc_id = nb_id r\<rparr>"
definition tag_cursor :: "tag \<Rightarrow> page_cursor" where
  "tag_cursor r = \<lparr>pc_ts = t_created_at r, pc_id = t_id r\<rparr>"
definition resource_cursor :: "resource_meta \<Rightarrow> page_cursor" where
  "resource_cursor r = \<lparr>pc_ts = r_created_at r, pc_id = r_id r\<rparr>"
definition note_cursor :: "note_row \<Rightarrow> page_cursor" where
  "note_cursor r = \<lparr>pc_ts = n_updated_at r, pc_id = n_id r\<rparr>"

text \<open>Ascending and descending order of \<open>(timestamp, id)\<close>.\<close>

definition asc_key :: "page_cursor \<Rightarrow> int \<times> int" where
  "asc_key c = (pc_ts c, int (pc_id c))"

definition desc_key :: "page_cursor \<Rightarrow> int \<times> int" where
  "desc_key c = (- pc_ts c, - int (pc_id c))"

definition list_notebooks_of :: "uuid \<Rightarrow> nat option \<Rightarrow> page_cursor option \<Rightarrow> db \<Rightarrow> notebook list" where
  "list_notebooks_of user_id limit cur d =
     page_rows (asc_key \<circ> nb_cursor) limit (map_option asc_key cur)
       (tbl_select (\<lambda>_ r. nb_user_id r = user_id \<and> nb_deleted_at r = None) (notebooks d))"

definition list_tags_of :: "uuid \<Rightarrow> nat option \<Rightarrow> page_cursor option \<Rightarrow> db \<Rightarrow> tag list" where
  "list_tags_of user_id limit cur d =
     page_rows (asc_key \<circ> tag_cursor) limit (map_option asc_key cur)
       (tbl_select (\<lambda>_ r. t_user_id r = user_id \<and> t_deleted_at r = None) (tags d))"

definition list_resources_of :: "uuid \<Rightarrow> nat option \<Rightarrow> page_cursor option \<Rightarrow> db \<Rightarrow> resource_meta list" where
  "list_resources_of user_id limit cur d =
     page_rows (asc_key \<circ> resource_cursor) limit (map_option asc_key cur)
       (tbl_select (\<lambda>_ r. r_user_id r = user_id \<and> r_deleted_at r = None) (resources d))"

definition list_resources_for_note ::
    "uuid \<Rightarrow> uuid \<Rightarrow> nat option \<Rightarrow> page_cursor option \<Rightarrow> db \<Rightarrow> resource_meta list" where
  "list_resources_for_note user_id note_id limit cur d =
     page_rows (asc_key \<circ> resource_cursor) limit (map_option asc_key cur)
       (tbl_select (\<lambda>_ r. r_user_id r = user_id \<and> r_note_id r = note_id \<and> r_deleted_at r = None) (resources d))"

text \<open>The joins of the note list: owner, direct share, own live notebook, shared live notebook.\<close>

definition lists_note :: "uuid \<Rightarrow> db \<Rightarrow> note_row \<Rightarrow> bool" where
  "lists_note user_id d n \<longleftrightarrow> n_deleted_at n = None \<and>
     (n_owner_id n = user_id \<or>
      tbl_get (note_shares d) (n_id n, user_id) \<noteq> None \<or>
      (case n_notebook_id n of
         None \<Rightarrow> False
       | Some nb \<Rightarrow> notebook_owner_on nb d = Some user_id \<or>
           (live_notebook d nb \<noteq> None \<and> tbl_get (notebook_shares d) (nb, user_id) \<noteq> None)))"

definition list_note_rows :: "uuid \<Rightarrow> nat option \<Rightarrow> page_cursor option \<Rightarrow> db \<Rightarrow> note_row list" where
  "list_note_rows user_id limit cur d =
     page_rows (desc_key \<circ> note_cursor) limit (map_option desc_key cur)
       (tbl_select (\<lambda>_ n. lists_note user_id d n) (notes_tbl d))"

definition list_notes_for_user ::
    "store \<Rightarrow> uuid \<Rightarrow> nat option \<Rightarrow> page_cursor option \<Rightarrow> db \<Rightarrow> note_row list result" where
  "list_notes_for_user st user_id limit cur d =
     res_map (\<lambda>n. res_then (store_decrypt st (n_title n)) (\<lambda>t. Inr (n\<lparr>n_title := t\<rparr>)))
       (list_note_rows user_id limit cur d)"

definition list_note_tag_ids :: "uuid \<Rightarrow> uuid \<Rightarrow> db \<Rightarrow> uuid list" where
  "list_note_tag_ids user_id note_id d =
     map fst (sort_key snd (List.map_filter (\<lambda>((u, n, t), nt).
        if u = user_id \<and> n = note_id \<and> nt_deleted_at nt = None \<and>
           (case tbl_get (tags d) t of Some tg \<Rightarrow> t_deleted_at tg = None | None \<Rightarrow> False)
        then Some (t, nt_updated_at nt) else None) (note_tags d)))"

subsection \<open>Handlers\<close>

definition list_notebooks :: "cursor_text \<Rightarrow> authed_user \<Rightarrow> list_query \<Rightarrow> db \<Rightarrow> (notebook list \<times> string option) result" where
  "list_notebooks ct user q d =
     res_then (resolve_query ct q) (\<lambda>(limit, cur).
       Inr (paginated ct (list_notebooks_of (au_user_id user) limit cur d) limit nb_cursor))"

definition list_tags :: "cursor_text \<Rightarrow> authed_user \<Rightarrow> list_query \<Rightarrow> db \<Rightarrow> (tag list \<times> string option) result" where
  "list_tags ct user q d =
     res_then (resolve_query ct q) (\<lambda>(limit, cur).
       Inr (paginated ct (list_tags_of (au_user_id user) limit cur d) limit tag_cursor))"

definition list_resources ::
    "cursor_text \<Rightarrow> authed_user \<Rightarrow> list_query \<Rightarrow> uuid option \<Rightarrow> db \<Rightarrow> (resource_meta list \<times> string option) result" where
  "list_resources ct user q note_filter d =
     res_then (resolve_query ct q) (\<lambda>(limit, cur).
       Inr (paginated ct
         (case note_filter of
            Some note_id \<Rightarrow> list_resources_for_note (au_user_id user) note_id limit cur d
          | None \<Rightarrow> list_resources_of (au_user_id user) limit cur d) limit resource_cursor))"

definition list_notes ::
    "cursor_text \<Rightarrow> app_state \<Rightarrow> authed_user \<Rightarrow> list_query \<Rightarrow> db \<Rightarrow> (note_row list \<times> string option) result" where
  "list_notes ct app user q d =
     res_then (resolve_query ct q) (\<lambda>(limit, cur).
     res_then (list_notes_for_user (app_store app) (au_user_id user) limit cur d) (\<lambda>items.
       Inr (paginated ct items limit note_cursor)))"

definition list_note_tags :: "authed_user \<Rightarrow> uuid \<Rightarrow> db \<Rightarrow> uuid list" where
  "list_note_tags user note_id d = list_note_tag_ids (au_user_id user) note_id d"

subsection \<open>Keyset pagination\<close>

text \<open>A client that follows the \<open>x-next-cursor\<close> header until there is none.\<close>

fun walk :: "nat \<Rightarrow> (string option \<Rightarrow> ('a list \<times> string option) result) \<Rightarrow> string option \<Rightarrow> 'a list option" where
  "walk 0 request token = None"
| "walk (Suc n) request token =
     (case request token of
        Inl _ \<Rightarrow> None
      | Inr (items, None) \<Rightarrow> Some items
      | Inr (items, Some next_token) \<Rightarrow> map_option (\<lambda>more. items @ more) (walk n request (Some next_token)))"

text \<open>
  The contract of a list query: it returns, in the order of the key, the first rows after the
  cursor, and no two rows have the same key.
\<close>

locale keyset =
  fixes visible :: "db \<Rightarrow> 'a list"
    and key :: "page_cursor \<Rightarrow> 'k::linorder"
    and row_cursor :: "'a \<Rightarrow> page_cursor"
    and page :: "nat option \<Rightarrow> page_cursor option \<Rightarrow> db \<Rightarrow> 'a list"
    and rows_ok :: "db \<Rightarrow> bool"
  assumes page_law: "page limit cur d = page_rows (key \<circ> row_cursor) limit (map_option key cur) (visible d)"
    and keys_law: "rows_ok d \<Longrightarrow> distinct (map (key \<circ> row_cursor) (visible d))"
    and range_law: "rows_ok d \<Longrightarrow> r \<in> set (visible d) \<Longrightarrow> ts_ok (pc_ts (row_cursor r))"
begin

lemma strict: "rows_ok d \<Longrightarrow> sorted_wrt (<) (map (key \<circ> row_cursor) (sort_key (key \<circ> row_cursor) (visible d)))"
  using keys_law [of d] by (simp only: strict_sorted_iff sorted_sort_key distinct_map distinct_sort set_sort simp_thms)

lemma page_after:
  "page (Some l) cur d = take l (filter (\<lambda>r. case cur of None \<Rightarrow> True | Some c \<Rightarrow> key c < key (row_cursor r))
     (sort_key (key \<circ> row_cursor) (visible d)))"
  by (auto simp: page_law page_rows_def limit_rows_def filter_sort split: option.split)

lemma walk_from:
  assumes ok: "rows_ok d" and ct: "cursor_text_ok ct" and l: "1 \<le> l"
    and tok: "case cur of None \<Rightarrow> token = None | Some c \<Rightarrow> token = Some (pc_encode ct c) \<and> ts_ok (pc_ts c)"
    and fuel: "length (filter (\<lambda>r. case cur of None \<Rightarrow> True | Some c \<Rightarrow> key c < key (row_cursor r))
      (sort_key (key \<circ> row_cursor) (visible d))) < fuel"
    and request: "\<And>t. request t = res_then (resolve_query ct \<lparr>lq_limit = Some l, lq_cursor = t\<rparr>)
      (\<lambda>(limit, c). Inr (paginated ct (page limit c d) limit row_cursor))"
  shows "walk fuel request token = Some (filter (\<lambda>r. case cur of None \<Rightarrow> True | Some c \<Rightarrow> key c < key (row_cursor r))
      (sort_key (key \<circ> row_cursor) (visible d)))"
  using tok fuel
proof (induction fuel arbitrary: cur token)
  case (Suc n)
  let ?P = "\<lambda>cur r. case cur of None \<Rightarrow> True | Some c \<Rightarrow> key c < key (row_cursor r)"
  define S where "S = sort_key (key \<circ> row_cursor) (visible d)"
  define F where "F = filter (?P cur) S"
  define m where "m = nat (max 1 (min l MAX_PAGE_LIMIT))"
  have m1: "1 \<le> m" by (simp add: m_def)
  have len: "length F < Suc n" using Suc.prems(2) unfolding F_def S_def .
  have rq: "resolve_query ct \<lparr>lq_limit = Some l, lq_cursor = token\<rparr> = Inr (Some m, cur)"
    using Suc.prems(1) ct by (auto simp: resolve_query_def m_def Let_def split: option.splits)
  have pg: "page (Some m) cur d = take m F" unfolding F_def S_def by (rule page_after)
  have "walk (Suc n) request token = Some F"
  proof (cases "m \<le> length F")
    case True
    then have ne: "take m F \<noteq> []" using m1 by auto
    define z where "z = last (take m F)"
    have zF: "z \<in> set F" unfolding z_def using last_in_set [OF ne] by (rule in_set_takeD)
    then have z: "z \<in> set (visible d)" and lt: "?P cur z" by (simp_all add: F_def S_def)
    have strict_F: "sorted_wrt (<) (map (key \<circ> row_cursor) F)"
      unfolding F_def S_def using strict [OF ok] by (rule sorted_wrt_map_filter)
    have "filter (?P (Some (row_cursor z))) S = filter (\<lambda>r. (key \<circ> row_cursor) z < (key \<circ> row_cursor) r) F"
      unfolding F_def using lt by (auto intro!: filter_cong split: option.splits)
    also have "\<dots> = drop m F" unfolding z_def by (rule strict_filter_take(2) [OF strict_F ne])
    finally have rest: "filter (?P (Some (row_cursor z))) S = drop m F" .
    have "walk n request (Some (pc_encode ct (row_cursor z))) = Some (filter (?P (Some (row_cursor z))) S)"
      unfolding S_def
    proof (rule Suc.IH)
      show "length (filter (?P (Some (row_cursor z))) (sort_key (key \<circ> row_cursor) (visible d))) < n"
        using rest [unfolded S_def] len True m1 by (simp only: length_drop)
    qed (use range_law [OF ok z] in simp)
    with True ne rest show ?thesis by (simp add: request rq pg paginated_def z_def)
  next
    case False
    with len show ?thesis by (simp add: request rq pg paginated_def)
  qed
  then show ?case unfolding F_def S_def .
qed simp

lemma walk_all:
  assumes "rows_ok d" and "cursor_text_ok ct" and "1 \<le> l" and "length (visible d) < fuel"
    and "\<And>t. request t = res_then (resolve_query ct \<lparr>lq_limit = Some l, lq_cursor = t\<rparr>)
      (\<lambda>(limit, c). Inr (paginated ct (page limit c d) limit row_cursor))"
  shows "walk fuel request None = Some (sort_key (key \<circ> row_cursor) (visible d))"
  using walk_from [of d ct l None None fuel request] assms by (simp cong: filter_cong)

end

subsection \<open>The list queries keep the contract\<close>

definition keyed_rows :: "('v \<Rightarrow> page_cursor) \<Rightarrow> (uuid, 'v) table \<Rightarrow> bool" where
  "keyed_rows c t \<longleftrightarrow> tbl_ok t \<and> (\<forall>(k, r)\<in>set t. pc_id (c r) = k \<and> ts_ok (pc_ts (c r)))"

lemma asc_key_inject [simp]: "asc_key a = asc_key b \<longleftrightarrow> pc_ts a = pc_ts b \<and> pc_id a = pc_id b"
  by (simp add: asc_key_def)

lemma desc_key_inject [simp]: "desc_key a = desc_key b \<longleftrightarrow> pc_ts a = pc_ts b \<and> pc_id a = pc_id b"
  by (simp add: desc_key_def)

lemma keyed_select_distinct:
  assumes "keyed_rows c t" and "\<And>a b. key a = key b \<Longrightarrow> pc_id a = pc_id b"
  shows "distinct (map (key \<circ> c) (tbl_select P t))"
proof -
  have ids: "map (pc_id \<circ> c) (tbl_select P t) = map fst (filter (\<lambda>r. P (fst r) (snd r)) t)"
    unfolding tbl_select_def map_map by (rule map_cong) (use assms(1) in \<open>auto simp: keyed_rows_def\<close>)
  have "distinct (map (pc_id \<circ> c) (tbl_select P t))"
    unfolding ids using assms(1) by (simp add: keyed_rows_def tbl_ok_def distinct_map_filter)
  then show ?thesis using assms(2) unfolding distinct_map inj_on_def o_apply by blast
qed

lemma keyed_select_range: "keyed_rows c t \<Longrightarrow> r \<in> set (tbl_select P t) \<Longrightarrow> ts_ok (pc_ts (c r))"
  by (auto simp: keyed_rows_def tbl_select_def)

interpretation nbs: keyset "\<lambda>d. tbl_select (\<lambda>_ r. nb_user_id r = u \<and> nb_deleted_at r = None) (notebooks d)"
    asc_key nb_cursor "list_notebooks_of u" "\<lambda>d. keyed_rows nb_cursor (notebooks d)" for u
  by unfold_locales (auto simp: list_notebooks_of_def intro: keyed_select_distinct keyed_select_range simp del: o_apply)

interpretation tgs: keyset "\<lambda>d. tbl_select (\<lambda>_ r. t_user_id r = u \<and> t_deleted_at r = None) (tags d)"
    asc_key tag_cursor "list_tags_of u" "\<lambda>d. keyed_rows tag_cursor (tags d)" for u
  by unfold_locales (auto simp: list_tags_of_def intro: keyed_select_distinct keyed_select_range simp del: o_apply)

interpretation rss: keyset "\<lambda>d. tbl_select (\<lambda>_ r. r_user_id r = u \<and> r_deleted_at r = None) (resources d)"
    asc_key resource_cursor "list_resources_of u" "\<lambda>d. keyed_rows resource_cursor (resources d)" for u
  by unfold_locales (auto simp: list_resources_of_def intro: keyed_select_distinct keyed_select_range simp del: o_apply)

interpretation nrs: keyset
    "\<lambda>d. tbl_select (\<lambda>_ r. r_user_id r = u \<and> r_note_id r = n \<and> r_deleted_at r = None) (resources d)"
    asc_key resource_cursor "list_resources_for_note u n" "\<lambda>d. keyed_rows resource_cursor (resources d)" for u n
  by unfold_locales (auto simp: list_resources_for_note_def intro: keyed_select_distinct keyed_select_range simp del: o_apply)

interpretation nts: keyset "\<lambda>d. tbl_select (\<lambda>_ n. lists_note u d n) (notes_tbl d)"
    desc_key note_cursor "list_note_rows u" "\<lambda>d. keyed_rows note_cursor (notes_tbl d)" for u
  by unfold_locales (auto simp: list_note_rows_def intro: keyed_select_distinct keyed_select_range simp del: o_apply)

subsection \<open>What the note list shows\<close>

text \<open>Every share gives at least the right to read.\<close>

definition shares_read :: "db \<Rightarrow> bool" where
  "shares_read d \<longleftrightarrow>
     (\<forall>k s. tbl_get (note_shares d) k = Some s \<longrightarrow> Read \<in> cap_closure (cap_set (s_capabilities s))) \<and>
     (\<forall>k s. tbl_get (notebook_shares d) k = Some s \<longrightarrow> Read \<in> cap_closure (cap_set (nbs_capabilities s)))"

lemma shares_readD:
  assumes "shares_read d"
  shows "tbl_get (note_shares d) k = Some s \<Longrightarrow> Read \<in> cap_closure (cap_set (s_capabilities s))"
    and "tbl_get (notebook_shares d) k = Some t \<Longrightarrow> Read \<in> cap_closure (cap_set (nbs_capabilities t))"
  using assms unfolding shares_read_def by blast+

lemma inherited_read:
  assumes "shares_read d"
  shows "inherited_caps nbo u d \<noteq> {} \<longleftrightarrow>
    (case nbo of None \<Rightarrow> False | Some nb \<Rightarrow> notebook_owner_on nb d = Some u \<or>
       (live_notebook d nb \<noteq> None \<and> tbl_get (notebook_shares d) (nb, u) \<noteq> None))"
  using shares_readD(2) [OF assms]
  by (auto simp: inherited_caps_def notebook_caps_def get_notebook_share_on_def split: option.splits)

lemma lists_note_rights:
  assumes "shares_read d" and "n_deleted_at n = None"
  shows "lists_note u d n \<longleftrightarrow> note_caps n u d \<noteq> {}"
proof -
  have "direct_caps (n_id n) u d \<noteq> {} \<longleftrightarrow> tbl_get (note_shares d) (n_id n, u) \<noteq> None"
  proof (cases "tbl_get (note_shares d) (n_id n, u)")
    case (Some s)
    from shares_readD(1) [OF assms(1) Some] have "cap_closure (cap_set (s_capabilities s)) \<noteq> {}" by blast
    with Some show ?thesis by (simp add: direct_caps_def get_share_on_def)
  qed (simp add: direct_caps_def get_share_on_def)
  with inherited_read [OF assms(1), of "n_notebook_id n" u] assms(2) show ?thesis
    by (auto simp: lists_note_def note_caps_def)
qed

definition plain_note :: "store \<Rightarrow> note_row \<Rightarrow> note_row" where
  "plain_note st n = n\<lparr>n_title := (case store_decrypt st (n_title n) of Inr t \<Rightarrow> t | Inl _ \<Rightarrow> n_title n)\<rparr>"

lemma list_notes_plain:
  assumes "\<forall>(k, n)\<in>set (notes_tbl d). \<exists>t. store_decrypt st (n_title n) = Inr t"
  shows "list_notes_for_user st u limit cur d = Inr (map (plain_note st) (list_note_rows u limit cur d))"
  unfolding list_notes_for_user_def
proof (rule res_map_all_Inr)
  fix n assume "n \<in> set (list_note_rows u limit cur d)"
  then have "n \<in> snd ` set (notes_tbl d)"
    by (force simp: list_note_rows_def page_rows_def limit_rows_def tbl_select_def split: option.splits dest!: in_set_takeD)
  with assms show "res_then (store_decrypt st (n_title n)) (\<lambda>t. Inr (n\<lparr>n_title := t\<rparr>)) = Inr (plain_note st n)"
    by (auto simp: plain_note_def)
qed

lemma note_cursor_plain [simp]: "note_cursor (plain_note st n) = note_cursor n"
  by (simp add: note_cursor_def plain_note_def)

lemma paginated_fst [simp]: "fst (paginated ct items limit c) = items"
  by (simp add: paginated_def)

lemma walk_map:
  assumes "\<And>t. request' t = res_then (request t) (\<lambda>(items, nxt). Inr (map f items, nxt))"
  shows "walk n request' t = map_option (map f) (walk n request t)"
proof (induction n arbitrary: t)
  case (Suc n)
  show ?case
  proof (cases "request t")
    case (Inr x)
    obtain items nxt where "x = (items, nxt)" by fastforce
    with Inr Suc show ?thesis by (cases nxt) (auto simp: assms option.map_comp comp_def)
  qed (simp add: assms)
qed simp

lemma paginated_map:
  assumes "\<And>x. c (f x) = c x"
  shows "paginated ct (map f items) limit c = (map f items, snd (paginated ct items limit c))"
  using assms by (auto simp: paginated_def last_map split: option.splits)

lemma tbl_select_length: "length (tbl_select P t) \<le> length t"
  by (simp add: tbl_select_def)

lemma walk_notes:
  assumes "keyed_rows note_cursor (notes_tbl d)" and "cursor_text_ok ct" and "1 \<le> l" and "length (notes_tbl d) < fuel"
    and "\<forall>(k, n)\<in>set (notes_tbl d). \<exists>t. store_decrypt (app_store app) (n_title n) = Inr t"
  shows "walk fuel (\<lambda>t. list_notes ct app user \<lparr>lq_limit = Some l, lq_cursor = t\<rparr> d) None =
    Some (map (plain_note (app_store app)) (sort_key (desc_key \<circ> note_cursor)
      (tbl_select (\<lambda>_ n. lists_note (au_user_id user) d n) (notes_tbl d))))"
proof -
  let ?raw = "\<lambda>t. res_then (resolve_query ct \<lparr>lq_limit = Some l, lq_cursor = t\<rparr>)
      (\<lambda>(limit, c). Inr (paginated ct (list_note_rows (au_user_id user) limit c d) limit note_cursor))"
  have "length (tbl_select (\<lambda>_ n. lists_note (au_user_id user) d n) (notes_tbl d)) < fuel"
    using assms(4) le_less_trans [OF tbl_select_length] by blast
  from nts.walk_all [OF assms(1-3) this] have raw: "walk fuel ?raw None = Some (sort_key (desc_key \<circ> note_cursor)
      (tbl_select (\<lambda>_ n. lists_note (au_user_id user) d n) (notes_tbl d)))" by simp
  have step: "list_notes ct app user \<lparr>lq_limit = Some l, lq_cursor = t\<rparr> d =
      res_then (?raw t) (\<lambda>(items, nxt). Inr (map (plain_note (app_store app)) items, nxt))" for t
    by (cases "resolve_query ct \<lparr>lq_limit = Some l, lq_cursor = t\<rparr>")
      (auto simp: list_notes_def list_notes_plain [OF assms(5)] paginated_map case_prod_beta)
  have "walk fuel (\<lambda>t. list_notes ct app user \<lparr>lq_limit = Some l, lq_cursor = t\<rparr> d) None =
      map_option (map (plain_note (app_store app))) (walk fuel ?raw None)"
    by (rule walk_map) (rule step)
  with raw show ?thesis by simp
qed

subsection \<open>Properties\<close>

text \<open>
  C13: following the pages of the note list, whatever the page size, gives every note on which
  the user has any right exactly once and no other note, the last updated first. (The database
  does not change meanwhile, titles decrypt and every share gives at least the right to read.)
\<close>

theorem note_pages_complete:
  assumes "keyed_rows note_cursor (notes_tbl d)" and "shares_read d"
    and "\<forall>(k, n)\<in>set (notes_tbl d). \<exists>t. store_decrypt (app_store app) (n_title n) = Inr t"
    and "cursor_text_ok ct" and "1 \<le> l" and "length (notes_tbl d) < fuel"
  shows "\<exists>items. walk fuel (\<lambda>t. list_notes ct app user \<lparr>lq_limit = Some l, lq_cursor = t\<rparr> d) None = Some items
    \<and> distinct (map n_id items) \<and> set (map n_id items) = {k. rights d k (au_user_id user) \<noteq> {}}
    \<and> sorted_wrt (\<ge>) (map n_updated_at items)"
proof (intro exI conjI)
  let ?u = "au_user_id user"
  let ?rows = "tbl_select (\<lambda>_ n. lists_note ?u d n) (notes_tbl d)"
  let ?items = "map (plain_note (app_store app)) (sort_key (desc_key \<circ> note_cursor) ?rows)"
  show "walk fuel (\<lambda>t. list_notes ct app user \<lparr>lq_limit = Some l, lq_cursor = t\<rparr> d) None = Some ?items"
    using walk_notes [OF assms(1,4,5,6,3)] .
  have ids: "map n_id ?items = map (pc_id \<circ> note_cursor) (sort_key (desc_key \<circ> note_cursor) ?rows)"
    by (simp add: plain_note_def note_cursor_def)
  have "distinct (map (pc_id \<circ> note_cursor) ?rows)" by (rule keyed_select_distinct [OF assms(1)])
  then show "distinct (map n_id ?items)" unfolding ids by (simp add: distinct_map)
  have ok: "tbl_ok (notes_tbl d)" and key: "\<And>k n. (k, n) \<in> set (notes_tbl d) \<Longrightarrow> n_id n = k"
    using assms(1) by (auto simp: keyed_rows_def note_cursor_def)
  have "k \<in> n_id ` set ?rows \<longleftrightarrow> rights d k ?u \<noteq> {}" for k
  proof -
    have "k \<in> n_id ` set ?rows \<longleftrightarrow> (\<exists>n. tbl_get (notes_tbl d) k = Some n \<and> lists_note ?u d n)"
      using key by (force simp: tbl_select_def tbl_get_in_iff [OF ok] image_iff)
    also have "\<dots> \<longleftrightarrow> rights d k ?u \<noteq> {}"
      using lists_note_rights [OF assms(2)] by (auto simp: rights_def live_note_def lists_note_def split: option.splits)
    finally show ?thesis .
  qed
  then show "set (map n_id ?items) = {k. rights d k ?u \<noteq> {}}"
    unfolding ids by (auto simp: note_cursor_def)
  have "sorted (map (desc_key \<circ> note_cursor) (sort_key (desc_key \<circ> note_cursor) ?rows))" by (rule sorted_sort_key)
  then show "sorted_wrt (\<ge>) (map n_updated_at ?items)"
    by (auto simp: sorted_wrt_map desc_key_def note_cursor_def plain_note_def elim!: sorted_wrt_mono_rel [rotated])
qed

text \<open>
  Following the pages of the notebooks, the tags or the resources of a user gives exactly
  the live ones, each once, in the order of their creation, whatever the page size.
\<close>

theorem entity_pages_complete:
  assumes "keyed_rows nb_cursor (notebooks d)" and "keyed_rows tag_cursor (tags d)"
    and "keyed_rows resource_cursor (resources d)" and "cursor_text_ok ct" and "1 \<le> l"
    and "max (length (notebooks d)) (max (length (tags d)) (length (resources d))) < fuel"
  shows "walk fuel (\<lambda>t. list_notebooks ct user \<lparr>lq_limit = Some l, lq_cursor = t\<rparr> d) None =
      Some (sort_key (asc_key \<circ> nb_cursor)
        (tbl_select (\<lambda>_ r. nb_user_id r = au_user_id user \<and> nb_deleted_at r = None) (notebooks d)))
    \<and> walk fuel (\<lambda>t. list_tags ct user \<lparr>lq_limit = Some l, lq_cursor = t\<rparr> d) None =
      Some (sort_key (asc_key \<circ> tag_cursor)
        (tbl_select (\<lambda>_ r. t_user_id r = au_user_id user \<and> t_deleted_at r = None) (tags d)))
    \<and> walk fuel (\<lambda>t. list_resources ct user \<lparr>lq_limit = Some l, lq_cursor = t\<rparr> None d) None =
      Some (sort_key (asc_key \<circ> resource_cursor)
        (tbl_select (\<lambda>_ r. r_user_id r = au_user_id user \<and> r_deleted_at r = None) (resources d)))"
proof -
  have len: "length (tbl_select P t) < fuel" if "length t < fuel" for P and t :: "(uuid, 'v) table"
    using that le_less_trans [OF tbl_select_length] by blast
  have "walk fuel (\<lambda>t. list_notebooks ct user \<lparr>lq_limit = Some l, lq_cursor = t\<rparr> d) None =
      Some (sort_key (asc_key \<circ> nb_cursor)
        (tbl_select (\<lambda>_ r. nb_user_id r = au_user_id user \<and> nb_deleted_at r = None) (notebooks d)))"
    by (rule nbs.walk_all [OF assms(1,4,5) len]) (use assms(6) in \<open>simp_all add: list_notebooks_def\<close>)
  moreover have "walk fuel (\<lambda>t. list_tags ct user \<lparr>lq_limit = Some l, lq_cursor = t\<rparr> d) None =
      Some (sort_key (asc_key \<circ> tag_cursor)
        (tbl_select (\<lambda>_ r. t_user_id r = au_user_id user \<and> t_deleted_at r = None) (tags d)))"
    by (rule tgs.walk_all [OF assms(2,4,5) len]) (use assms(6) in \<open>simp_all add: list_tags_def\<close>)
  moreover have "walk fuel (\<lambda>t. list_resources ct user \<lparr>lq_limit = Some l, lq_cursor = t\<rparr> None d) None =
      Some (sort_key (asc_key \<circ> resource_cursor)
        (tbl_select (\<lambda>_ r. r_user_id r = au_user_id user \<and> r_deleted_at r = None) (resources d)))"
    by (rule rss.walk_all [OF assms(3,4,5) len]) (use assms(6) in \<open>simp_all add: list_resources_def\<close>)
  ultimately show ?thesis by blast
qed

subsection \<open>Closed instances\<close>

text \<open>Instants and identifiers in unary, with the sign in front.\<close>

definition unary_text :: cursor_text where
  "unary_text = \<lparr>ct_micros = (\<lambda>t. if t < 0 then CHR ''-'' # replicate (nat (- t)) CHR ''1'' else replicate (nat t) CHR ''1''),
     ct_uuid = (\<lambda>u. replicate u CHR ''u''),
     ct_parse_micros = (\<lambda>s. if CHR ''-'' \<in> set s then Some (1 - int (length s)) else Some (int (length s))),
     ct_parse_uuid = (\<lambda>s. Some (length s))\<rparr>"

lemma unary_text_ok: "cursor_text_ok unary_text"
  by (simp add: cursor_text_ok_def unary_text_def)

definition list_user :: authed_user where
  "list_user = \<lparr>au_user_id = 1, au_device_id = 1, au_email = []\<rparr>"

definition list_note :: "uuid \<Rightarrow> note_row" where
  "list_note k = \<lparr>n_id = k, n_title = ''t'', n_owner_id = 1, n_notebook_id = None, n_is_todo = False,
     n_todo_due = None, n_todo_completed = None, n_created_at = 0, n_updated_at = 3, n_deleted_at = None\<rparr>"

definition list_tag :: "uuid \<Rightarrow> tag" where
  "list_tag k = \<lparr>t_id = k, t_user_id = 1, t_title = [], t_created_at = 2, t_updated_at = 2, t_deleted_at = None,
     t_vv = Map.empty, t_last_writer = [], t_system = False\<rparr>"

definition list_db :: db where
  "list_db = empty_db\<lparr>notes_tbl := [(5, list_note 5), (6, list_note 6)], tags := [(8, list_tag 8), (7, list_tag 7)]\<rparr>"

theorem note_pages_complete_witness:
  "\<exists>items. walk 3 (\<lambda>t. list_notes unary_text demo_app list_user \<lparr>lq_limit = Some 1, lq_cursor = t\<rparr> list_db) None = Some items
     \<and> set (map n_id items) = {5, 6}"
proof -
  have rg: "{k. rights list_db k (au_user_id list_user) \<noteq> {}} = {5, 6}"
    by (auto simp: rights_def live_note_def list_db_def list_note_def list_user_def note_caps_def tbl_get_def empty_db_def
        split: if_splits)
  have "keyed_rows note_cursor (notes_tbl list_db)" "shares_read list_db"
    "\<forall>(k, n)\<in>set (notes_tbl list_db). \<exists>t. store_decrypt (app_store demo_app) (n_title n) = Inr t"
    by (auto simp: keyed_rows_def list_db_def list_note_def note_cursor_def ts_ok_def tbl_ok_def shares_read_def empty_db_def
        is_prefix_def ENC_PREFIX_def)
  from note_pages_complete [OF this unary_text_ok, of 1 3 list_user] rg show ?thesis
    by (auto simp: list_db_def)
qed

theorem entity_pages_complete_witness:
  "walk 3 (\<lambda>t. list_tags unary_text list_user \<lparr>lq_limit = Some 1, lq_cursor = t\<rparr> list_db) None = Some [list_tag 7, list_tag 8]"
proof -
  have "keyed_rows nb_cursor (notebooks list_db)" "keyed_rows tag_cursor (tags list_db)"
    "keyed_rows resource_cursor (resources list_db)"
    by (auto simp: keyed_rows_def list_db_def list_tag_def tag_cursor_def ts_ok_def tbl_ok_def empty_db_def)
  from entity_pages_complete [OF this unary_text_ok, of 1 3 list_user] show ?thesis
    by (simp add: list_db_def empty_db_def tbl_select_def list_tag_def list_user_def asc_key_def tag_cursor_def)
qed

end
