(* ===== verification/History.thy ===== *)
theory History
  imports Sharing_Rights Journal
begin

text \<open>
  The version history of notes and notebooks: \<open>HistoryKind\<close> and \<open>entity_history\<close> of \<open>store.rs\<close>,
  which read it off the journal, and the history handlers of \<open>http.rs\<close>. Reading an instant out
  of a JSON value, by PostgreSQL and by \<open>chrono\<close>, is a parameter.
\<close>

subsection \<open>Reading the journal\<close>

datatype history_kind = HNote | HNotebook

fun snapshot_key :: "history_kind \<Rightarrow> string" where
  "snapshot_key HNote = ''note''"
| "snapshot_key HNotebook = ''notebook''"

fun upsert_ops :: "history_kind \<Rightarrow> string list" where
  "upsert_ops HNote = [''note_create'', ''note_update'', ''create'', ''update'']"
| "upsert_ops HNotebook = [''notebook_create'', ''notebook_update'']"

fun delete_ops :: "history_kind \<Rightarrow> string list" where
  "delete_ops HNote = [''note_delete'', ''delete'']"
| "delete_ops HNotebook = [''notebook_delete'']"

record entity_version_row =
  ev_timestamp :: timestamp
  ev_device_id :: string
  ev_entity :: "json option"

record hist_env =
  he_now :: timestamp
  he_sql_ts :: "json \<Rightarrow> timestamp option"
  he_rust_ts :: "string \<Rightarrow> timestamp option"

definition op_of :: "json \<Rightarrow> string option" where
  "op_of payload = json_str (json_at payload ''op'')"

definition has_op :: "string list \<Rightarrow> json \<Rightarrow> bool" where
  "has_op ops payload = (case op_of payload of Some op \<Rightarrow> op \<in> set ops | None \<Rightarrow> False)"

definition concerns :: "history_kind \<Rightarrow> string \<Rightarrow> json \<Rightarrow> bool" where
  "concerns kind ident payload \<longleftrightarrow>
     (has_op (upsert_ops kind) payload \<and>
        json_str (json_at (json_at payload (snapshot_key kind)) ''id'') = Some ident) \<or>
     (has_op (delete_ops kind) payload \<and> json_str (json_at payload ''id'') = Some ident)"

definition authored_at :: "hist_env \<Rightarrow> history_kind \<Rightarrow> change_row \<Rightarrow> timestamp" where
  "authored_at he kind c =
     coalesce (he_sql_ts he
       (if has_op (delete_ops kind) (c_payload c) then json_at (c_payload c) ''deleted_at''
        else json_at (json_at (c_payload c) (snapshot_key kind)) ''updated_at'')) (c_received_at c)"

definition history_wants ::
    "hist_env \<Rightarrow> history_kind \<Rightarrow> string \<Rightarrow> timestamp option \<Rightarrow> timestamp option \<Rightarrow> uuid option \<Rightarrow> change_row \<Rightarrow> bool" where
  "history_wants he kind ident not_before authored_not_before user_scope c \<longleftrightarrow>
     concerns kind ident (c_payload c) \<and>
     (case not_before of None \<Rightarrow> True | Some t \<Rightarrow> c_received_at c \<ge> t) \<and>
     (case user_scope of None \<Rightarrow> True | Some u \<Rightarrow> c_user_id c = u) \<and>
     (case authored_not_before of None \<Rightarrow> True | Some t \<Rightarrow> authored_at he kind c \<ge> t)"

definition version_of :: "hist_env \<Rightarrow> history_kind \<Rightarrow> change_row \<Rightarrow> entity_version_row" where
  "version_of he kind c =
     (let payload = c_payload c;
          parse_ts = (\<lambda>v. case json_str v of None \<Rightarrow> None | Some s \<Rightarrow> he_rust_ts he s);
          (ts, entity) =
            (if coalesce (op_of payload) [] \<in> set (delete_ops kind)
             then (parse_ts (json_at payload ''deleted_at''), None)
             else let snapshot = json_at payload (snapshot_key kind)
                  in (parse_ts (json_at snapshot ''updated_at''), Some snapshot))
      in \<lparr>ev_timestamp = coalesce ts (c_received_at c), ev_device_id = c_sync_device_id c, ev_entity = entity\<rparr>)"

definition history_rows ::
    "hist_env \<Rightarrow> history_kind \<Rightarrow> string \<Rightarrow> nat \<Rightarrow> timestamp option \<Rightarrow> timestamp option \<Rightarrow> uuid option \<Rightarrow> db \<Rightarrow> change_row list" where
  "history_rows he kind ident limit not_before authored_not_before user_scope d =
     take limit (rev (sort_key c_seq
       (tbl_select (\<lambda>_ c. history_wants he kind ident not_before authored_not_before user_scope c) (changes d))))"

definition entity_history ::
    "hist_env \<Rightarrow> history_kind \<Rightarrow> string \<Rightarrow> nat \<Rightarrow> timestamp option \<Rightarrow> timestamp option \<Rightarrow> uuid option \<Rightarrow> db \<Rightarrow> entity_version_row list" where
  "entity_history he kind ident limit not_before authored_not_before user_scope d =
     map (version_of he kind) (history_rows he kind ident limit not_before authored_not_before user_scope d)"

subsection \<open>Handlers\<close>

definition HISTORY_DEFAULT_LIMIT :: nat where "HISTORY_DEFAULT_LIMIT = 100"
definition HISTORY_MAX_LIMIT :: nat where "HISTORY_MAX_LIMIT = 10000"

definition history_limit :: "nat option \<Rightarrow> nat" where
  "history_limit q =
     min (case q of Some l \<Rightarrow> if l > 0 then l else HISTORY_DEFAULT_LIMIT | None \<Rightarrow> HISTORY_DEFAULT_LIMIT) HISTORY_MAX_LIMIT"

definition retention_cutoff :: "hist_env \<Rightarrow> app_state \<Rightarrow> timestamp option" where
  "retention_cutoff he app =
     (if retention_days (app_config app) > 0
      then Some (he_now he - int (retention_days (app_config app)) * 86400 * 1000000) else None)"

definition history_versions ::
    "hist_env \<Rightarrow> app_state \<Rightarrow> history_kind \<Rightarrow> uuid \<Rightarrow> nat option \<Rightarrow> timestamp option \<Rightarrow> uuid option \<Rightarrow> db \<Rightarrow> entity_version_row list" where
  "history_versions he app kind ent q cutoff user_scope d =
     entity_history he kind (uuid_str (app_core app) ent) (history_limit q) (retention_cutoff he app) cutoff user_scope d"

definition access_cutoff :: "app_state \<Rightarrow> access \<Rightarrow> timestamp option \<Rightarrow> timestamp option" where
  "access_cutoff app access share_created_at =
     (if history_since_access (app_config app) \<and> \<not> is_owner access then share_created_at else None)"

definition note_history ::
    "hist_env \<Rightarrow> app_state \<Rightarrow> authed_user \<Rightarrow> uuid \<Rightarrow> nat option \<Rightarrow> db \<Rightarrow> entity_version_row list result" where
  "note_history he app user ent q d =
     res_then (get_note_on (app_store app) ent d) (\<lambda>found.
       case found of
         Some n \<Rightarrow>
           res_then (resolve_note_access_on (app_scheme app) n (au_user_id user) d) (\<lambda>access.
             if \<not> acc_can_read access then Inl Forbidden
             else Inr (history_versions he app HNote ent q
                    (access_cutoff app access (map_option s_created_at (get_share_on ent (au_user_id user) d))) None d))
       | None \<Rightarrow> Inr (history_versions he app HNote ent q None (Some (au_user_id user)) d))"

definition notebook_history ::
    "hist_env \<Rightarrow> app_state \<Rightarrow> authed_user \<Rightarrow> uuid \<Rightarrow> nat option \<Rightarrow> db \<Rightarrow> entity_version_row list result" where
  "notebook_history he app user ent q d =
     (if notebook_owner_on ent d \<noteq> None
      then res_then (resolve_notebook_access_on ent (au_user_id user) d) (\<lambda>access.
             if \<not> acc_can_read access then Inl Forbidden
             else Inr (history_versions he app HNotebook ent q
                    (access_cutoff app access (map_option nbs_created_at (get_notebook_share_on ent (au_user_id user) d))) None d))
      else Inr (history_versions he app HNotebook ent q None (Some (au_user_id user)) d))"

subsection \<open>What a history contains\<close>

lemma history_rows_spec:
  assumes "c \<in> set (history_rows he kind ident limit nb anb scope d)"
  shows "history_wants he kind ident nb anb scope c \<and> c \<in> snd ` set (changes d)"
  using in_set_takeD [OF assms [unfolded history_rows_def]] by (force simp: tbl_select_def)

lemma history_rows_sorted: "sorted_wrt (\<ge>) (map c_seq (history_rows he kind ident limit nb anb scope d))"
proof -
  have "sorted_wrt (\<ge>) (map c_seq (rev (sort_key c_seq xs)))" for xs
    using sorted_sort_key [of c_seq xs] by (simp add: sorted_wrt_rev rev_map [symmetric])
  then show ?thesis unfolding history_rows_def take_map [symmetric] by (rule sorted_wrt_take)
qed

subsection \<open>Properties\<close>

text \<open>
  C20: the history of a note is read off the journal, newest first, at most 10000 versions, all
  of them about that note and within the retention period. It is only given to a user with
  the right to read; if the note does not exist (any more) a user sees the changes of its own
  devices only. Under \<open>HISTORY_VISIBILITY=access\<close> a user with a direct share who does not own
  the note sees no version authored before the share.
\<close>

theorem note_history_visibility:
  assumes "note_history he app user ent q d = Inr vs"
  shows "\<exists>rows. vs = map (version_of he HNote) rows \<and> length rows \<le> 10000
    \<and> sorted_wrt (\<ge>) (map c_seq rows)
    \<and> (\<forall>c\<in>set rows. c \<in> snd ` set (changes d) \<and> concerns HNote (uuid_str (app_core app) ent) (c_payload c)
        \<and> (retention_days (app_config app) > 0 \<longrightarrow>
            c_received_at c \<ge> he_now he - int (retention_days (app_config app)) * 86400 * 1000000)
        \<and> (live_note d ent = None \<longrightarrow> c_user_id c = au_user_id user)
        \<and> (\<forall>s. history_since_access (app_config app) \<and> owner_of d ent \<noteq> Some (au_user_id user)
            \<and> live_note d ent \<noteq> None \<and> get_share_on ent (au_user_id user) d = Some s
            \<longrightarrow> authored_at he HNote c \<ge> s_created_at s))
    \<and> (live_note d ent \<noteq> None \<longrightarrow> Read \<in> rights d ent (au_user_id user))"
proof -
  let ?u = "au_user_id user" and ?i = "uuid_str (app_core app) ent"
  let ?rows = "\<lambda>cut scope. history_rows he HNote ?i (history_limit q) (retention_cutoff he app) cut scope d"
  have le: "length (?rows cut scope) \<le> 10000" for cut scope
    by (simp add: history_rows_def history_limit_def HISTORY_MAX_LIMIT_def)
  have keep: "c \<in> snd ` set (changes d) \<and> concerns HNote ?i (c_payload c)
      \<and> (retention_days (app_config app) > 0 \<longrightarrow>
          c_received_at c \<ge> he_now he - int (retention_days (app_config app)) * 86400 * 1000000)
      \<and> (\<forall>u. scope = Some u \<longrightarrow> c_user_id c = u) \<and> (\<forall>t. cut = Some t \<longrightarrow> authored_at he HNote c \<ge> t)"
    if "c \<in> set (?rows cut scope)" for c cut scope
    using history_rows_spec [OF that] by (auto simp: history_wants_def retention_cutoff_def)
  show ?thesis
  proof (cases "live_note d ent")
    case None
    with assms have "vs = map (version_of he HNote) (?rows None (Some ?u))"
      by (simp add: note_history_def get_note_on_def decrypt_note_title_def history_versions_def entity_history_def)
    with None le keep history_rows_sorted show ?thesis by (intro exI [of _ "?rows None (Some ?u)"]) auto
  next
    case (Some n0)
    with assms obtain n a where g: "get_note_on (app_store app) ent d = Inr (Some n)"
      and r: "resolve_note_access_on (app_scheme app) n ?u d = Inr a" and rd: "acc_can_read a"
      and vs: "vs = map (version_of he HNote) (?rows (access_cutoff app a (map_option s_created_at (get_share_on ent ?u d))) None)"
      by (auto simp: note_history_def get_note_on_def decrypt_note_title_def history_versions_def entity_history_def
          res_simps split: option.splits if_splits)
    have acc: "note_access app user ent d = Inr (n, a)" using g r by (simp add: note_access_def)
    have read: "Read \<in> rights d ent ?u"
      using note_access_rights(1) [OF acc] rd by (auto simp: acc_can_read_def)
    have own: "is_owner a \<longleftrightarrow> owner_of d ent = Some ?u" by (rule note_access_rights(2) [OF acc])
    have cut: "access_cutoff app a (map_option s_created_at (get_share_on ent ?u d)) = Some (s_created_at s)"
      if "history_since_access (app_config app)" "owner_of d ent \<noteq> Some ?u" "get_share_on ent ?u d = Some s" for s
      using that own by (simp add: access_cutoff_def)
    from Some vs le keep history_rows_sorted read cut show ?thesis
      by (intro exI [of _ "?rows (access_cutoff app a (map_option s_created_at (get_share_on ent ?u d))) None"]) auto
  qed
qed

subsection \<open>Closed instances\<close>

definition since_access_app :: app_state where
  "since_access_app = demo_app\<lparr>app_config := demo_config\<lparr>history_since_access := True, retention_days := 0\<rparr>\<rparr>"

definition plain_hist :: hist_env where
  "plain_hist = \<lparr>he_now = 0, he_sql_ts = (\<lambda>v. case v of JNum t \<Rightarrow> Some t | _ \<Rightarrow> None), he_rust_ts = (\<lambda>_. None)\<rparr>"

definition hist_note :: note_row where
  "hist_note = \<lparr>n_id = 5, n_title = ''t'', n_owner_id = 1, n_notebook_id = Some 3, n_is_todo = False,
     n_todo_due = None, n_todo_completed = None, n_created_at = 0, n_updated_at = 3, n_deleted_at = None\<rparr>"

definition hist_change :: "nat \<Rightarrow> uuid \<Rightarrow> timestamp \<Rightarrow> change_row" where
  "hist_change s u t = \<lparr>c_seq = s, c_user_id = u, c_origin_device_id = 11, c_batch_id = 100, c_batch_index = s,
     c_sync_device_id = [], c_payload = JObj [(''op'', JStr ''note_update''), (''note'', JObj [(''id'', JStr (uuid_str ref_core 5)),
       (''updated_at'', JNum t)])], c_received_at = t\<rparr>"

text \<open>Two versions, of times 10 and 90; user 2 has a share of the notebook from time 50.\<close>

definition hist_db :: db where
  "hist_db = empty_db\<lparr>notes_tbl := [(5, hist_note)],
     notebooks := [(3, \<lparr>nb_id = 3, nb_user_id = 1, nb_title = [], nb_alias = None, nb_created_at = 0, nb_updated_at = 0,
       nb_deleted_at = None, nb_vv = Map.empty, nb_last_writer = []\<rparr>)],
     notebook_shares := [((3, 2), \<lparr>nbs_notebook_id = 3, nbs_user_id = 2, nbs_capabilities = CAP_ALL, nbs_created_at = 50\<rparr>)],
     changes := [(1, hist_change 1 1 10), (2, hist_change 2 1 90)], changes_next := 3\<rparr>"

text \<open>The same with a direct share of the note, from time 50.\<close>

definition direct_db :: db where
  "direct_db = hist_db\<lparr>notebook_shares := [],
     note_shares := [((5, 2), \<lparr>s_note_id = 5, s_user_id = 2, s_capabilities = CAP_ALL, s_created_at = 50\<rparr>)]\<rparr>"

definition hist_user :: authed_user where
  "hist_user = \<lparr>au_user_id = 2, au_device_id = 21, au_email = []\<rparr>"

lemmas hist_eval = note_history_def get_note_on_def live_note_def decrypt_note_title_def hist_db_def direct_db_def
  hist_note_def hist_change_def empty_db_def tbl_defs since_access_app_def plain_hist_def hist_user_def history_versions_def
  entity_history_def history_rows_def history_wants_def concerns_def has_op_def op_of_def json_at_def authored_at_def
  coalesce_def access_cutoff_def retention_cutoff_def history_limit_def HISTORY_DEFAULT_LIMIT_def HISTORY_MAX_LIMIT_def
  is_prefix_def ENC_PREFIX_def version_of_def

lemma granted_read:
  assumes "Read \<in> note_caps n u d" and "n_owner_id n \<noteq> u"
  shows "\<exists>a. resolve_note_access_on s n u d = Inr a \<and> acc_can_read a \<and> \<not> is_owner a"
proof (cases "resolve_note_access_on s n u d")
  case (Inr a)
  with assms resolve_note_access_Inr [OF Inr] resolve_note_access_owner [OF Inr] show ?thesis
    by (auto simp: acc_can_read_def)
qed (use assms resolve_note_access_error in blast)

lemma hist_access:
  "\<exists>a. resolve_note_access_on s hist_note 2 hist_db = Inr a \<and> acc_can_read a \<and> \<not> is_owner a"
  "\<exists>a. resolve_note_access_on s hist_note 2 direct_db = Inr a \<and> acc_can_read a \<and> \<not> is_owner a"
  by (rule granted_read; simp add: note_caps_def hist_note_def hist_db_def direct_db_def direct_caps_def inherited_caps_def
      notebook_caps_def notebook_owner_on_def live_notebook_def get_notebook_share_on_def get_share_on_def tbl_get_def empty_db_def)+

theorem note_history_visibility_witness:
  "\<exists>v. note_history plain_hist since_access_app hist_user 5 None direct_db = Inr [v]
     \<and> Read \<in> rights direct_db 5 2"
proof -
  obtain a where a: "resolve_note_access_on (app_scheme since_access_app) hist_note 2 direct_db = Inr a" "acc_can_read a" "\<not> is_owner a"
    using hist_access(2) by blast
  have "\<exists>v. note_history plain_hist since_access_app hist_user 5 None direct_db = Inr [v]"
    using a by (simp add: hist_eval get_share_on_def)
  then obtain v where v: "note_history plain_hist since_access_app hist_user 5 None direct_db = Inr [v]" ..
  moreover have "live_note direct_db 5 \<noteq> None" by (simp add: hist_eval)
  ultimately show ?thesis using note_history_visibility [OF v] by (auto simp: hist_user_def)
qed

text \<open>
  The cut-off of \<open>HISTORY_VISIBILITY=access\<close> is the creation of the direct share. A user whose
  access comes from a share of the notebook has none, so it also sees the versions that are
  older than its access: here the version of time 10, with a share from time 50.
\<close>

theorem inherited_history_unbounded:
  "\<exists>vs. note_history plain_hist since_access_app hist_user 5 None hist_db = Inr vs \<and> map ev_timestamp vs = [90, 10]
     \<and> map_option nbs_created_at (get_notebook_share_on 3 2 hist_db) = Some 50 \<and> get_share_on 5 2 hist_db = None"
proof -
  obtain a where a: "resolve_note_access_on (app_scheme since_access_app) hist_note 2 hist_db = Inr a" "acc_can_read a" "\<not> is_owner a"
    using hist_access(1) by blast
  then show ?thesis
    by (simp add: hist_eval get_share_on_def get_notebook_share_on_def live_notebook_def)
qed

end
