(* ===== verification/Resource_Data.thy ===== *)
theory Resource_Data
  imports Entities Note_Body
begin

text \<open>
  The contents of resources over HTTP: reading and writing a blob, with the storage quota of a
  user (\<open>http.rs\<close>, and \<open>user_blob_bytes_excluding\<close> of \<open>store.rs\<close>). The quota path holds the
  user's advisory lock, so it is one step.
\<close>

definition live_blob_of :: "uuid \<Rightarrow> db \<Rightarrow> uuid \<Rightarrow> bool" where
  "live_blob_of user_id d i =
     (case tbl_get (resources d) i of
        Some r \<Rightarrow> r_user_id r = user_id \<and> r_deleted_at r = None
      | None \<Rightarrow> False)"

definition user_blob_bytes_excluding :: "uuid \<Rightarrow> uuid \<Rightarrow> db \<Rightarrow> nat" where
  "user_blob_bytes_excluding user_id exclude d =
     sum_list (map (\<lambda>(i, data). length data)
       (filter (\<lambda>(i, data). live_blob_of user_id d i \<and> i \<noteq> exclude) (resource_blobs d)))"

definition get_resource_data :: "authed_user \<Rightarrow> uuid \<Rightarrow> db \<Rightarrow> string result" where
  "get_resource_data user i d =
     (if \<not> resource_owned_by i (au_user_id user) d then Inl NotFound
      else ok_or (get_resource_blob i d) NotFound)"

definition put_resource_data :: "app_state \<Rightarrow> authed_user \<Rightarrow> uuid \<Rightarrow> string \<Rightarrow> db \<Rightarrow> (nat \<times> db) result" where
  "put_resource_data app user i body d =
     (let limit = max_user_storage_bytes (app_config app); u = au_user_id user
      in if limit > 0
         then if \<not> live_resource_owned_by i u d then Inl NotFound
              else if int (user_blob_bytes_excluding u i d) + int (length body) > limit
              then Inl (QuotaExceeded (''storage limit reached ('' @ show_nat (nat limit) @ '' bytes)''))
              else (case put_resource_blob_on u i body d of
                      (written, d') \<Rightarrow> if \<not> written then Inl NotFound else Inr (length body, d'))
         else if \<not> resource_owned_by i u d then Inl NotFound
              else (case put_resource_blob_on u i body d of
                      (written, d') \<Rightarrow> if \<not> written then Inl NotFound else Inr (length body, d')))"

subsection \<open>Properties\<close>

text \<open>All bytes the live resources of a user hold.\<close>

definition user_blob_bytes :: "uuid \<Rightarrow> db \<Rightarrow> nat" where
  "user_blob_bytes user_id d =
     sum_list (map (\<lambda>(i, data). length data) (filter (\<lambda>(i, data). live_blob_of user_id d i) (resource_blobs d)))"

lemma own_resource_live:
  "own_resource u i d = Some r \<Longrightarrow> r_deleted_at r = None \<Longrightarrow> live_blob_of u d i"
  by (auto simp: own_resource_def live_blob_of_def split: option.splits if_splits)

lemma sum_update_split:
  assumes "distinct (map fst t)" and "Q k"
  shows "sum_list (map (\<lambda>(i, data). length data) (filter (\<lambda>(i, data). Q i) (tbl_put k v t))) =
    sum_list (map (\<lambda>(i, data). length data) (filter (\<lambda>(i, data). Q i \<and> i \<noteq> k) t)) + length v"
  using assms
proof (induction t)
  case (Cons r t)
  obtain i w where r: "r = (i, w)" by fastforce
  show ?case
  proof (cases "i = k")
    case True
    with Cons.prems r have "filter (\<lambda>(i, data). Q i \<and> i \<noteq> k) t = filter (\<lambda>(i, data). Q i) t"
      by (intro filter_cong) (auto simp: image_iff)
    with True r Cons.prems show ?thesis by (simp add: tbl_put_def)
  next
    case False
    with Cons r show ?thesis by (simp add: tbl_put_def)
  qed
qed (simp add: tbl_put_def)

lemma put_blob_effect:
  assumes "put_resource_blob_on u i body d = (True, d')"
  shows "d' = d\<lparr>resource_blobs := tbl_put i body (resource_blobs d)\<rparr>" and "live_blob_of u d i"
  using assms by (auto simp: put_resource_blob_on_def intro: own_resource_live split: option.splits if_splits)

text \<open>
  C21: an upload that the server accepts is what the next download returns; it was for a live
  resource of the caller, changes nothing but that blob, and with a storage limit the bytes of
  all live resources of the user are within the limit afterwards. Nobody else can read or
  write the blob.
\<close>

theorem put_resource_data_effect:
  assumes "put_resource_data app user i body d = Inr (sz, d')" and "tbl_ok (resource_blobs d)"
  shows "sz = length body \<and> d' = d\<lparr>resource_blobs := tbl_put i body (resource_blobs d)\<rparr>
    \<and> live_blob_of (au_user_id user) d i
    \<and> get_resource_data user i d' = Inr body
    \<and> (max_user_storage_bytes (app_config app) > 0 \<longrightarrow>
        int (user_blob_bytes (au_user_id user) d') \<le> max_user_storage_bytes (app_config app))
    \<and> (\<forall>v. au_user_id v \<noteq> au_user_id user \<longrightarrow>
        get_resource_data v i d' = Inl NotFound \<and> put_resource_data app v i body d' = Inl NotFound)"
proof -
  let ?u = "au_user_id user"
  from assms(1) have put: "put_resource_blob_on ?u i body d = (True, d')" and sz: "sz = length body"
    and quota: "max_user_storage_bytes (app_config app) > 0 \<Longrightarrow>
      int (user_blob_bytes_excluding ?u i d) + int (length body) \<le> max_user_storage_bytes (app_config app)"
    by (auto simp: put_resource_data_def Let_def split: if_splits prod.splits)
  note eff = put_blob_effect [OF put]
  obtain r where r: "tbl_get (resources d) i = Some r" "r_user_id r = ?u"
    using eff(2) by (auto simp: live_blob_of_def split: option.splits)
  have live: "live_blob_of ?u d' j = live_blob_of ?u d j" for j by (simp add: eff(1) live_blob_of_def)
  have "user_blob_bytes ?u d' = user_blob_bytes_excluding ?u i d + length body"
    using sum_update_split [of "resource_blobs d" "live_blob_of ?u d" i body] assms(2) eff(2)
    by (simp add: user_blob_bytes_def user_blob_bytes_excluding_def live eff(1) tbl_ok_def live_blob_of_def)
  moreover have "get_resource_data user i d' = Inr body"
    using r by (simp add: get_resource_data_def resource_owned_by_def own_resource_def get_resource_blob_def eff(1))
  moreover have "get_resource_data v i d' = Inl NotFound \<and> put_resource_data app v i body d' = Inl NotFound"
    if "au_user_id v \<noteq> ?u" for v
    using that r by (simp add: get_resource_data_def put_resource_data_def Let_def resource_owned_by_def
        live_resource_owned_by_def own_resource_def eff(1))
  ultimately show ?thesis using sz eff quota by auto
qed

definition blob_db :: db where
  "blob_db = empty_db\<lparr>resources := [(4, \<lparr>r_id = 4, r_user_id = 1, r_note_id = 5, r_title = [], r_mime_type = [],
     r_file_name = [], r_size = 0, r_created_at = 0, r_deleted_at = None, r_vv = Map.empty, r_last_writer = [],
     r_duration_ms = None, r_width = None, r_height = None\<rparr>)]\<rparr>"

definition blob_user :: authed_user where
  "blob_user = \<lparr>au_user_id = 1, au_device_id = 1, au_email = []\<rparr>"

theorem put_resource_data_effect_witness:
  "\<exists>d'. put_resource_data demo_app blob_user 4 ''abc'' blob_db = Inr (3, d') \<and> get_resource_data blob_user 4 d' = Inr ''abc''"
proof -
  have "\<exists>d'. put_resource_data demo_app blob_user 4 ''abc'' blob_db = Inr (3, d')"
    by (simp add: put_resource_data_def blob_db_def blob_user_def empty_db_def resource_owned_by_def live_resource_owned_by_def
        own_resource_def put_resource_blob_on_def tbl_get_def user_blob_bytes_excluding_def demo_config_def)
  then obtain d' where put: "put_resource_data demo_app blob_user 4 ''abc'' blob_db = Inr (3, d')" ..
  have "tbl_ok (resource_blobs blob_db)" by (simp add: blob_db_def empty_db_def)
  from put_resource_data_effect [OF put this] put show ?thesis by blast
qed

end
