(* ===== verification/Reencrypt.thy ===== *)
theory Reencrypt
  imports App_State
begin

text \<open>
  \<open>reencrypt.rs\<close>: the offline pass that rewrites plaintext titles and lines into their encrypted
  form, in batches of ascending identifiers. A column is a pair of functions; its contract is
  the locale \<open>text_column\<close>, interpreted on the titles of notes and the contents of lines. \<open>mid k\<close>
  is what other connections write between the \<open>SELECT\<close> and the transaction of batch \<open>k\<close>.
\<close>

subsection \<open>The pass\<close>

record re_options =
  ro_dry_run :: bool
  ro_batch_size :: nat

definition default_options :: re_options where
  "default_options = \<lparr>ro_dry_run = False, ro_batch_size = 500\<rparr>"

record table_stats =
  ts_scanned :: nat
  ts_rewritten :: nat
  ts_skipped_concurrent :: nat

definition no_stats :: table_stats where
  "no_stats = \<lparr>ts_scanned = 0, ts_rewritten = 0, ts_skipped_concurrent = 0\<rparr>"

abbreviation tagged :: "string \<Rightarrow> bool" where
  "tagged s \<equiv> is_prefix ENC_PREFIX s"

definition plain_after :: "('r \<Rightarrow> string) \<Rightarrow> uuid \<Rightarrow> (uuid, 'r) table \<Rightarrow> (uuid \<times> 'r) list" where
  "plain_after get last_id t = sort_key fst (filter (\<lambda>(i, r). \<not> tagged (get r) \<and> i > last_id) t)"

definition re_select :: "('r \<Rightarrow> string) \<Rightarrow> uuid \<Rightarrow> nat \<Rightarrow> (uuid, 'r) table \<Rightarrow> (uuid \<times> string) list" where
  "re_select get last_id batch_size t = map (\<lambda>(i, r). (i, get r)) (take batch_size (plain_after get last_id t))"

text \<open>One transaction. The \<open>UPDATE\<close> only matches a row that still has the value that was read.\<close>

fun re_update ::
    "store \<Rightarrow> (uuid \<Rightarrow> string) \<Rightarrow> ('r \<Rightarrow> string) \<Rightarrow> (string \<Rightarrow> 'r \<Rightarrow> 'r) \<Rightarrow> (uuid \<times> string) list \<Rightarrow>
     table_stats \<Rightarrow> (uuid, 'r) table \<Rightarrow> (table_stats \<times> (uuid, 'r) table) result" where
  "re_update st nonces get put [] stats t = Inr (stats, t)"
| "re_update st nonces get put ((i, plaintext) # rows) stats t =
     res_then (store_encrypt st (nonces i) plaintext) (\<lambda>encrypted.
       case tbl_get t i of
         Some r \<Rightarrow>
           if get r = plaintext
           then re_update st nonces get put rows (stats\<lparr>ts_rewritten := ts_rewritten stats + 1\<rparr>)
                  (tbl_upd i (put encrypted) t)
           else re_update st nonces get put rows
                  (stats\<lparr>ts_skipped_concurrent := ts_skipped_concurrent stats + 1\<rparr>) t
       | None \<Rightarrow>
           re_update st nonces get put rows
             (stats\<lparr>ts_skipped_concurrent := ts_skipped_concurrent stats + 1\<rparr>) t)"

text \<open>\<open>None\<close>: the fuel is used up.\<close>

fun re_loop ::
    "nat \<Rightarrow> store \<Rightarrow> (uuid \<Rightarrow> string) \<Rightarrow> (nat \<Rightarrow> (uuid, 'r) table \<Rightarrow> (uuid, 'r) table) \<Rightarrow> re_options \<Rightarrow>
     ('r \<Rightarrow> string) \<Rightarrow> (string \<Rightarrow> 'r \<Rightarrow> 'r) \<Rightarrow> nat \<Rightarrow> uuid \<Rightarrow> table_stats \<Rightarrow> (uuid, 'r) table \<Rightarrow>
     (table_stats result \<times> (uuid, 'r) table) option" where
  "re_loop 0 st nonces mid opts get put k last_id stats t = None"
| "re_loop (Suc fuel) st nonces mid opts get put k last_id stats t =
     (let rows = re_select get last_id (ro_batch_size opts) t
      in if rows = [] then Some (Inr stats, t)
         else
           let stats1 = stats\<lparr>ts_scanned := ts_scanned stats + length rows\<rparr>;
               t1 = mid k t
           in if ro_dry_run opts
              then re_loop fuel st nonces mid opts get put (Suc k) (fst (last rows)) stats1 t1
              else case re_update st nonces get put rows stats1 t1 of
                     Inl e \<Rightarrow> Some (Inl e, t1)
                   | Inr (stats2, t2) \<Rightarrow>
                       re_loop fuel st nonces mid opts get put (Suc k) (fst (last rows)) stats2 t2)"

definition reencrypt_column ::
    "nat \<Rightarrow> store \<Rightarrow> (uuid \<Rightarrow> string) \<Rightarrow> (nat \<Rightarrow> (uuid, 'r) table \<Rightarrow> (uuid, 'r) table) \<Rightarrow> re_options \<Rightarrow>
     ('r \<Rightarrow> string) \<Rightarrow> (string \<Rightarrow> 'r \<Rightarrow> 'r) \<Rightarrow> (uuid, 'r) table \<Rightarrow> (table_stats result \<times> (uuid, 'r) table) option" where
  "reencrypt_column fuel st nonces mid opts get put t = re_loop fuel st nonces mid opts get put 0 0 no_stats t"

definition set_title :: "string \<Rightarrow> note_row \<Rightarrow> note_row" where
  "set_title s n = n\<lparr>n_title := s\<rparr>"

definition set_content :: "string \<Rightarrow> line \<Rightarrow> line" where
  "set_content s l = l\<lparr>l_content := s\<rparr>"

text \<open>With no other writer, as the pass is meant to be run.\<close>

definition reencrypt_run ::
    "nat \<Rightarrow> store \<Rightarrow> (uuid \<Rightarrow> string) \<Rightarrow> re_options \<Rightarrow> db \<Rightarrow> ((table_stats \<times> table_stats) result \<times> db) option" where
  "reencrypt_run fuel st nonces opts d =
     (if \<not> cipher_enabled (st_cipher st)
      then Some (Inl (Internal ''re-encrypt pass needs AT_REST_KEY set (the cipher is disabled)''), d)
      else case reencrypt_column fuel st nonces (\<lambda>_ t. t) opts n_title set_title (notes_tbl d) of
             None \<Rightarrow> None
           | Some (Inl e, t) \<Rightarrow> Some (Inl e, d\<lparr>notes_tbl := t\<rparr>)
           | Some (Inr s1, t) \<Rightarrow>
               (case reencrypt_column fuel st nonces (\<lambda>_ t. t) opts l_content set_content (lines d) of
                  None \<Rightarrow> None
                | Some (Inl e, t') \<Rightarrow> Some (Inl e, d\<lparr>notes_tbl := t, lines := t'\<rparr>)
                | Some (Inr s2, t') \<Rightarrow> Some (Inr (s1, s2), d\<lparr>notes_tbl := t, lines := t'\<rparr>)))"

subsection \<open>Arguments\<close>

datatype parsed_args = Options re_options | Help | BadArgs string

fun parse_args :: "re_options \<Rightarrow> string list \<Rightarrow> parsed_args" where
  "parse_args opts [] = Options opts"
| "parse_args opts (arg # args) =
     (if arg = ''--dry-run'' then parse_args (opts\<lparr>ro_dry_run := True\<rparr>) args
      else if arg = ''--batch-size''
      then (case args of
              [] \<Rightarrow> BadArgs ''--batch-size requires a value''
            | v # rest \<Rightarrow>
                (case parse_sint 64 v of
                   None \<Rightarrow> BadArgs ''--batch-size must be a positive integer''
                 | Some n \<Rightarrow>
                     if n > 0 then parse_args (opts\<lparr>ro_batch_size := nat n\<rparr>) rest
                     else BadArgs ''--batch-size must be positive''))
      else if arg = ''--help'' \<or> arg = ''-h'' then Help
      else BadArgs (''unknown argument: '' @ arg @ '' (try --help)''))"

subsection \<open>Columns\<close>

text \<open>What a row reads as, and what the cipher and the nonces must allow.\<close>

definition reads_as :: "store \<Rightarrow> ('r \<Rightarrow> string) \<Rightarrow> (uuid, 'r) table \<Rightarrow> uuid \<Rightarrow> string result option" where
  "reads_as st get t i = map_option (\<lambda>r. store_decrypt st (get r)) (tbl_get t i)"

definition can_store :: "store \<Rightarrow> (uuid \<Rightarrow> string) \<Rightarrow> string \<Rightarrow> bool" where
  "can_store st nonces v \<longleftrightarrow> (\<forall>i. \<exists>s. store_encrypt st (nonces i) v = Inr s \<and> store_decrypt st s = Inr v \<and> tagged s)"

locale text_column =
  fixes get :: "'r \<Rightarrow> string" and put :: "string \<Rightarrow> 'r \<Rightarrow> 'r"
  assumes get_put: "get (put s r) = s"
begin

lemma stored: "can_store st nonces v \<Longrightarrow> \<exists>s. store_encrypt st (nonces i) v = Inr s \<and> store_decrypt st s = Inr v \<and> tagged s"
  by (simp add: can_store_def)

text \<open>Whatever table the transaction meets, no row reads differently after it.\<close>

lemma re_update_reads:
  assumes "re_update st nonces get put rows stats t = Inr (stats', t')"
    and "\<forall>(i, v)\<in>set rows. \<not> tagged v \<and> can_store st nonces v"
  shows "reads_as st get t' j = reads_as st get t j"
  using assms
proof (induction rows arbitrary: stats t)
  case (Cons x rows)
  obtain i v where x: "x = (i, v)" by fastforce
  from Cons.prems(2) x obtain s where s: "store_encrypt st (nonces i) v = Inr s" "store_decrypt st s = Inr v"
    using stored by fastforce
  have plain: "store_decrypt st v = Inr v" using Cons.prems(2) x by (simp add: store_decrypt_def decrypt_untagged)
  have "reads_as st get (tbl_upd i (put s) t) j = reads_as st get t j" if "tbl_get t i = Some r" "get r = v" for r
    using that s(2) plain by (auto simp: reads_as_def get_put)
  with Cons s x show ?case by (auto split: option.splits if_splits)
qed simp

text \<open>With the rows as they were read, all of them are rewritten.\<close>

lemma re_update_all:
  assumes "distinct (map fst rows)"
    and "\<forall>(i, v)\<in>set rows. can_store st nonces v \<and> (\<exists>r. tbl_get t i = Some r \<and> get r = v)"
  shows "\<exists>t'. re_update st nonces get put rows stats t =
      Inr (stats\<lparr>ts_rewritten := ts_rewritten stats + length rows\<rparr>, t') \<and> map fst t' = map fst t
    \<and> (\<forall>j. j \<notin> fst ` set rows \<longrightarrow> tbl_get t' j = tbl_get t j)
    \<and> (\<forall>j\<in>fst ` set rows. \<exists>r. tbl_get t' j = Some r \<and> tagged (get r))"
  using assms
proof (induction rows arbitrary: stats t)
  case (Cons x rows)
  obtain i v where x: "x = (i, v)" by fastforce
  from Cons.prems(2) x obtain s r where s: "store_encrypt st (nonces i) v = Inr s" "tagged s"
    and r: "tbl_get t i = Some r" "get r = v"
    using stored by fastforce
  let ?t = "tbl_upd i (put s) t"
  have ni: "i \<notin> fst ` set rows" using Cons.prems(1) x by simp
  have "\<forall>(i, v)\<in>set rows. can_store st nonces v \<and> (\<exists>r. tbl_get ?t i = Some r \<and> get r = v)"
    using Cons.prems(2) ni by (fastforce simp: image_iff)
  with Cons.IH [of ?t "stats\<lparr>ts_rewritten := ts_rewritten stats + 1\<rparr>"] Cons.prems(1) x obtain t' where
    t': "re_update st nonces get put rows (stats\<lparr>ts_rewritten := ts_rewritten stats + 1\<rparr>) ?t =
      Inr (stats\<lparr>ts_rewritten := ts_rewritten stats + 1 + length rows\<rparr>, t')" "map fst t' = map fst ?t"
    "\<forall>j. j \<notin> fst ` set rows \<longrightarrow> tbl_get t' j = tbl_get ?t j"
    "\<forall>j\<in>fst ` set rows. \<exists>r. tbl_get t' j = Some r \<and> tagged (get r)" by auto
  have "map fst ?t = map fst t" by (simp add: tbl_upd_def)
  moreover have "tbl_get t' i = Some (put s r)" using t'(3) ni r(1) by simp
  ultimately show ?case
    using t' s r x by (intro exI [of _ t']) (auto simp: get_put)
qed simp

lemma plain_after_mem:
  "tbl_ok t \<Longrightarrow> (i, r) \<in> set (plain_after get z t) \<longleftrightarrow> tbl_get t i = Some r \<and> \<not> tagged (get r) \<and> z < i"
  by (auto simp: plain_after_def tbl_get_in_iff)

lemma plain_after_strict: "tbl_ok t \<Longrightarrow> sorted_wrt (<) (map fst (plain_after get z t))"
proof -
  assume "tbl_ok t"
  then have "distinct (map fst (filter (\<lambda>(i, r). \<not> tagged (get r) \<and> i > z) t))"
    by (simp add: tbl_ok_def distinct_map_filter)
  then show ?thesis
    by (simp add: plain_after_def strict_sorted_iff distinct_map)
qed

lemma plain_after_distinct: "tbl_ok t \<Longrightarrow> distinct (plain_after get z t)"
  using plain_after_strict [of t z] by (auto simp: strict_sorted_iff distinct_map)

text \<open>One batch: what is left is what comes after it.\<close>

lemma batch_step:
  assumes ok: "tbl_ok t" and P: "P = plain_after get z t" and ne: "take b P \<noteq> []"
    and z': "z' = fst (last (take b P))" and keys: "map fst t2 = map fst t"
    and other: "\<forall>j. j \<notin> fst ` set (take b P) \<longrightarrow> tbl_get t2 j = tbl_get t j"
  shows "z < z'" and "length (plain_after get z' t2) = length P - length (take b P)"
    and "\<And>i r. tbl_get t i = Some r \<Longrightarrow> \<not> tagged (get r) \<Longrightarrow> z < i \<Longrightarrow> i \<le> z' \<Longrightarrow> i \<in> fst ` set (take b P)"
proof -
  have strict: "sorted_wrt (<) (map fst P)" unfolding P by (rule plain_after_strict [OF ok])
  note cut = strict_filter_take [OF strict ne, folded z']
  have "last (take b P) \<in> set P" using last_in_set [OF ne] by (rule in_set_takeD)
  moreover obtain i r where l: "last (take b P) = (i, r)" by fastforce
  ultimately have "(i, r) \<in> set (plain_after get z t)" by (simp add: P)
  then show zz: "z < z'" unfolding plain_after_mem [OF ok] by (simp add: z' l)
  show "i \<in> fst ` set (take b P)" if "tbl_get t i = Some r" "\<not> tagged (get r)" "z < i" "i \<le> z'" for i r
  proof -
    have "(i, r) \<in> set P" using that(1-3) by (simp add: P plain_after_mem [OF ok])
    then have "(i, r) \<in> set (filter (\<lambda>x. fst x \<le> z') P)" using that(4) by simp
    then show ?thesis unfolding cut(1) by force
  qed
  have ok2: "tbl_ok t2" using ok keys by (simp add: tbl_ok_def)
  have low: "i \<le> z'" if "i \<in> fst ` set (take b P)" for i
    using that unfolding cut(1) [symmetric] by auto
  have "set (plain_after get z' t2) = set (filter (\<lambda>x. z' < fst x) P)"
  proof (intro set_eqI)
    fix x
    show "x \<in> set (plain_after get z' t2) \<longleftrightarrow> x \<in> set (filter (\<lambda>x. z' < fst x) P)"
    proof (cases x)
      case (Pair i r)
      have "z' < i \<Longrightarrow> tbl_get t2 i = tbl_get t i" using other low by fastforce
      with zz show ?thesis by (auto simp: Pair P plain_after_mem [OF ok] plain_after_mem [OF ok2])
    qed
  qed
  moreover have "distinct (filter (\<lambda>x. z' < fst x) P)" unfolding P using plain_after_distinct [OF ok] by simp
  ultimately have "length (plain_after get z' t2) = length (filter (\<lambda>x. z' < fst x) P)"
    using plain_after_distinct [OF ok2] by (metis distinct_card)
  then show "length (plain_after get z' t2) = length P - length (take b P)" unfolding cut(2) by simp
qed

lemma re_loop_complete:
  assumes "tbl_ok t" and "\<forall>i r. tbl_get t i = Some r \<longrightarrow> \<not> tagged (get r) \<longrightarrow> can_store st nonces (get r)"
    and "1 \<le> ro_batch_size opts" and "\<not> ro_dry_run opts"
    and "\<forall>i r. tbl_get t i = Some r \<longrightarrow> 0 < i \<longrightarrow> i \<le> z \<longrightarrow> tagged (get r)"
    and "length (plain_after get z t) < fuel"
  shows "\<exists>st' t'. re_loop fuel st nonces (\<lambda>_ t. t) opts get put k z stats t = Some (Inr st', t')
    \<and> (\<forall>j. reads_as st get t' j = reads_as st get t j) \<and> map fst t' = map fst t
    \<and> (\<forall>i r. tbl_get t' i = Some r \<longrightarrow> 0 < i \<longrightarrow> tagged (get r))
    \<and> st' = stats\<lparr>ts_scanned := ts_scanned stats + length (plain_after get z t),
        ts_rewritten := ts_rewritten stats + length (plain_after get z t)\<rparr>"
  using assms(1,2,5,6)
proof (induction fuel arbitrary: k z stats t)
  case (Suc n)
  define P where "P = plain_after get z t"
  define b where "b = ro_batch_size opts"
  define rows where "rows = re_select get z b t"
  have rows: "rows = map (\<lambda>(i, r). (i, get r)) (take b P)" by (simp add: rows_def re_select_def P_def)
  show ?case
  proof (cases "P = []")
    case True
    have "tagged (get r)" if "tbl_get t i = Some r" "0 < i" for i r
      using True Suc.prems(3) that plain_after_mem [OF Suc.prems(1), of i r z] by (cases "i \<le> z") (auto simp: P_def)
    with True rows show ?thesis by (simp add: rows_def b_def P_def)
  next
    case False
    then have ne: "take b P \<noteq> []" using assms(3) by (simp add: b_def)
    define z' where "z' = fst (last (take b P))"
    have lr: "fst (last rows) = z'" using ne by (simp add: rows z'_def last_map case_prod_beta)
    have ids: "fst ` set rows = fst ` set (take b P)" by (force simp: rows)
    have mem: "tbl_get t i = Some r \<and> \<not> tagged (get r) \<and> z < i" if "(i, r) \<in> set (take b P)" for i r
      using in_set_takeD [OF that] plain_after_mem [OF Suc.prems(1)] by (simp add: P_def)
    have dist: "distinct (map fst rows)"
      using plain_after_strict [OF Suc.prems(1), of z]
      by (auto simp: rows P_def comp_def case_prod_beta strict_sorted_iff take_map [symmetric] intro: distinct_take)
    have good: "\<forall>(i, v)\<in>set rows. can_store st nonces v \<and> (\<exists>r. tbl_get t i = Some r \<and> get r = v)"
      using mem Suc.prems(2) by (fastforce simp: rows)
    let ?st1 = "stats\<lparr>ts_scanned := ts_scanned stats + length rows\<rparr>"
    obtain t2 where t2: "re_update st nonces get put rows ?st1 t =
        Inr (?st1\<lparr>ts_rewritten := ts_rewritten ?st1 + length rows\<rparr>, t2)" "map fst t2 = map fst t"
      "\<forall>j. j \<notin> fst ` set rows \<longrightarrow> tbl_get t2 j = tbl_get t j"
      "\<forall>j\<in>fst ` set rows. \<exists>r. tbl_get t2 j = Some r \<and> tagged (get r)"
      using re_update_all [OF dist good] by blast
    note step = batch_step [OF Suc.prems(1) P_def ne z'_def t2(2) t2(3) [unfolded ids]]
    have untag: "\<forall>(i, v)\<in>set rows. \<not> tagged v \<and> can_store st nonces v" using good mem by (fastforce simp: rows)
    have reads: "reads_as st get t2 j = reads_as st get t j" for j by (rule re_update_reads [OF t2(1) untag])
    have same: "tbl_get t i = Some r" if "tbl_get t2 i = Some r" "\<not> tagged (get r)" for i r
      using that t2(3,4) by (cases "i \<in> fst ` set rows") auto
    have ok2: "tbl_ok t2" using Suc.prems(1) t2(2) by (simp add: tbl_ok_def)
    have enc2: "\<forall>i r. tbl_get t2 i = Some r \<longrightarrow> \<not> tagged (get r) \<longrightarrow> can_store st nonces (get r)"
      using same Suc.prems(2) by blast
    have cov: "\<forall>i r. tbl_get t2 i = Some r \<longrightarrow> 0 < i \<longrightarrow> i \<le> z' \<longrightarrow> tagged (get r)"
    proof (intro allI impI, rule ccontr)
      fix i r assume a: "tbl_get t2 i = Some r" "0 < i" "i \<le> z'" "\<not> tagged (get r)"
      note t = same [OF a(1,4)]
      with Suc.prems(3) a have "z < i" by (meson not_le)
      with step(3) [OF t a(4)] a t2(4) ids show False by fastforce
    qed
    have len: "length (take b P) = length rows" by (simp add: rows)
    have "0 < length (take b P)" "0 < length P" using ne False by (blast, blast)
    then have less: "length (plain_after get z' t2) < n"
      using step(2) Suc.prems(4) [folded P_def] by arith
    have total: "length rows + length (plain_after get z' t2) = length (plain_after get z t)"
      using step(2) by (simp add: len [symmetric] P_def)
    from Suc.IH [OF ok2 enc2 cov less, of "Suc k" "?st1\<lparr>ts_rewritten := ts_rewritten ?st1 + length rows\<rparr>"]
    obtain t' where t': "re_loop n st nonces (\<lambda>_ t. t) opts get put (Suc k) z' (?st1\<lparr>ts_rewritten := ts_rewritten ?st1 + length rows\<rparr>) t2 =
        Some (Inr (stats\<lparr>ts_scanned := ts_scanned stats + length rows + length (plain_after get z' t2),
          ts_rewritten := ts_rewritten stats + length rows + length (plain_after get z' t2)\<rparr>), t')"
      "\<forall>j. reads_as st get t' j = reads_as st get t2 j" "map fst t' = map fst t2"
      "\<forall>i r. tbl_get t' i = Some r \<longrightarrow> 0 < i \<longrightarrow> tagged (get r)" by auto
    have "rows \<noteq> []" using ne by (simp add: rows)
    then have "re_loop (Suc n) st nonces (\<lambda>_ t. t) opts get put k z stats t =
        Some (Inr (stats\<lparr>ts_scanned := ts_scanned stats + length (plain_after get z t),
          ts_rewritten := ts_rewritten stats + length (plain_after get z t)\<rparr>), t')"
      using t2(1) t'(1) lr assms(4) total by (simp add: rows_def [symmetric] b_def [symmetric] Let_def add.assoc)
    with t'(2-4) reads t2(2) show ?thesis by auto
  qed
qed simp

end

interpretation titles: text_column n_title set_title
  by unfold_locales (simp add: set_title_def)

interpretation contents: text_column l_content set_content
  by unfold_locales (simp add: set_content_def)

subsection \<open>Properties\<close>


definition keyed_store :: store where
  "keyed_store = \<lparr>st_lib = plain_lib, st_cipher = Cipher (Some ''k'')\<rparr>"

definition old_note :: note_row where
  "old_note = \<lparr>n_id = 5, n_title = ''t'', n_owner_id = 1, n_notebook_id = None, n_is_todo = False,
     n_todo_due = None, n_todo_completed = None, n_created_at = 0, n_updated_at = 0, n_deleted_at = None\<rparr>"

definition old_db :: db where
  "old_db = empty_db\<lparr>notes_tbl := [(5, old_note)]\<rparr>"


end
