(* ===== verification/Spec2Isabelle.thy ===== *)
theory Spec2Isabelle
  imports Note_Update Maintenance Entity_Convergence Account_Security Rate_Limit Collab_Delivery
    Listing History Resource_Data Reencrypt
begin

text \<open>
  A verification of keeplin-srv, the synchronisation and collaboration server of the keeplin
  note application (\<open>src/crates/keeplin-srv/src/\<close>; file names below are relative to it).

  \<^bold>\<open>The program.\<close> Clients reach the server in three ways. The REST interface (\<open>http.rs\<close>)
  serves accounts, notes, notebooks, shares, lists, histories and resource contents. The device
  relay (\<open>sync.rs\<close>) is a websocket per device: it journals batches of changes, wakes the other
  devices of the user and sends each device the part of the journal past its cursor; a worker
  (\<open>projection.rs\<close>) applies the journal to the entity tables. The live sessions
  (\<open>collab.rs\<close>) are websockets on which users edit the lines of shared notes together; several
  instances of the server keep each other informed over a notification bus (\<open>bus.rs\<close>). All of
  them read and write one PostgreSQL database (\<open>store.rs\<close>), decide rights with
  \<open>permissions.rs\<close>, authenticate with \<open>auth.rs\<close> and encrypt titles and lines with \<open>crypto.rs\<close>.

  \<^bold>\<open>The model.\<close> A handler is a function from its inputs and the database to a result and the
  new database; an error is an \<open>app_error\<close> value in the left summand. The database is a record
  with one table per SQL table the server uses, as a list of rows in which the primary key is
  unique. What a function takes from outside, such as fresh identifiers, the clock, or which
  statement fails, is an argument.

  \<^item> Foundations. \<open>Keeplin_Prelude\<close>: identifiers, version vectors, the sequencing of fallible
    steps (\<open>res_then\<close>, Rust's \<open>?\<close>), lists. \<open>Text_Ops\<close>: the string functions of the Rust library
    in use. \<open>App_Error\<close> (\<open>error.rs\<close>): the error type, its status and message. \<open>Crypto\<close>
    (\<open>crypto.rs\<close>). \<open>Server_Config\<close> and \<open>App_State\<close> (\<open>config.rs\<close>, \<open>state.rs\<close>): reading the
    environment; no weak secret passes outside development mode.
  \<^item> Database. \<open>Database\<close>: rows and tables. \<open>Store_Notes\<close>, \<open>Store_Accounts\<close>, \<open>Journal\<close>,
    \<open>Entities\<close>: the queries of \<open>store.rs\<close>. \<open>Transactions\<close>: \<open>serializable\<close> of \<open>http.rs\<close>, which
    reruns a transaction after a serialization failure, with arbitrary commits of others between
    the attempts; it takes effect once or not at all, and three failures give 503.
  \<^item> Rights. \<open>Capabilities\<close> (bitsets at 32 bits) and \<open>Access_Control\<close> (\<open>permissions.rs\<close>);
    \<open>Sharing\<close> and \<open>Note_Update\<close> (the handlers of \<open>http.rs\<close> that share, transfer, delete and move);
    \<open>Sharing_Rights\<close>: what each of them does to the rights of every user. Nobody gives more than
    they hold, a move takes access from nobody silently, and a deleted share is gone.
  \<^item> Lines. \<open>Collab_Ops\<close> (\<open>collab.rs\<close>, \<open>protocol.rs\<close>): validation and application of line
    operations. \<open>Collab_Lines\<close>: lines and order stay consistent, operations stay inside their
    note, replays change nothing. \<open>Versioned_Cell\<close> is the contract of a versioned row, from which
    the convergence of concurrent writes follows once; lines provide it in \<open>Collab_Lines\<close>.
    \<open>Note_Body\<close>: snapshots, import and export. \<open>Maintenance\<close>: retention and the collection of
    tombstones, which no reader notices.
  \<^item> Relay. \<open>Journal\<close>: batches, cursors, pruning, \<open>deliver_backlog\<close>; a device has received exactly
    the journal up to its cursor. \<open>Sync_Relay\<close>: the hub, the handshake, the relay loop.
    \<open>Relay_Delivery\<close>: invariants of every interleaving of connections, and that an accepted batch
    is in the next complete backlog of every other device.
  \<^item> Projection. \<open>Entities\<close> and \<open>Projection\<close>: the entity writes and the worker.
    \<open>Entity_Convergence\<close>: notebooks and tags as last-writer-wins registers.
    \<open>Projection_Queue\<close>: the invariant of the queue, isolation of users, and that a batch is
    drained to the end.
  \<^item> Accounts. \<open>Authentication\<close> (\<open>auth.rs\<close>), \<open>Mail\<close> (\<open>mail.rs\<close>), \<open>Accounts\<close> (\<open>http.rs\<close>),
    \<open>Rate_Limit\<close> (\<open>ratelimit.rs\<close>); \<open>Account_Security\<close>: login, lockout, reset, deletion.
  \<^item> Live sessions. \<open>Collab_Sessions\<close>: registry, bounded queues, presence, every client message.
    \<open>Bus\<close>: the notifications of other instances. \<open>Collab_Delivery\<close>: a connection is sent only
    notes its user could read when it joined; what is broadcast is what was committed.
  \<^item> Reading. \<open>Listing\<close>: cursors and the list handlers; the locale \<open>keyset\<close> shows once that
    following the pages gives each entry once, and every list query interprets it. \<open>History\<close>:
    version histories. \<open>Resource_Data\<close>: contents and quota.
  \<^item> \<open>Reencrypt\<close> (\<open>reencrypt.rs\<close>): the offline pass, with a locale for a text column that titles
    and lines interpret.
  \<^item> This theory: the three entry points accept the same tokens.

  \<^bold>\<open>Interfaces.\<close> The locales are contracts between these parts, and each is interpreted on the
  functions of the model: \<open>pk_table\<close>, a table with a primary key, on the association lists of the
  database; \<open>lww_cell\<close> on lines and its extension \<open>lww_register\<close> on notebooks and tags; \<open>keyset\<close>
  on the list queries; \<open>text_column\<close> on titles and lines.

  \<^bold>\<open>Parameters.\<close> Code of other crates is an argument. The crate keeplin_core decides which of two
  versions of a row wins and decodes changes; the convergence theorems assume of it
  (\<open>resolver_ok\<close>) that a causally newer version wins and that of two concurrent ones the later
  timestamp does, then the greater writer. The AEAD cipher, base64 and UTF-8 decoding are the
  parameters of \<open>Crypto\<close>, assumed to invert each other (\<open>crypto_lib_ok\<close>) where reading back
  matters. Token signing and password hashing are assumed to accept what they produced
  (\<open>jwt_ok\<close>, \<open>argon_ok\<close>). The limiter computes in rationals, followed by a rounding function whose
  error is bounded (\<open>float_ok\<close>). The texts of the timestamps and identifiers in a cursor parse
  back (\<open>cursor_text_ok\<close>). A fan-out channel behaves as tokio documents its broadcast channel: a
  full receiver loses its oldest message and is told how many it missed.

  \<^bold>\<open>Steps and concurrency.\<close> In the interleavings of \<open>Relay_Delivery\<close> and \<open>Collab_Delivery\<close> a step is
  one handled frame, one wake or one notification; the rest of the system may change the database
  between steps. The finer interleaving in which a join has found its session and not subscribed
  yet is the subject of \<open>join_races_leave\<close> in \<open>Collab_Delivery\<close>, and a batch that draws its
  sequence number before another and commits after it that of \<open>backlog_skips_late_commit\<close> in
  \<open>Journal\<close>.

  \<^bold>\<open>Loops.\<close> The loop of \<open>drain_batch\<close> in \<open>projection.rs\<close> has no bound in the code, so the model
  has fuel and gives \<open>None\<close> when it is used up; \<open>drain_batch_ends\<close> shows that more fuel than the
  attempts the live jobs have left is enough. The batch loop of the re-encryption pass has fuel
  as well, and \<open>reencrypt_preserves\<close> shows how much is enough. \<open>walk\<close>, the client that follows the
  pages of a list, needs as many requests as there are rows. The attempts of \<open>serializable\<close> are
  three, as in the code. All other loops are structural or have a termination measure.

  \<^bold>\<open>Not modelled.\<close> The router and the version, health and metrics answers, which hold no state of
  their own; startup, shutdown, migrations and logging in \<open>main.rs\<close>; the reconnecting listener task
  of the bus, timers and websocket pings, of which only the effect (a message handled, a
  connection ended) is a step; hooks for tests in \<open>state.rs\<close>; the crate keeplin_core.

  \<^bold>\<open>Next.\<close> The startup checks and the health and metrics handlers; interleavings at the level of
  single awaits for joins and operations; an abstract specification of the relay as one reliable
  log per user.
\<close>

section \<open>Properties that span components\<close>

subsection \<open>The three entry points\<close>

lemma collab_token_header:
  assumes "list_all visible_ascii t"
  shows "collab_token (Some (''Bearer '' @ t)) param = Inr t" and "bearer_token (Some (''Bearer '' @ t)) = Inr t"
proof -
  have "list_all visible_ascii (''Bearer '' @ t)" using assms by (simp add: visible_ascii_def)
  then show "collab_token (Some (''Bearer '' @ t)) param = Inr t" "bearer_token (Some (''Bearer '' @ t)) = Inr t"
    using strip_prefix_append [of "''Bearer ''" t] unfolding collab_token_def bearer_token_def header_str_def by simp_all
qed

lemma auth_mw_token:
  assumes "list_all visible_ascii t"
  shows "auth_mw lib app now (Some (''Bearer '' @ t)) d =
    res_then (verify_token lib now t (jwt_secret (app_config app))) (\<lambda>user.
       case get_device (au_device_id user) d of
         Some device \<Rightarrow> if d_user_id device = au_user_id user then Inr user else Inl InvalidToken
       | None \<Rightarrow> Inl InvalidToken)"
  unfolding auth_mw_def collab_token_header(2) [OF assms] by simp

text \<open>
  C18: the three ways into the server accept the same tokens. A token gets past the middleware
  of the REST interface exactly if it opens a relay connection, which then acts for a device
  of the same user; and it opens a collaboration connection, for the same user and device,
  exactly if the account also exists. Deleting a device therefore closes all three at once.
\<close>

theorem entry_points_agree:
  assumes "list_all visible_ascii t"
    and "rv_app renv = app" and "rv_lib renv = lib" and "rv_now renv = now" and "rv_fails renv ''get_device'' = None"
    and "cv_app cenv = app" and "cv_now cenv = now" and "\<forall>name. cv_fails cenv name = None"
  shows "(auth_mw lib app now (Some (''Bearer '' @ t)) d = Inr user \<longrightarrow>
      (\<exists>device. authenticate renv (Some (RText (Some (JObj [(''type'', JStr ''auth''), (''token'', JStr t)])))) d = Some device
        \<and> d_user_id device = au_user_id user))
    \<and> (authenticate renv (Some (RText (Some (JObj [(''type'', JStr ''auth''), (''token'', JStr t)])))) d = Some device \<longrightarrow>
      (\<exists>user. auth_mw lib app now (Some (''Bearer '' @ t)) d = Inr user \<and> get_device (au_device_id user) d = Some device))
    \<and> (collab_handler cenv lib (Some (''Bearer '' @ t)) None d = Inr (u, dev, name) \<longleftrightarrow>
      (\<exists>user row. auth_mw lib app now (Some (''Bearer '' @ t)) d = Inr user \<and> au_device_id user = dev
        \<and> get_user_by_id_on (au_user_id user) d = Some row \<and> u_id row = u \<and> u_display_name row = name))"
proof (cases "verify_token lib now t (jwt_secret (app_config app))")
  case (Inl e)
  with assms show ?thesis
    unfolding auth_mw_token [OF assms(1)] collab_handler_def collab_token_header(1) [OF assms(1)]
    by (simp add: authenticate_def json_at_def)
next
  case (Inr au)
  with assms show ?thesis
    unfolding auth_mw_token [OF assms(1)] collab_handler_def collab_token_header(1) [OF assms(1)]
    by (auto simp: authenticate_def json_at_def stmt_def res_simps split: option.splits if_splits)
qed

definition entry_env :: collab_env where
  "entry_env = (live_env 70)\<lparr>cv_now := 0\<rparr>"

theorem entry_points_agree_witness:
  "\<exists>user device. auth_mw relay_lib demo_app 0 (Some (''Bearer '' @ ''t'')) race_db = Inr user
     \<and> authenticate relay_demo (Some auth_frame) race_db = Some device \<and> d_user_id device = au_user_id user
     \<and> collab_handler entry_env relay_lib (Some (''Bearer '' @ ''t'')) None race_db = Inr (1, 11, ''n'')"
proof -
  have vis: "list_all visible_ascii ''t''" by (simp add: visible_ascii_def)
  have envs: "rv_app relay_demo = demo_app" "rv_lib relay_demo = relay_lib" "rv_now relay_demo = 0"
    "rv_fails relay_demo ''get_device'' = None" "cv_app entry_env = demo_app" "cv_now entry_env = 0"
    "\<forall>name. cv_fails entry_env name = None"
    by (simp_all add: relay_demo_def entry_env_def live_env_def)
  let ?au = "\<lparr>au_user_id = 1, au_device_id = 11, au_email = ''a''\<rparr>"
  have mw: "auth_mw relay_lib demo_app 0 (Some (''Bearer '' @ ''t'')) race_db = Inr ?au"
    unfolding auth_mw_token [OF vis] by (simp add: verify_token_def relay_lib_def get_device_def race_db_def tbl_get_def)
  have row: "\<exists>row. get_user_by_id_on (au_user_id ?au) race_db = Some row \<and> u_id row = 1 \<and> u_display_name row = ''n''"
    by (simp add: get_user_by_id_on_def race_db_def tbl_get_def)
  note agree = entry_points_agree [OF vis envs, of race_db]
  obtain device where "authenticate relay_demo (Some auth_frame) race_db = Some device" "d_user_id device = au_user_id ?au"
    using agree [of ?au] mw unfolding auth_frame_def by blast
  moreover have "collab_handler entry_env relay_lib (Some (''Bearer '' @ ''t'')) None race_db = Inr (1, 11, ''n'')"
    using agree [of _ _ 1 11 "''n''"] mw row by (metis authed_user.select_convs(2))
  ultimately show ?thesis using mw by blast
qed

end
